(* ===== verification/Prelude.thy ===== *)
theory Prelude
  imports Main "HOL-Library.Word" "HOL-Library.List_Lexorder" "HOL-Library.AList"
begin

text \<open>
  Shared vocabulary of the development: fallible results (Rust's \<open>Result\<close>), computations
  that keep their state when they fail (a Rust method with a mutable receiver that returns
  \<open>Result\<close>), a small Hoare logic for the latter, Rust's checked and saturating integer
  operations on naturals of a given width, and lemmas on association lists (the model of a
  \<open>HashMap\<close>).
\<close>

named_theorems res_simps \<open>unfolding rules for results\<close>
named_theorems act_simps \<open>unfolding rules for stateful computations\<close>
named_theorems hoare_intros \<open>introduction rules for the Hoare triples\<close>
named_theorems int_ops \<open>definitions of the width-checked integer operations\<close>

type_synonym byte = "8 word"
type_synonym bytes = "byte list"

section \<open>Results\<close>

text \<open>
  \<open>'e + 'a\<close> is \<open>Result<'a, 'e>\<close>: \<open>Inl\<close> is \<open>Err\<close>, \<open>Inr\<close> is \<open>Ok\<close>.
  \<open>res_bind\<close> is the question-mark operator.
\<close>

definition res_bind :: "'e + 'a \<Rightarrow> ('a \<Rightarrow> 'e + 'b) \<Rightarrow> 'e + 'b" where
  "res_bind r f = (case r of Inl e \<Rightarrow> Inl e | Inr x \<Rightarrow> f x)"

definition map_err :: "('e \<Rightarrow> 'f) \<Rightarrow> 'e + 'a \<Rightarrow> 'f + 'a" where
  "map_err f r = (case r of Inl e \<Rightarrow> Inl (f e) | Inr x \<Rightarrow> Inr x)"

definition ok_or :: "'a option \<Rightarrow> 'e \<Rightarrow> 'e + 'a" where
  "ok_or v e = (case v of None \<Rightarrow> Inl e | Some x \<Rightarrow> Inr x)"

definition ensure :: "bool \<Rightarrow> 'e \<Rightarrow> 'e + unit" where
  "ensure b e = (if b then Inr () else Inl e)"

definition is_ok :: "'e + 'a \<Rightarrow> bool" where
  "is_ok r = (case r of Inl _ \<Rightarrow> False | Inr _ \<Rightarrow> True)"

definition res_ok :: "'e + 'a \<Rightarrow> 'a option" where
  "res_ok r = (case r of Inl _ \<Rightarrow> None | Inr x \<Rightarrow> Some x)"

text \<open>Collecting an iterator of results stops at the first error.\<close>

fun res_map :: "('a \<Rightarrow> 'e + 'b) \<Rightarrow> 'a list \<Rightarrow> 'e + 'b list" where
  "res_map f [] = Inr []"
| "res_map f (x # xs) = res_bind (f x) (\<lambda>y. res_bind (res_map f xs) (\<lambda>ys. Inr (y # ys)))"

text \<open>A \<open>for\<close> loop whose body may return early with an error; the accumulator is the loop's state.\<close>

fun res_fold :: "('s \<Rightarrow> 'a \<Rightarrow> 'e + 's) \<Rightarrow> 's \<Rightarrow> 'a list \<Rightarrow> 'e + 's" where
  "res_fold f s [] = Inr s"
| "res_fold f s (x # xs) = res_bind (f s x) (\<lambda>s'. res_fold f s' xs)"

definition res_all :: "('a \<Rightarrow> 'e + unit) \<Rightarrow> 'a list \<Rightarrow> 'e + unit" where
  "res_all f xs = res_fold (\<lambda>_ x. f x) () xs"

lemma res_bind_Inr_iff [res_simps]:
  "res_bind r f = Inr y \<longleftrightarrow> (\<exists>x. r = Inr x \<and> f x = Inr y)"
  by (auto simp: res_bind_def split: sum.splits)

lemma res_bind_simps [simp]:
  "res_bind (Inl e) f = Inl e"
  "res_bind (Inr x) f = f x"
  by (simp_all add: res_bind_def)

lemma map_err_Inr_iff [res_simps]: "map_err f r = Inr y \<longleftrightarrow> r = Inr y"
  by (auto simp: map_err_def split: sum.splits)

lemma map_err_simps [simp]:
  "map_err f (Inl e) = Inl (f e)"
  "map_err f (Inr x) = Inr x"
  by (simp_all add: map_err_def)

lemma ok_or_Inr_iff [res_simps]: "ok_or v e = Inr y \<longleftrightarrow> v = Some y"
  by (auto simp: ok_or_def split: option.splits)

lemma ok_or_simps [simp]: "ok_or None e = Inl e" "ok_or (Some x) e = Inr x"
  by (simp_all add: ok_or_def)

lemma ensure_Inr_iff [res_simps]: "ensure b e = Inr u \<longleftrightarrow> b"
  by (simp add: ensure_def)

lemma ensure_simps [simp]: "ensure True e = Inr ()" "ensure False e = Inl e"
  by (simp_all add: ensure_def)

lemma is_ok_iff: "is_ok r \<longleftrightarrow> (\<exists>x. r = Inr x)"
  by (auto simp: is_ok_def split: sum.splits)

lemma res_ok_simps [simp]: "res_ok (Inl e) = None" "res_ok (Inr x) = Some x"
  by (simp_all add: res_ok_def)

lemma res_map_Inr_iff:
  "res_map f xs = Inr ys \<longleftrightarrow> list_all2 (\<lambda>x y. f x = Inr y) xs ys"
  by (induction xs arbitrary: ys)
    (auto simp: res_simps list_all2_Cons1)

lemma res_map_length: "res_map f xs = Inr ys \<Longrightarrow> length ys = length xs"
  by (metis list_all2_lengthD res_map_Inr_iff)

lemma res_all_Inr_iff [res_simps]: "res_all f xs = Inr u \<longleftrightarrow> (\<forall>x \<in> set xs. f x = Inr ())"
proof -
  have "res_fold (\<lambda>_ x. f x) () xs = Inr () \<longleftrightarrow> (\<forall>x \<in> set xs. f x = Inr ())"
    by (induction xs) (auto simp: res_simps)
  then show ?thesis by (simp add: res_all_def)
qed

lemma res_all_ensure: "res_all (\<lambda>x. ensure (P x) e) xs = (if \<forall>x \<in> set xs. P x then Inr () else Inl e)"
  unfolding res_all_def by (induction xs) (auto simp: ensure_def)

lemma res_fold_append:
  "res_fold f s (xs @ ys) = res_bind (res_fold f s xs) (\<lambda>s'. res_fold f s' ys)"
  by (induction xs arbitrary: s) (auto simp: res_bind_def split: sum.splits)

lemma res_fold_invariant:
  assumes "res_fold f s xs = Inr s'" and "P s"
    and "\<And>s x s'. x \<in> set xs \<Longrightarrow> P s \<Longrightarrow> f s x = Inr s' \<Longrightarrow> P s'"
  shows "P s'"
  using assms by (induction xs arbitrary: s) (auto simp: res_simps)

section \<open>Stateful computations\<close>

text \<open>
  \<open>('s, 'e, 'a) act\<close> is a method on a mutable state \<open>'s\<close> that returns
  \<open>Result<'a, 'e>\<close>. The state written before an early return is kept, as in the source.
\<close>

type_synonym ('s, 'e, 'a) act = "'s \<Rightarrow> ('e + 'a) \<times> 's"

definition act_ret :: "'a \<Rightarrow> ('s, 'e, 'a) act" where
  "act_ret x = (\<lambda>s. (Inr x, s))"

definition act_fail :: "'e \<Rightarrow> ('s, 'e, 'a) act" where
  "act_fail e = (\<lambda>s. (Inl e, s))"

definition act_bind :: "('s, 'e, 'a) act \<Rightarrow> ('a \<Rightarrow> ('s, 'e, 'b) act) \<Rightarrow> ('s, 'e, 'b) act" where
  "act_bind m f = (\<lambda>s. case m s of (Inl e, s') \<Rightarrow> (Inl e, s') | (Inr x, s') \<Rightarrow> f x s')"

abbreviation act_seq :: "('s, 'e, 'a) act \<Rightarrow> ('s, 'e, 'b) act \<Rightarrow> ('s, 'e, 'b) act" where
  "act_seq m n \<equiv> act_bind m (\<lambda>_. n)"

definition act_lift :: "'e + 'a \<Rightarrow> ('s, 'e, 'a) act" where
  "act_lift r = (\<lambda>s. (r, s))"

definition act_get :: "('s \<Rightarrow> 'a) \<Rightarrow> ('s, 'e, 'a) act" where
  "act_get g = (\<lambda>s. (Inr (g s), s))"

definition act_upd :: "('s \<Rightarrow> 's) \<Rightarrow> ('s, 'e, unit) act" where
  "act_upd h = (\<lambda>s. (Inr (), h s))"

definition act_ensure :: "bool \<Rightarrow> 'e \<Rightarrow> ('s, 'e, unit) act" where
  "act_ensure b e = act_lift (ensure b e)"

text \<open>\<open>act_try\<close> runs a computation and hands its result, error or not, to the continuation.\<close>

definition act_try :: "('s, 'e, 'a) act \<Rightarrow> ('e + 'a \<Rightarrow> ('s, 'e, 'b) act) \<Rightarrow> ('s, 'e, 'b) act" where
  "act_try m f = (\<lambda>s. case m s of (r, s') \<Rightarrow> f r s')"

fun act_iter :: "('x \<Rightarrow> ('s, 'e, unit) act) \<Rightarrow> 'x list \<Rightarrow> ('s, 'e, unit) act" where
  "act_iter f [] = act_ret ()"
| "act_iter f (x # xs) = act_bind (f x) (\<lambda>_. act_iter f xs)"

fun act_mapM :: "('x \<Rightarrow> ('s, 'e, 'y) act) \<Rightarrow> 'x list \<Rightarrow> ('s, 'e, 'y list) act" where
  "act_mapM f [] = act_ret []"
| "act_mapM f (x # xs) =
     act_bind (f x) (\<lambda>y. act_bind (act_mapM f xs) (\<lambda>ys. act_ret (y # ys)))"

fun act_foldM :: "('b \<Rightarrow> 'x \<Rightarrow> ('s, 'e, 'b) act) \<Rightarrow> 'b \<Rightarrow> 'x list \<Rightarrow> ('s, 'e, 'b) act" where
  "act_foldM f b [] = act_ret b"
| "act_foldM f b (x # xs) = act_bind (f b x) (\<lambda>b'. act_foldM f b' xs)"

lemma act_bind_Inr_iff [act_simps]:
  "act_bind m f s = (Inr y, t) \<longleftrightarrow> (\<exists>x s'. m s = (Inr x, s') \<and> f x s' = (Inr y, t))"
  by (auto simp: act_bind_def split: prod.splits sum.splits)

lemma act_bind_Inl_iff:
  "act_bind m f s = (Inl e, t) \<longleftrightarrow>
     m s = (Inl e, t) \<or> (\<exists>x s'. m s = (Inr x, s') \<and> f x s' = (Inl e, t))"
  by (auto simp: act_bind_def split: prod.splits sum.splits)

lemma act_ret_iff [act_simps]: "act_ret x s = (r, t) \<longleftrightarrow> r = Inr x \<and> t = s"
  by (auto simp: act_ret_def)

lemma act_fail_iff [act_simps]: "act_fail e s = (r, t) \<longleftrightarrow> r = Inl e \<and> t = s"
  by (auto simp: act_fail_def)

lemma act_lift_iff [act_simps]: "act_lift q s = (r, t) \<longleftrightarrow> r = q \<and> t = s"
  by (auto simp: act_lift_def)

lemma act_get_iff [act_simps]: "act_get g s = (r, t) \<longleftrightarrow> r = Inr (g s) \<and> t = s"
  by (auto simp: act_get_def)

lemma act_upd_iff [act_simps]: "act_upd h s = (r, t) \<longleftrightarrow> r = Inr () \<and> t = h s"
  by (auto simp: act_upd_def)

lemma act_ensure_Inr_iff [act_simps]:
  "act_ensure b e s = (Inr u, t) \<longleftrightarrow> b \<and> t = s"
  by (auto simp: act_ensure_def act_lift_def ensure_def)

lemma act_bind_ret [simp]: "act_bind (act_ret x) f = f x"
  by (simp add: act_bind_def act_ret_def)

lemma act_bind_fail [simp]: "act_bind (act_fail e) f = act_fail e"
  by (simp add: act_bind_def act_fail_def)

text \<open>The same facts as elimination rules, for long sequences of statements.\<close>

lemma act_bindE: "act_bind m f s = (Inr y, t) \<Longrightarrow> (\<And>x s'. m s = (Inr x, s') \<Longrightarrow> f x s' = (Inr y, t) \<Longrightarrow> P) \<Longrightarrow> P"
  by (auto simp: act_bind_Inr_iff)

lemma act_liftE: "act_lift q s = (Inr x, t) \<Longrightarrow> (q = Inr x \<Longrightarrow> s = t \<Longrightarrow> P) \<Longrightarrow> P"
  by (auto simp: act_lift_def)

lemma act_ensureE: "act_ensure b e s = (Inr x, t) \<Longrightarrow> (b \<Longrightarrow> s = t \<Longrightarrow> P) \<Longrightarrow> P"
  by (auto simp: act_ensure_Inr_iff)

lemma act_getE: "act_get g s = (Inr x, t) \<Longrightarrow> (g s = x \<Longrightarrow> s = t \<Longrightarrow> P) \<Longrightarrow> P"
  by (auto simp: act_get_def)

subsection \<open>Hoare triples\<close>

text \<open>
  \<open>act_valid P m Q E\<close>: from a state with \<open>P\<close>, \<open>m\<close> either returns \<open>x\<close> in a
  state with \<open>Q x\<close>, or fails with \<open>e\<close> in a state with \<open>E e\<close>.
\<close>

definition act_valid ::
  "('s \<Rightarrow> bool) \<Rightarrow> ('s, 'e, 'a) act \<Rightarrow> ('a \<Rightarrow> 's \<Rightarrow> bool) \<Rightarrow> ('e \<Rightarrow> 's \<Rightarrow> bool) \<Rightarrow> bool" where
  "act_valid P m Q E \<longleftrightarrow>
     (\<forall>s. P s \<longrightarrow> (case m s of (Inl e, t) \<Rightarrow> E e t | (Inr x, t) \<Rightarrow> Q x t))"

text \<open>\<open>act_inv I m\<close>: \<open>m\<close> keeps \<open>I\<close> whether it succeeds or fails.\<close>

definition act_inv :: "('s \<Rightarrow> bool) \<Rightarrow> ('s, 'e, 'a) act \<Rightarrow> bool" where
  "act_inv I m \<longleftrightarrow> act_valid I m (\<lambda>_. I) (\<lambda>_. I)"

lemma act_validI:
  assumes "\<And>s x t. P s \<Longrightarrow> m s = (Inr x, t) \<Longrightarrow> Q x t"
    and "\<And>s e t. P s \<Longrightarrow> m s = (Inl e, t) \<Longrightarrow> E e t"
  shows "act_valid P m Q E"
  using assms by (auto simp: act_valid_def split: prod.splits sum.splits)

lemma act_valid_okD: "act_valid P m Q E \<Longrightarrow> P s \<Longrightarrow> m s = (Inr x, t) \<Longrightarrow> Q x t"
  by (auto simp: act_valid_def)

lemma act_valid_errD: "act_valid P m Q E \<Longrightarrow> P s \<Longrightarrow> m s = (Inl e, t) \<Longrightarrow> E e t"
  by (auto simp: act_valid_def)

lemma act_valid_conseq:
  assumes "act_valid P' m Q' E'" and "\<And>s. P s \<Longrightarrow> P' s"
    and "\<And>x s. Q' x s \<Longrightarrow> Q x s" and "\<And>e s. E' e s \<Longrightarrow> E e s"
  shows "act_valid P m Q E"
proof (rule act_validI)
  show "Q x t" if "P s" "m s = (Inr x, t)" for s x t
    using act_valid_okD [OF assms(1) assms(2) [OF that(1)] that(2)] by (rule assms(3))
  show "E e t" if "P s" "m s = (Inl e, t)" for s e t
    using act_valid_errD [OF assms(1) assms(2) [OF that(1)] that(2)] by (rule assms(4))
qed

lemma act_valid_bind [hoare_intros]:
  assumes "act_valid P m R E" and "\<And>x. act_valid (R x) (f x) Q E"
  shows "act_valid P (act_bind m f) Q E"
proof (rule act_validI)
  fix s y t
  assume P: "P s" and "act_bind m f s = (Inr y, t)"
  then obtain x s' where "m s = (Inr x, s')" and f: "f x s' = (Inr y, t)"
    by (auto simp: act_bind_Inr_iff)
  with P have "R x s'" by (blast intro: act_valid_okD [OF assms(1)])
  then show "Q y t" using f by (rule act_valid_okD [OF assms(2)])
next
  fix s e t
  assume P: "P s" and "act_bind m f s = (Inl e, t)"
  then consider "m s = (Inl e, t)" | x s' where "m s = (Inr x, s')" "f x s' = (Inl e, t)"
    by (auto simp: act_bind_Inl_iff)
  then show "E e t"
  proof cases
    case 1
    with P show ?thesis by (rule act_valid_errD [OF assms(1)])
  next
    case 2
    from P 2(1) have "R x s'" by (rule act_valid_okD [OF assms(1)])
    then show ?thesis using 2(2) by (rule act_valid_errD [OF assms(2)])
  qed
qed

lemma act_valid_iter:
  assumes "\<And>x. x \<in> set xs \<Longrightarrow> act_valid P (f x) (\<lambda>_. P) E"
  shows "act_valid P (act_iter f xs) (\<lambda>_. P) E"
  using assms
proof (induction xs)
  case Nil
  then show ?case by (simp add: act_valid_def act_ret_def)
next
  case (Cons x xs)
  then show ?case by (auto intro!: act_valid_bind)
qed

lemma act_inv_iff: "act_inv I m \<longleftrightarrow> (\<forall>s. I s \<longrightarrow> I (snd (m s)))"
proof -
  have "(case m s of (Inl e, t) \<Rightarrow> I t | (Inr x, t) \<Rightarrow> I t) = I (snd (m s))" for s
    by (simp split: prod.splits sum.splits)
  then show ?thesis by (simp add: act_inv_def act_valid_def)
qed

lemma act_inv_ret [hoare_intros]: "act_inv I (act_ret x)"
  by (simp add: act_inv_def act_valid_def act_ret_def)

lemma act_inv_fail [hoare_intros]: "act_inv I (act_fail e)"
  by (simp add: act_inv_def act_valid_def act_fail_def)

lemma act_inv_lift [hoare_intros]: "act_inv I (act_lift r)"
  by (simp add: act_inv_def act_valid_def act_lift_def split: sum.splits)

lemma act_inv_get [hoare_intros]: "act_inv I (act_get g)"
  by (simp add: act_inv_def act_valid_def act_get_def)

lemma act_inv_ensure [hoare_intros]: "act_inv I (act_ensure b e)"
  by (simp add: act_ensure_def act_inv_lift)

lemma act_inv_upd [hoare_intros]: "(\<And>s. I s \<Longrightarrow> I (h s)) \<Longrightarrow> act_inv I (act_upd h)"
  by (simp add: act_inv_def act_valid_def act_upd_def)

lemma act_inv_bind [hoare_intros]:
  "act_inv I m \<Longrightarrow> (\<And>x. act_inv I (f x)) \<Longrightarrow> act_inv I (act_bind m f)"
  unfolding act_inv_def by (rule act_valid_bind)

lemma act_inv_try [hoare_intros]:
  "act_inv I m \<Longrightarrow> (\<And>r. act_inv I (f r)) \<Longrightarrow> act_inv I (act_try m f)"
  by (simp add: act_inv_iff act_try_def split_def)

lemma act_inv_iter [hoare_intros]: "(\<And>x. act_inv I (f x)) \<Longrightarrow> act_inv I (act_iter f xs)"
  unfolding act_inv_def by (rule act_valid_iter)

lemma act_inv_mapM [hoare_intros]: "(\<And>x. act_inv I (f x)) \<Longrightarrow> act_inv I (act_mapM f xs)"
  by (induction xs) (auto intro!: hoare_intros)

lemma act_inv_foldM [hoare_intros]: "(\<And>b x. act_inv I (f b x)) \<Longrightarrow> act_inv I (act_foldM f b xs)"
  by (induction xs arbitrary: b) (auto intro!: hoare_intros)

lemma act_inv_if [hoare_intros]:
  "act_inv I m \<Longrightarrow> act_inv I n \<Longrightarrow> act_inv I (if b then m else n)"
  by simp

lemma act_invD: "act_inv I m \<Longrightarrow> I s \<Longrightarrow> I (snd (m s))"
  by (simp add: act_inv_iff)

section \<open>Integers of a fixed width\<close>

text \<open>
  Unsigned machine integers are naturals together with the bound of their width. Each
  Rust operation with a defined overflow behaviour is written out: \<open>checked_*\<close>
  returns \<open>None\<close>, \<open>saturating_*\<close> stops at the bound and \<open>wrapping_*\<close> (the
  plain operators of a release build) wraps around.
\<close>

definition uint_max :: "nat \<Rightarrow> nat" where
  "uint_max w = 2 ^ w - 1"

definition checked_add :: "nat \<Rightarrow> nat \<Rightarrow> nat \<Rightarrow> nat option" where
  [int_ops]: "checked_add w a b = (if a + b \<le> uint_max w then Some (a + b) else None)"

definition checked_sub :: "nat \<Rightarrow> nat \<Rightarrow> nat option" where
  [int_ops]: "checked_sub a b = (if b \<le> a then Some (a - b) else None)"

definition saturating_add :: "nat \<Rightarrow> nat \<Rightarrow> nat \<Rightarrow> nat" where
  [int_ops]: "saturating_add w a b = min (a + b) (uint_max w)"

definition saturating_sub :: "nat \<Rightarrow> nat \<Rightarrow> nat" where
  [int_ops]: "saturating_sub a b = a - b"

definition wrapping_add :: "nat \<Rightarrow> nat \<Rightarrow> nat \<Rightarrow> nat" where
  [int_ops]: "wrapping_add w a b = (a + b) mod 2 ^ w"

definition wrapping_mul :: "nat \<Rightarrow> nat \<Rightarrow> nat \<Rightarrow> nat" where
  [int_ops]: "wrapping_mul w a b = (a * b) mod 2 ^ w"

lemma checked_add_Some_iff:
  "checked_add w a b = Some c \<longleftrightarrow> c = a + b \<and> a + b \<le> uint_max w"
  by (auto simp: checked_add_def)

lemma checked_sub_Some_iff: "checked_sub a b = Some c \<longleftrightarrow> b \<le> a \<and> c = a - b"
  by (auto simp: checked_sub_def)

lemma saturating_add_mono:
  "a \<le> a' \<Longrightarrow> b \<le> b' \<Longrightarrow> saturating_add w a b \<le> saturating_add w a' b'"
  by (simp add: saturating_add_def)

lemma uint_max_values [simp]:
  "uint_max 8 = 255" "uint_max 16 = 65535" "uint_max 32 = 4294967295"
  "uint_max 64 = 18446744073709551615"
  by (simp_all add: uint_max_def)

section \<open>Association lists\<close>

text \<open>
  A \<open>HashMap\<close> is an association list with distinct keys; insertion keeps the position of
  a key that is already there. The iteration order of the source is unspecified: no lemma
  below depends on it.
\<close>

definition keys_distinct :: "('k \<times> 'v) list \<Rightarrow> bool" where
  "keys_distinct m \<longleftrightarrow> distinct (map fst m)"

lemma keys_distinct_update: "keys_distinct m \<Longrightarrow> keys_distinct (AList.update k v m)"
  by (simp add: keys_distinct_def distinct_update)

lemma keys_distinct_delete: "keys_distinct m \<Longrightarrow> keys_distinct (AList.delete k m)"
  by (simp add: keys_distinct_def distinct_delete)

lemma keys_distinct_filter: "keys_distinct m \<Longrightarrow> keys_distinct (filter P m)"
  by (simp add: keys_distinct_def distinct_map_filter)

lemma in_set_map_of:
  "keys_distinct m \<Longrightarrow> (k, v) \<in> set m \<longleftrightarrow> map_of m k = Some v"
  by (auto simp: keys_distinct_def dest: map_of_SomeD)

lemma map_of_filter_keys: "map_of (filter (\<lambda>(k, _). P k) m) k = (if P k then map_of m k else None)"
  by (induction m) auto

lemma update_fresh: "map_of m k = None \<Longrightarrow> AList.update k v m = m @ [(k, v)]"
  by (induction m) (auto split: if_splits)

lemma set_update_distinct:
  "keys_distinct m \<Longrightarrow>
     set (AList.update k v m) = insert (k, v) {(k', v') \<in> set m. k' \<noteq> k}"
  by (induction m) (auto simp: keys_distinct_def image_iff split: if_splits)

lemma sum_list_update_le:
  fixes f :: "'v \<Rightarrow> nat"
  shows "map_of m k = Some v \<Longrightarrow> f v' \<le> f v \<Longrightarrow>
    sum_list (map (f \<circ> snd) (AList.update k v' m)) \<le> sum_list (map (f \<circ> snd) m)"
  by (induction m) (auto split: if_splits)

section \<open>Slices\<close>

text \<open>
  Indexing and slicing panic out of range in Rust: \<open>None\<close> here. \<open>splice_opt\<close> is
  \<open>Vec::splice\<close> with a range.
\<close>

definition position :: "('a \<Rightarrow> bool) \<Rightarrow> 'a list \<Rightarrow> nat option" where
  "position P xs = (let i = length (takeWhile (\<lambda>x. \<not> P x) xs) in if i < length xs then Some i else None)"

lemma position_Some_iff:
  "position P xs = Some i \<longleftrightarrow> i < length xs \<and> P (xs ! i) \<and> (\<forall>j<i. \<not> P (xs ! j))"
proof
  assume "position P xs = Some i"
  then have i: "i = length (takeWhile (\<lambda>x. \<not> P x) xs)" and l: "i < length xs"
    by (auto simp: position_def Let_def split: if_splits)
  from l have "P (xs ! i)" unfolding i by (metis nth_length_takeWhile)
  moreover have "\<not> P (xs ! j)" if "j < i" for j
    using that unfolding i by (metis nth_mem set_takeWhileD takeWhile_nth)
  ultimately show "i < length xs \<and> P (xs ! i) \<and> (\<forall>j<i. \<not> P (xs ! j))" using l by blast
next
  assume a: "i < length xs \<and> P (xs ! i) \<and> (\<forall>j<i. \<not> P (xs ! j))"
  then have "takeWhile (\<lambda>x. \<not> P x) xs = take i xs" by (intro takeWhile_eq_take_P_nth) auto
  with a show "position P xs = Some i" by (simp add: position_def)
qed

definition nth_opt :: "'a list \<Rightarrow> nat \<Rightarrow> 'a option" where
  "nth_opt xs i = (if i < length xs then Some (xs ! i) else None)"

definition slice_opt :: "nat \<Rightarrow> nat \<Rightarrow> 'a list \<Rightarrow> 'a list option" where
  "slice_opt a b xs = (if a \<le> b \<and> b \<le> length xs then Some (take (b - a) (drop a xs)) else None)"

definition splice_opt :: "nat \<Rightarrow> nat \<Rightarrow> 'a list \<Rightarrow> 'a list \<Rightarrow> 'a list option" where
  "splice_opt a b ys xs = (if a \<le> b \<and> b \<le> length xs then Some (take a xs @ ys @ drop b xs) else None)"

lemma nth_opt_Some_iff: "nth_opt xs i = Some x \<longleftrightarrow> i < length xs \<and> x = xs ! i"
  by (auto simp: nth_opt_def)

lemma nth_opt_None_iff: "nth_opt xs i = None \<longleftrightarrow> length xs \<le> i"
  by (auto simp: nth_opt_def)

lemma slice_opt_append [simp]: "length ys = b - a \<Longrightarrow> a \<le> b \<Longrightarrow> length xs = a \<Longrightarrow>
    slice_opt a b (xs @ ys @ zs) = Some ys"
  by (simp add: slice_opt_def)


end
