(* ===== verification/Bitcoin.thy ===== *)
theory Bitcoin
  imports Prelude
begin

text \<open>
  The vocabulary the program takes from the \<open>bitcoin\<close> and \<open>secp256k1\<close> crates:
  transactions, keys and script instructions as data, and the functions of those crates
  as one record \<open>btc\<close> that the definitions of the other theories take as an argument.
  What the proofs rely on is stated by two locales: \<open>script_lib\<close> is the script encoding
  (push opcodes, script numbers, the instruction iterator) and \<open>key_lib\<close> the algebra of
  tweaked keys and of signatures. The theory gives an executable instance and interprets
  both locales on it.
\<close>

section \<open>Data\<close>

type_synonym script = bytes
type_synonym txid = bytes
type_synonym point = bytes
type_synonym xonly = bytes
type_synonym seckey = bytes
type_synonym amount = nat

text \<open>
  \<open>bitcoin::PublicKey\<close>: a curve point, held as its 33-byte serialization
  (\<open>inner.serialize()\<close>), and the \<open>compressed\<close> flag.
\<close>

record public_key =
  pk_compressed :: bool
  pk_inner :: point

text \<open>
  \<open>bitcoin::ecdsa::Signature\<close>: the curve signature and the sighash type that is appended to it
  in a witness (1 is \<open>All\<close>).
\<close>

record ecdsa_sig =
  sig_inner :: bytes
  sig_type :: nat

record outpoint =
  op_txid :: txid
  op_vout :: nat

record txin =
  ti_prev :: outpoint
  ti_sequence :: nat
  ti_witness :: "bytes list"
  ti_script_sig :: script

record txout =
  to_value :: amount
  to_spk :: script

record transaction =
  tx_version :: int
  tx_lock_time :: nat
  tx_input :: "txin list"
  tx_output :: "txout list"

datatype instr = Op byte | PushBytes bytes

definition max_money :: amount where
  "max_money = 21000000 * 100000000"

section \<open>The library functions\<close>

text \<open>
  \<open>b_instructions\<close> is the list the script iterator yields, \<open>None\<close> for an item that is an
  error. \<open>b_fee_vb r v\<close> is \<open>FeeRate::fee_vb\<close> of the rate \<open>b_from_sat_per_vb\<close> returned.
  \<open>b_taproot h t k\<close> builds the two-leaf tree and returns its merkle root and tap tweak;
  \<open>t_control_block h t k l\<close> is the control block of its leaf \<open>l\<close>. The other \<open>t_\<close> fields are
  Schnorr signing, the script-path sighash (with its sighash type) and the MuSig2 calls: nonce
  generation from session randomness, nonce aggregation, the tweak of the key cache, partial
  signing and aggregation.
\<close>

record taproot_lib =
  t_schnorr :: "bytes \<Rightarrow> seckey \<Rightarrow> bytes"
  t_script_sighash :: "transaction \<Rightarrow> nat \<Rightarrow> txout list \<Rightarrow> script \<Rightarrow> nat \<Rightarrow> bytes option"
  t_control_block :: "script \<Rightarrow> script \<Rightarrow> xonly \<Rightarrow> script \<Rightarrow> bytes option"
  t_nonce :: "bytes \<Rightarrow> point \<Rightarrow> bytes \<times> bytes"
  t_agg_nonce :: "bytes list \<Rightarrow> bytes"
  t_tweak_ok :: "point list \<Rightarrow> bytes \<Rightarrow> bool"
  t_partial :: "bytes \<Rightarrow> bytes \<Rightarrow> bytes \<Rightarrow> seckey \<Rightarrow> bytes \<Rightarrow> point list \<Rightarrow> bytes"
  t_sig_agg :: "bytes \<Rightarrow> bytes \<Rightarrow> bytes \<Rightarrow> bytes list \<Rightarrow> point list \<Rightarrow> bytes"
  t_sig_ok :: "bytes \<Rightarrow> bool"

record btc =
  b_tap :: taproot_lib
  b_der :: "bytes \<Rightarrow> bytes"
  b_uncompressed :: "point \<Rightarrow> bytes"
  b_pubkey_from_slice :: "bytes \<Rightarrow> public_key option"
  b_pubkey_of :: "seckey \<Rightarrow> point"
  b_seckey_from_slice :: "bytes \<Rightarrow> seckey option"
  b_combine :: "point \<Rightarrow> point \<Rightarrow> point option"
  b_add_tweak :: "seckey \<Rightarrow> seckey \<Rightarrow> seckey option"
  b_xonly :: "point \<Rightarrow> xonly"
  b_xonly_from_slice :: "bytes \<Rightarrow> xonly option"
  b_musig_agg :: "point list \<Rightarrow> xonly"
  b_push_slice :: "bytes \<Rightarrow> bytes"
  b_push_int :: "nat \<Rightarrow> bytes"
  b_push_lock_time :: "nat \<Rightarrow> bytes"
  b_instructions :: "script \<Rightarrow> instr option list"
  b_hash160 :: "bytes \<Rightarrow> bytes"
  b_sha256 :: "bytes \<Rightarrow> bytes"
  b_wscript_hash :: "script \<Rightarrow> bytes"
  b_witness_program :: "nat \<Rightarrow> bytes \<Rightarrow> script option"
  b_txid :: "transaction \<Rightarrow> txid"
  b_p2wsh_sighash :: "transaction \<Rightarrow> nat \<Rightarrow> script \<Rightarrow> amount \<Rightarrow> bytes option"
  b_sign :: "bytes \<Rightarrow> seckey \<Rightarrow> bytes"
  b_verify :: "bytes \<Rightarrow> bytes \<Rightarrow> point \<Rightarrow> bool"
  b_taproot :: "script \<Rightarrow> script \<Rightarrow> xonly \<Rightarrow> (bytes \<times> bytes) option"
  b_p2tr :: "xonly \<Rightarrow> bytes \<Rightarrow> script"
  b_taproot_sighash :: "transaction \<Rightarrow> nat \<Rightarrow> txout list \<Rightarrow> bytes option"
  b_scalar_ok :: "bytes \<Rightarrow> bool"
  b_from_sat_per_vb :: "nat \<Rightarrow> nat option"
  b_fee_vb :: "nat \<Rightarrow> nat \<Rightarrow> nat option"

definition pk_to_bytes :: "btc \<Rightarrow> public_key \<Rightarrow> bytes" where
  "pk_to_bytes B k = (if pk_compressed k then pk_inner k else b_uncompressed B (pk_inner k))"

definition sig_to_vec :: "btc \<Rightarrow> ecdsa_sig \<Rightarrow> bytes" where
  "sig_to_vec B s = b_der B (sig_inner s) @ [of_nat (sig_type s)]"

definition b_push_key :: "btc \<Rightarrow> public_key \<Rightarrow> bytes" where
  "b_push_key B k = b_push_slice B (pk_to_bytes B k)"

definition compressed_key :: "point \<Rightarrow> public_key" where
  "compressed_key p = \<lparr>pk_compressed = True, pk_inner = p\<rparr>"

lemma compressed_key_simps [simp]:
  "pk_compressed (compressed_key p)" "pk_inner (compressed_key p) = p"
  "pk_to_bytes B (compressed_key p) = p"
  "compressed_key p = compressed_key q \<longleftrightarrow> p = q"
  by (auto simp: compressed_key_def pk_to_bytes_def)

lemma compressed_key_collapse: "pk_compressed k \<Longrightarrow> compressed_key (pk_inner k) = k"
  by (simp add: compressed_key_def)

section \<open>Script encoding\<close>

text \<open>Minimal little-endian bytes of a natural, and the script number of a positive one.\<close>

fun le_bytes :: "nat \<Rightarrow> bytes" where
  "le_bytes n = (if n = 0 then [] else of_nat (n mod 256) # le_bytes (n div 256))"

declare le_bytes.simps [simp del]

definition script_num :: "nat \<Rightarrow> bytes" where
  "script_num n = (let bs = le_bytes n in if bs \<noteq> [] \<and> 128 \<le> unat (last bs) then bs @ [0] else bs)"

lemma le_bytes_0 [simp]: "le_bytes 0 = []"
  by (simp add: le_bytes.simps)

lemma le_bytes_1: "0 < n \<Longrightarrow> n < 256 \<Longrightarrow> le_bytes n = [of_nat n]"
  by (simp add: le_bytes.simps [of n])

lemma le_bytes_2: "256 \<le> n \<Longrightarrow> n < 65536 \<Longrightarrow> le_bytes n = [of_nat (n mod 256), of_nat (n div 256)]"
  by (simp add: le_bytes.simps [of n] le_bytes_1)

lemma unat_byte: "n < 256 \<Longrightarrow> unat (of_nat n :: byte) = n"
  by (simp add: unat_of_nat take_bit_nat_def)

lemma script_num_u16:
  assumes "0 < n" "n < 65536"
  shows "script_num n = (if n < 128 then [of_nat n] else if n < 256 then [of_nat n, 0]
    else if n < 32768 then [of_nat (n mod 256), of_nat (n div 256)]
    else [of_nat (n mod 256), of_nat (n div 256), 0])"
proof -
  have "n div 256 < 256" using assms by simp
  then show ?thesis
    using assms
    by (cases "n < 256") (auto simp: script_num_def le_bytes_1 le_bytes_2 unat_byte Let_def)
qed

text \<open>What the iterator yields for an integer pushed with \<open>push_int\<close>.\<close>

definition int_instr :: "nat \<Rightarrow> instr" where
  "int_instr n = (if n = 0 then PushBytes [] else if n \<le> 16 then Op (of_nat (80 + n))
     else PushBytes (script_num n))"

locale script_lib =
  fixes B :: btc
  assumes push_slice_short: "length d \<le> 75 \<Longrightarrow> b_push_slice B d = of_nat (length d) # d"
    and push_int_zero: "b_push_int B 0 = [0]"
    and push_int_small: "0 < n \<Longrightarrow> n \<le> 16 \<Longrightarrow> b_push_int B n = [of_nat (80 + n)]"
    and push_int_large: "16 < n \<Longrightarrow> b_push_int B n = b_push_slice B (script_num n)"
    and push_lock_time: "b_push_lock_time B n = b_push_int B n"
    and instructions_nil: "b_instructions B [] = []"
    and instructions_op: "78 < unat b \<Longrightarrow> b_instructions B (b # s) = Some (Op b) # b_instructions B s"
    and instructions_push: "unat b \<le> 75 \<Longrightarrow> unat b \<le> length s \<Longrightarrow>
      b_instructions B (b # s) = Some (PushBytes (take (unat b) s)) # b_instructions B (drop (unat b) s)"
begin

lemma instructions_push_slice:
  assumes "length d \<le> 75"
  shows "b_instructions B (b_push_slice B d @ s) = Some (PushBytes d) # b_instructions B s"
proof -
  have "unat (of_nat (length d) :: byte) = length d" using assms by (simp add: unat_byte)
  then show ?thesis
    using assms instructions_push [of "of_nat (length d)" "d @ s"] by (simp add: push_slice_short)
qed

lemma instructions_push_int:
  assumes "n < 65536"
  shows "b_instructions B (b_push_int B n @ s) = Some (int_instr n) # b_instructions B s"
proof -
  consider "n = 0" | "0 < n" "n \<le> 16" | "16 < n" by linarith
  then show ?thesis
  proof cases
    case 1
    then show ?thesis by (simp add: push_int_zero int_instr_def instructions_push)
  next
    case 2
    then have "unat (80 + of_nat n :: byte) = 80 + n" using unat_byte [of "80 + n"] by simp
    then show ?thesis using 2 by (simp add: push_int_small int_instr_def instructions_op)
  next
    case 3
    then have "length (script_num n) \<le> 75"
      using assms by (simp add: script_num_u16)
    then show ?thesis using 3 by (simp add: push_int_large int_instr_def instructions_push_slice)
  qed
qed

lemmas instr_simps = instructions_nil instructions_op instructions_push_slice instructions_push_int

end

section \<open>Keys and signatures\<close>

text \<open>
  Tweaking a secret key by a nonce and combining its point with the point of the nonce
  are the same operation on the two sides; a signature made with a key verifies under its point.
\<close>

locale key_lib =
  fixes B :: btc
  assumes tweak_point: "b_add_tweak B k n = Some k' \<Longrightarrow>
      b_combine B (b_pubkey_of B k) (b_pubkey_of B n) = Some (b_pubkey_of B k')"
    and sign_verify: "b_verify B m (b_sign B m k) (b_pubkey_of B k)"

section \<open>An executable instance\<close>

text \<open>
  The script encoding of \<open>sample_lib\<close> is the consensus one, with all push opcodes. Its keys are
  32-byte strings under exclusive or and its hashes cut or pad their input: enough to run every
  definition of the development on concrete inputs.
\<close>

definition push_slice_c :: "bytes \<Rightarrow> bytes" where
  "push_slice_c d = (let n = length d in
     if n \<le> 75 then [of_nat n]
     else if n < 256 then [76, of_nat n]
     else if n < 65536 then [77, of_nat (n mod 256), of_nat (n div 256)]
     else [78, of_nat (n mod 256), of_nat (n div 256 mod 256), of_nat (n div 65536 mod 256),
           of_nat (n div 16777216)]) @ d"

definition push_int_c :: "nat \<Rightarrow> bytes" where
  "push_int_c n = (if n = 0 then [0] else if n \<le> 16 then [of_nat (80 + n)]
     else push_slice_c (script_num n))"

definition push_len :: "byte \<Rightarrow> bytes \<Rightarrow> (nat \<times> bytes) option" where
  "push_len b s = (
     if unat b \<le> 75 then Some (unat b, s)
     else if b = 76 then (case s of l # r \<Rightarrow> Some (unat l, r) | _ \<Rightarrow> None)
     else if b = 77 then (case s of l # m # r \<Rightarrow> Some (unat l + 256 * unat m, r) | _ \<Rightarrow> None)
     else (case s of l # m # n # k # r \<Rightarrow>
       Some (unat l + 256 * unat m + 65536 * unat n + 16777216 * unat k, r) | _ \<Rightarrow> None))"

lemma push_len_shorter: "push_len b s = Some (n, r) \<Longrightarrow> length r \<le> length s"
  by (auto simp: push_len_def split: if_splits list.splits)

function instructions_c :: "bytes \<Rightarrow> instr option list" where
  "instructions_c [] = []"
| "instructions_c (b # s) = (
     if 78 < unat b then Some (Op b) # instructions_c s
     else case push_len b s of
       None \<Rightarrow> [None]
     | Some (n, r) \<Rightarrow>
         if n \<le> length r then Some (PushBytes (take n r)) # instructions_c (drop n r) else [None])"
  by pat_completeness auto
termination
  by (relation "measure length") (auto dest: push_len_shorter)

definition fit :: "nat \<Rightarrow> bytes \<Rightarrow> bytes" where
  "fit n d = take n (d @ replicate n 0)"

definition xor_bytes :: "bytes \<Rightarrow> bytes \<Rightarrow> bytes" where
  "xor_bytes a b = map2 xor a b"

definition sample_from_slice :: "bytes \<Rightarrow> public_key option" where
  "sample_from_slice d = (if length d = 33 \<and> (hd d = 2 \<or> hd d = 3)
     then Some \<lparr>pk_compressed = True, pk_inner = d\<rparr>
     else if length d = 65 \<and> hd d = 4 then Some \<lparr>pk_compressed = False, pk_inner = 2 # take 32 (tl d)\<rparr>
     else None)"

definition sample_tap :: taproot_lib where
  "sample_tap = \<lparr>
     t_schnorr = (\<lambda>m k. m @ k),
     t_script_sighash = (\<lambda>t i ps l ty. if i < length (tx_input t) then Some (fit 32 (l @ concat (map to_spk ps))) else None),
     t_control_block = (\<lambda>h t k l. if l = h then Some (192 # k @ fit 32 t) else if l = t then Some (192 # k @ fit 32 h) else None),
     t_nonce = (\<lambda>r p. (r, p)),
     t_agg_nonce = concat,
     t_tweak_ok = (\<lambda>ps t. True),
     t_partial = (\<lambda>m n s k t ps. m @ k),
     t_sig_agg = (\<lambda>m n t ss ps. fit 64 (concat ss)),
     t_sig_ok = (\<lambda>d. length d = 64)\<rparr>"

definition sample_lib :: btc where
  "sample_lib = \<lparr>
     b_tap = sample_tap,
     b_der = (\<lambda>d. d),
     b_uncompressed = (\<lambda>p. 4 # tl p @ tl p),
     b_pubkey_from_slice = sample_from_slice,
     b_pubkey_of = (\<lambda>k. 2 # k),
     b_seckey_from_slice = (\<lambda>d. if length d = 32 then Some d else None),
     b_combine = (\<lambda>p q. Some (2 # xor_bytes (tl p) (tl q))),
     b_add_tweak = (\<lambda>k n. Some (xor_bytes k n)),
     b_xonly = tl,
     b_xonly_from_slice = (\<lambda>d. if length d = 32 then Some d else None),
     b_musig_agg = (\<lambda>ps. fold xor_bytes (map tl ps) (replicate 32 0)),
     b_push_slice = push_slice_c,
     b_push_int = push_int_c,
     b_push_lock_time = push_int_c,
     b_instructions = instructions_c,
     b_hash160 = fit 20,
     b_sha256 = fit 32,
     b_wscript_hash = fit 32,
     b_witness_program = (\<lambda>v d. if length d = 32 then Some (push_int_c v @ push_slice_c d) else None),
     b_txid = (\<lambda>t. fit 32 (concat (map (\<lambda>i. op_txid (ti_prev i) @ [of_nat (op_vout (ti_prev i))]) (tx_input t))
        @ concat (map (\<lambda>out. le_bytes (to_value out) @ to_spk out) (tx_output t)))),
     b_p2wsh_sighash = (\<lambda>t i s a. if i < length (tx_input t) then Some (fit 32 (s @ le_bytes a)) else None),
     b_sign = (\<lambda>m k. m @ k),
     b_verify = (\<lambda>m s p. s = m @ tl p),
     b_taproot = (\<lambda>h t k. Some (fit 32 (h @ t), fit 32 (k @ h @ t))),
     b_p2tr = (\<lambda>k m. 81 # push_slice_c (fit 32 (xor_bytes k m))),
     b_taproot_sighash = (\<lambda>t i ps. if i < length (tx_input t) then Some (fit 32 (concat (map to_spk ps))) else None),
     b_scalar_ok = (\<lambda>d. True),
     b_from_sat_per_vb = (\<lambda>r. Some (r * 1000 div 4)),
     b_fee_vb = (\<lambda>r v. Some ((r * (4 * v) + 999) div 1000))\<rparr>"

interpretation sample_script: script_lib sample_lib
proof
  fix b :: byte and s :: bytes
  show "78 < unat b \<Longrightarrow> b_instructions sample_lib (b # s) = Some (Op b) # b_instructions sample_lib s"
    by (simp add: sample_lib_def)
  show "unat b \<le> 75 \<Longrightarrow> unat b \<le> length s \<Longrightarrow> b_instructions sample_lib (b # s)
      = Some (PushBytes (take (unat b) s)) # b_instructions sample_lib (drop (unat b) s)"
    by (simp add: sample_lib_def push_len_def)
qed (simp_all add: sample_lib_def push_slice_c_def push_int_c_def)

interpretation sample_keys: key_lib sample_lib
  by unfold_locales (simp_all add: sample_lib_def)

lemma sample_lib_simps [simp]:
  "b_pubkey_of sample_lib k = 2 # k"
  "b_add_tweak sample_lib k n = Some (xor_bytes k n)"
  "b_combine sample_lib p q = Some (2 # xor_bytes (tl p) (tl q))"
  "b_pubkey_from_slice sample_lib = sample_from_slice"
  "b_fee_vb sample_lib = (\<lambda>r v. Some ((r * (4 * v) + 999) div 1000))"
  "b_from_sat_per_vb sample_lib r = Some (r * 1000 div 4)"
  by (simp_all add: sample_lib_def)

end
