(* ===== verification/Errors.thy ===== *)
theory Errors
  imports Bitcoin
begin

text \<open>
  The error enums of the crate. The payload of a variant that wraps another crate's error is
  left out, except that \<open>WRpc\<close> keeps the code and message of a JSON-RPC error response (\<open>None\<close>
  for every other RPC failure), \<open>MIO\<close> keeps the \<open>ErrorKind\<close> the server branches on, and a
  formatted message keeps its literal part. Each enum has one constructor the
  source does not have, \<open>..Panic\<close>: the value of a call that panics (an index out of range, an
  \<open>unwrap\<close> of \<open>None\<close>, an \<open>Amount\<close> operation out of range), so that no panic is lost.
\<close>

datatype protocol_error =
    PSecp | PScript | PHash | PKey | PSighash
  | PWrongMessage string string
  | PWrongNumOfSigs nat nat
  | PWrongNumOfContractTxs nat nat
  | PWrongNumOfPrivkeys nat nat
  | PIncorrectFundingAmount amount amount
  | PScriptPubkey
  | PScalarOutOfRange
  | PGeneral string
  | PTaprootSecp | PTaprootScript | PTaprootBuilder | PMusigTweak | PTaprootSigSlice | PTaprootSighash
  | PPanic

datatype fidelity_error =
    FWrongScriptType | FBondDoesNotExist | FBondAlreadyRedeemed | FBondLocktimeExpired | FInvalidCertHash
  | FInvalidConfirmationHeight "nat option" nat
  | FGeneral string
  | FInvalidBondLocktime
  | FBondUncomfirmed
  | FBondTransactionMissing nat
  | FPanic

datatype wallet_error =
    WIO | WCbor | WJson | WSecurity
  | WRpc "(int \<times> string) option"
  | WElectrum
  | WElectrumUnreachable nat
  | WZmq string
  | WBIP32 | WBIP39
  | WGeneral string
  | WTxConfirmationTimeout string
  | WInterrupted string
  | WProtocol protocol_error
  | WFidelity fidelity_error
  | WLocktime
  | WSecp
  | WConsensus string
  | WInsufficientFund nat nat
  | WSelection
  | WInvalidAddress
  | WPanic

datatype net_error =
    NIO | NReachedEOF | NConnectionTimedOut | NMessageTooLarge | NInvalidNetworkAddress | NCbor
  | NInvalidAppNetwork

datatype watcher_error =
    WtServerError | WtMempoolIndexerError | WtShutdown | WtParsingError | WtSendError
  | WtIOError | WtRPCError | WtWebSocket | WtNostrParsingError
  | WtWallet wallet_error
  | WtMutexPoison
  | WtGeneral string

datatype tor_error = TorIO | TorGeneral string | TorSerde

datatype io_kind = WouldBlock | TimedOut | Interrupted | UnexpectedEof | AddrInUse | OtherKind

datatype maker_error =
    MIO io_kind
  | MUnexpectedMessage string string
  | MGeneral string
  | MInsufficientLiquidity amount amount amount
  | MTooManySwaps
  | MSwapParamMismatch
  | MMutexPossion
  | MSecp
  | MWallet wallet_error
  | MNet net_error
  | MProtocol protocol_error
  | MTorError tor_error
  | MWatcher watcher_error
  | MPanic

datatype taker_error =
    TIO
  | TContractsBroadcasted "txid list"
  | TNotEnoughMakersInOfferBook
  | TWallet wallet_error
  | TNet net_error
  | TSendAmountNotSet
  | TDeserialize string
  | TMPSC string
  | TTorError tor_error
  | TAddressParseError
  | TGeneral string
  | TWatcher watcher_error
  | TPanic

text \<open>The breach detector is the taker's only interrupt source.\<close>

definition breach_or_wallet_error :: "wallet_error \<Rightarrow> taker_error" where
  "breach_or_wallet_error e = (case e of WInterrupted _ \<Rightarrow> TContractsBroadcasted [] | _ \<Rightarrow> TWallet e)"

end
