(* ===== verification/F64.thy ===== *)
theory F64
  imports Complex_Main "HOL-Library.Log_Nat" Prelude
begin

text \<open>
  Rust's \<open>f64\<close> as far as the fee code uses it. A finite double is its exact rational value;
  every arithmetic operation is the exact operation followed by \<open>fl\<close>, the IEEE 754
  rounding to the nearest value with a 53-bit significand, ties to even. The fee code works
  on values far from the ends of the exponent range, so subnormals, overflow and the
  non-finite values are not represented. \<open>u64 as f64\<close> is \<open>fl\<close> of the integer and
  \<open>f64 as u64\<close> saturates.
\<close>

type_synonym f64 = rat

section \<open>Definitions\<close>

definition rne :: "rat \<Rightarrow> int" where
  "rne x = (let f = \<lfloor>x\<rfloor>; r = x - of_int f in
     if r < 1 / 2 then f else if 1 / 2 < r then f + 1 else if even f then f else f + 1)"

definition bin_exp :: "rat \<Rightarrow> int" where
  "bin_exp x = (case quotient_of x of (n, d) \<Rightarrow>
     let e = bitlen n - bitlen d in if 2 powi e \<le> x then e else e - 1)"

definition fl_pos :: "rat \<Rightarrow> rat" where
  "fl_pos x = (let q = 2 powi (bin_exp x - 52) in of_int (rne (x / q)) * q)"

definition fl :: "rat \<Rightarrow> rat" where
  "fl x = (if x = 0 then 0 else if 0 < x then fl_pos x else - fl_pos (- x))"

definition f64_add :: "f64 \<Rightarrow> f64 \<Rightarrow> f64" where
  "f64_add a b = fl (a + b)"

definition f64_sub :: "f64 \<Rightarrow> f64 \<Rightarrow> f64" where
  "f64_sub a b = fl (a - b)"

definition f64_mul :: "f64 \<Rightarrow> f64 \<Rightarrow> f64" where
  "f64_mul a b = fl (a * b)"

definition f64_div :: "f64 \<Rightarrow> f64 \<Rightarrow> f64" where
  "f64_div a b = fl (a / b)"

definition f64_of_nat :: "nat \<Rightarrow> f64" where
  "f64_of_nat n = fl (of_nat n)"

text \<open>\<open>f64::ceil\<close> is exact; the cast to \<open>u64\<close> saturates at both ends.\<close>

definition f64_ceil_u64 :: "f64 \<Rightarrow> nat" where
  "f64_ceil_u64 x = min (nat \<lceil>x\<rceil>) (uint_max 64)"

definition f64_u64 :: "f64 \<Rightarrow> nat" where
  "f64_u64 x = min (nat \<lfloor>x\<rfloor>) (uint_max 64)"

section \<open>Rounding to an integer\<close>

lemma rne_bounds: "x - 1 / 2 \<le> of_int (rne x)" "of_int (rne x) \<le> x + 1 / 2"
  unfolding rne_def Let_def by (linarith | simp split: if_splits; linarith)+

lemma rne_of_int [simp]: "rne (of_int n) = n"
  by (simp add: rne_def)

lemma rne_mono: assumes "x \<le> y" shows "rne x \<le> rne y"
proof (cases "\<lfloor>x\<rfloor> = \<lfloor>y\<rfloor>")
  case True
  then show ?thesis using assms by (auto simp: rne_def Let_def)
next
  case False
  then have "\<lfloor>x\<rfloor> + 1 \<le> \<lfloor>y\<rfloor>"
    using floor_mono [OF assms] by linarith
  moreover have "rne x \<le> \<lfloor>x\<rfloor> + 1" and "\<lfloor>y\<rfloor> \<le> rne y"
    by (auto simp: rne_def Let_def)
  ultimately show ?thesis by linarith
qed

lemma rne_le_int: "x \<le> of_int n \<Longrightarrow> rne x \<le> n"
  using rne_mono [of x "of_int n"] by simp

lemma rne_ge_int: "of_int n \<le> x \<Longrightarrow> n \<le> rne x"
  using rne_mono [of "of_int n" x] by simp

section \<open>The binary exponent\<close>

lemma powi_bitlen: "2 powi (bitlen n - 1) \<le> (of_int n :: rat)" "(of_int n :: rat) < 2 powi bitlen n"
  if "0 < n" for n
proof -
  have b: "2 ^ nat (bitlen n - 1) \<le> n" "n < 2 ^ nat (bitlen n)"
    using bitlen_bounds [OF that] by auto
  have pos: "1 \<le> bitlen n"
    using that bitlen_nonneg [of n] bitlen_eq_zero_iff [of n] by linarith
  have "(of_int (2 ^ nat (bitlen n - 1)) :: rat) \<le> of_int n"
    using b(1) by (simp only: of_int_le_iff)
  then show "2 powi (bitlen n - 1) \<le> (of_int n :: rat)"
    using pos by (simp add: power_int_def)
  have "(of_int n :: rat) < of_int (2 ^ nat (bitlen n))"
    using b(2) by (simp only: of_int_less_iff)
  then show "(of_int n :: rat) < 2 powi bitlen n"
    using pos by (simp add: power_int_def)
qed

lemma powi_succ: "(2::rat) powi (e + 1) = 2 * 2 powi e"
  by (simp add: power_int_add)

lemma bin_exp_bounds:
  assumes "0 < x"
  shows "2 powi bin_exp x \<le> x" and "x < 2 powi (bin_exp x + 1)"
proof -
  obtain n d where q: "quotient_of x = (n, d)" by force
  have d: "0 < d" by (rule quotient_of_denom_pos [OF q])
  have x: "x = of_int n / of_int d" by (rule quotient_of_div [OF q])
  have n: "0 < n"
    using assms x d by (simp add: zero_less_divide_iff)
  let ?e = "bitlen n - bitlen d"
  have "x < 2 powi bitlen n / 2 powi (bitlen d - 1)"
    unfolding x using powi_bitlen [OF n] powi_bitlen [OF d] d n
    by (intro frac_less) auto
  also have "\<dots> = 2 powi (?e + 1)"
    by (simp add: power_int_diff [symmetric] algebra_simps)
  finally have up: "x < 2 powi (?e + 1)" .
  have "2 powi (bitlen n - 1) / 2 powi bitlen d < x"
    unfolding x using powi_bitlen [OF n] powi_bitlen [OF d] d n
    by (intro frac_less2) auto
  moreover have "2 powi (bitlen n - 1) / 2 powi bitlen d = (2::rat) powi (?e - 1)"
    by (simp add: power_int_diff [symmetric] algebra_simps)
  ultimately have lo: "2 powi (?e - 1) < x" by simp
  show "2 powi bin_exp x \<le> x"
    using lo by (simp add: bin_exp_def q Let_def)
  show "x < 2 powi (bin_exp x + 1)"
    using up by (simp add: bin_exp_def q Let_def)
qed

lemma bin_exp_less_imp: "2 powi a \<le> (x::rat) \<Longrightarrow> x < 2 powi (b + 1) \<Longrightarrow> a \<le> b"
proof (rule ccontr)
  assume a: "2 powi a \<le> x" "x < 2 powi (b + 1)" "\<not> a \<le> b"
  then have "(2::rat) powi (b + 1) \<le> 2 powi a"
    by (intro power_int_increasing) auto
  with a show False by linarith
qed

lemma bin_exp_mono: "0 < x \<Longrightarrow> x \<le> y \<Longrightarrow> bin_exp x \<le> bin_exp y"
  by (rule bin_exp_less_imp [of _ x]) (use bin_exp_bounds [of x] bin_exp_bounds [of y] in auto)

lemma bin_exp_unique:
  assumes "2 powi e \<le> x" "x < 2 powi (e + 1)"
  shows "bin_exp x = e"
proof -
  have "(0::rat) < 2 powi e" by simp
  then have "0 < x" using assms(1) by linarith
  from bin_exp_bounds [OF this] show ?thesis
    using assms bin_exp_less_imp [of e x "bin_exp x"] bin_exp_less_imp [of "bin_exp x" x e] by auto
qed

section \<open>Rounding to a double\<close>

lemma scaled_bounds:
  assumes "0 < x"
  defines "q \<equiv> 2 powi (bin_exp x - 52)"
  shows "2 ^ 52 \<le> x / q" and "x / q < 2 ^ 53" and "0 < q"
proof -
  show q: "0 < q" by (simp add: q_def)
  have "2 powi bin_exp x = 2 ^ 52 * q" "2 powi (bin_exp x + 1) = 2 ^ 53 * q"
    by (simp_all add: q_def power_int_diff power_int_add)
  then show "2 ^ 52 \<le> x / q" and "x / q < 2 ^ 53"
    using bin_exp_bounds [OF assms(1)] q by (simp_all add: field_simps)
qed

lemma fl_pos_range:
  assumes "0 < x"
  shows "2 powi bin_exp x \<le> fl_pos x" and "fl_pos x \<le> 2 powi (bin_exp x + 1)"
proof -
  let ?q = "(2::rat) powi (bin_exp x - 52)"
  have r: "2 ^ 52 \<le> rne (x / ?q)" "rne (x / ?q) \<le> 2 ^ 53"
    using scaled_bounds [OF assms] by (auto intro!: rne_ge_int rne_le_int)
  have "(of_int (2 ^ 52) :: rat) \<le> of_int (rne (x / ?q))"
    "of_int (rne (x / ?q)) \<le> (of_int (2 ^ 53) :: rat)"
    using r by (simp_all only: of_int_le_iff)
  then have "2 ^ 52 * ?q \<le> fl_pos x" and "fl_pos x \<le> 2 ^ 53 * ?q"
    unfolding fl_pos_def Let_def by (intro mult_right_mono; simp)+
  moreover have "2 ^ 52 * ?q = 2 powi bin_exp x" "2 ^ 53 * ?q = 2 powi (bin_exp x + 1)"
    by (simp_all add: power_int_diff power_int_add)
  ultimately show "2 powi bin_exp x \<le> fl_pos x" and "fl_pos x \<le> 2 powi (bin_exp x + 1)"
    by simp_all
qed

lemma fl_pos_mono:
  assumes "0 < x" "x \<le> y"
  shows "fl_pos x \<le> fl_pos y"
proof (cases "bin_exp x = bin_exp y")
  case True
  have "x / 2 powi (bin_exp y - 52) \<le> y / 2 powi (bin_exp y - 52)"
    using assms(2) by (intro divide_right_mono) auto
  then have "rne (x / 2 powi (bin_exp y - 52)) \<le> rne (y / 2 powi (bin_exp y - 52))"
    by (rule rne_mono)
  then show ?thesis
    unfolding fl_pos_def Let_def True by (intro mult_right_mono) auto
next
  case False
  then have "bin_exp x + 1 \<le> bin_exp y"
    using bin_exp_mono [OF assms] by linarith
  then have "(2::rat) powi (bin_exp x + 1) \<le> 2 powi bin_exp y"
    by (intro power_int_increasing) auto
  then show ?thesis
    using fl_pos_range(2) [OF assms(1)] fl_pos_range(1) [of y] assms by linarith
qed

lemma fl_pos_pos: "0 < x \<Longrightarrow> 0 < fl_pos x"
  using fl_pos_range(1) [of x] zero_less_power_int [of "2::rat" "bin_exp x"] by linarith

lemma fl_zero [simp]: "fl 0 = 0"
  by (simp add: fl_def)

lemma fl_nonneg: "0 \<le> x \<Longrightarrow> 0 \<le> fl x"
  using fl_pos_pos [of x] by (auto simp: fl_def)

lemma fl_mono: assumes "x \<le> y" shows "fl x \<le> fl y"
proof (cases "0 < x")
  case True
  then show ?thesis using assms fl_pos_mono [of x y] by (simp add: fl_def)
next
  case nx: False
  show ?thesis
  proof (cases "0 \<le> y")
    case True
    have "fl x \<le> 0" using nx fl_pos_pos [of "- x"] by (auto simp: fl_def)
    then show ?thesis using fl_nonneg [OF True] by linarith
  next
    case False
    then show ?thesis using nx assms fl_pos_mono [of "- y" "- x"] by (auto simp: fl_def)
  qed
qed

text \<open>Integers up to \<open>2^53\<close> are doubles: converting them loses nothing.\<close>

lemma fl_of_nat: assumes "n < 2 ^ 53" shows "fl (of_nat n) = of_nat n"
proof (cases "n = 0")
  case False
  let ?x = "of_nat n :: rat" and ?e = "bin_exp (of_nat n)"
  have x: "0 < ?x" using False by simp
  have "?x < 2 powi 53"
    using assms by (simp add: power_int_def)
  then have "?e \<le> 52"
    using bin_exp_less_imp [of ?e ?x 52] bin_exp_bounds(1) [OF x] by simp
  then have q: "(2::rat) powi (?e - 52) = 1 / 2 ^ nat (52 - ?e)"
    by (simp add: power_int_def inverse_eq_divide power_one_over)
  have "?x / 2 powi (?e - 52) = of_int (int n * 2 ^ nat (52 - ?e))"
    by (simp add: q)
  then have "fl_pos ?x = of_int (int n * 2 ^ nat (52 - ?e)) * (1 / 2 ^ nat (52 - ?e))"
    unfolding fl_pos_def Let_def by (simp only: rne_of_int q)
  then show ?thesis using x by (simp add: fl_def)
qed simp

section \<open>Monotonicity of the operations\<close>

lemma f64_add_mono: "a \<le> a' \<Longrightarrow> b \<le> b' \<Longrightarrow> f64_add a b \<le> f64_add a' b'"
  by (simp add: f64_add_def fl_mono add_mono)

lemma f64_mul_mono: "a \<le> a' \<Longrightarrow> b \<le> b' \<Longrightarrow> 0 \<le> a \<Longrightarrow> 0 \<le> b \<Longrightarrow> f64_mul a b \<le> f64_mul a' b'"
  by (simp add: f64_mul_def fl_mono mult_mono)

lemma f64_div_mono: "a \<le> a' \<Longrightarrow> 0 < c \<Longrightarrow> f64_div a c \<le> f64_div a' c"
  by (simp add: f64_div_def fl_mono divide_right_mono)

lemma f64_of_nat_mono: "m \<le> n \<Longrightarrow> f64_of_nat m \<le> f64_of_nat n"
  by (simp add: f64_of_nat_def fl_mono)

lemma f64_nonneg [simp]:
  "0 \<le> a \<Longrightarrow> 0 \<le> b \<Longrightarrow> 0 \<le> f64_add a b"
  "0 \<le> a \<Longrightarrow> 0 \<le> b \<Longrightarrow> 0 \<le> f64_mul a b"
  "0 \<le> a \<Longrightarrow> 0 \<le> b \<Longrightarrow> 0 \<le> f64_div a b"
  "0 \<le> f64_of_nat n"
  by (simp_all add: f64_add_def f64_mul_def f64_div_def f64_of_nat_def fl_nonneg)

lemma f64_ceil_u64_mono: "x \<le> y \<Longrightarrow> f64_ceil_u64 x \<le> f64_ceil_u64 y"
  unfolding f64_ceil_u64_def by (intro min.mono nat_mono ceiling_mono order_refl)

lemma f64_ceil_u64_bound: "f64_ceil_u64 x \<le> uint_max 64"
  by (simp add: f64_ceil_u64_def)

lemma f64_ceil_u64_of_nat: "n < 2 ^ 53 \<Longrightarrow> of_nat n \<le> x \<Longrightarrow> n \<le> f64_ceil_u64 x"
proof -
  assume n: "n < 2 ^ 53" "of_nat n \<le> x"
  then have "int n \<le> \<lceil>x\<rceil>"
    by (metis ceiling_mono ceiling_of_nat)
  then show ?thesis
    using n(1) by (simp add: f64_ceil_u64_def)
qed

text \<open>Adding a non-negative double to an integer below \<open>2^53\<close> never rounds below it.\<close>

lemma f64_add_ge_nat: "n < 2 ^ 53 \<Longrightarrow> of_nat n \<le> a \<Longrightarrow> 0 \<le> b \<Longrightarrow> of_nat n \<le> f64_add a b"
  using fl_mono [of "of_nat n" "a + b"] by (simp add: f64_add_def fl_of_nat)


section \<open>Rounding errors\<close>

definition roundoff :: rat where "roundoff = 1 / 2 ^ 53"

lemma roundoff_bounds: "0 < roundoff" "roundoff < 1"
  by (simp_all add: roundoff_def)

text \<open>\<open>near k x y\<close>: the double \<open>y\<close> approximates the non-negative \<open>x\<close> after at most \<open>k\<close> roundings.\<close>

definition near :: "nat \<Rightarrow> rat \<Rightarrow> rat \<Rightarrow> bool" where
  "near k x y \<longleftrightarrow> 0 \<le> x \<and> x * (1 - roundoff) ^ k \<le> y \<and> y \<le> x * (1 + roundoff) ^ k"

lemma fl_pos_error:
  assumes "0 < x"
  shows "x * (1 - roundoff) \<le> fl_pos x" "fl_pos x \<le> x * (1 + roundoff)"
proof -
  define q :: rat where "q = 2 powi (bin_exp x - 52)"
  have q: "0 < q" "2 ^ 52 * q \<le> x"
    using scaled_bounds [OF assms] by (simp_all add: q_def field_simps)
  have f: "fl_pos x = of_int (rne (x / q)) * q" by (simp add: fl_pos_def q_def Let_def)
  have "(x / q - 1 / 2) * q \<le> fl_pos x" "fl_pos x \<le> (x / q + 1 / 2) * q"
    unfolding f using rne_bounds [of "x / q"] q by (intro mult_right_mono; simp)+
  then show "x * (1 - roundoff) \<le> fl_pos x" "fl_pos x \<le> x * (1 + roundoff)"
    using q by (simp_all add: algebra_simps roundoff_def)
qed

lemma near_self: "0 \<le> x \<Longrightarrow> near 0 x x"
  by (simp add: near_def)

lemma near_nonneg: assumes "near k x y" shows "0 \<le> y"
proof -
  have "0 \<le> x * (1 - roundoff) ^ k" using assms roundoff_bounds by (simp add: near_def)
  also have "\<dots> \<le> y" using assms by (simp add: near_def)
  finally show ?thesis .
qed

lemma near_fl: assumes "near k x y" shows "near (Suc k) x (fl y)"
proof (cases "y = 0")
  case True
  have "0 < (1 - roundoff) ^ k" using roundoff_bounds by simp
  then have "x = 0" using assms True by (auto simp: near_def mult_le_0_iff)
  then show ?thesis using True by (simp add: near_def)
next
  case False
  then have y: "0 < y" using near_nonneg [OF assms] by simp
  have "x * (1 - roundoff) ^ k * (1 - roundoff) \<le> y * (1 - roundoff)"
    "y * (1 + roundoff) \<le> x * (1 + roundoff) ^ k * (1 + roundoff)"
    using assms roundoff_bounds by (intro mult_right_mono; simp add: near_def)+
  then have "x * (1 - roundoff) ^ Suc k \<le> fl y" "fl y \<le> x * (1 + roundoff) ^ Suc k"
    using fl_pos_error [OF y] y by (simp_all add: fl_def mult.assoc mult.commute [of "1 - roundoff"] mult.commute [of "1 + roundoff"])
  then show ?thesis using assms by (simp add: near_def)
qed

lemma near_Suc: assumes "near k x y" shows "near (Suc k) x y"
proof -
  have "x * (1 - roundoff) ^ Suc k \<le> x * (1 - roundoff) ^ k" "x * (1 + roundoff) ^ k \<le> x * (1 + roundoff) ^ Suc k"
    using assms roundoff_bounds by (intro mult_left_mono power_decreasing power_increasing; simp add: near_def)+
  then show ?thesis using assms by (auto simp only: near_def)
qed

lemma near_add: "near k x y \<Longrightarrow> near k x' y' \<Longrightarrow> near k (x + x') (y + y')"
  by (simp add: near_def ring_distribs)

lemma near_mult: assumes "near k x y" "0 \<le> c" shows "near k (x * c) (y * c)"
proof -
  have "x * (1 - roundoff) ^ k * c \<le> y * c" "y * c \<le> x * (1 + roundoff) ^ k * c"
    using assms by (intro mult_right_mono; simp add: near_def)+
  then show ?thesis using assms by (simp add: near_def mult.assoc mult.commute [of _ c])
qed

lemma near_4:
  assumes "near 4 x y"
  shows "x - 4 * x / 2 ^ 53 \<le> y" "y \<le> x + 5 * x / 2 ^ 53"
proof -
  have "(1 - 4 / 2 ^ 53 :: rat) \<le> (1 - roundoff) ^ 4" "(1 + roundoff) ^ 4 \<le> (1 + 5 / 2 ^ 53 :: rat)"
    by (simp_all add: roundoff_def power4_eq_xxxx)
  then have "x * (1 - 4 / 2 ^ 53) \<le> x * (1 - roundoff) ^ 4" "x * (1 + roundoff) ^ 4 \<le> x * (1 + 5 / 2 ^ 53)"
    using assms by (intro mult_left_mono; simp add: near_def)+
  then show "x - 4 * x / 2 ^ 53 \<le> y" "y \<le> x + 5 * x / 2 ^ 53"
    using assms by (simp_all add: near_def algebra_simps)
qed

end
