(* ===== verification/Messages.thy ===== *)
theory Messages
  imports Errors F64
begin

text \<open>
  The wire messages of the protocol (\<open>protocol/common_messages.rs\<close>,
  \<open>legacy_messages.rs\<close>, \<open>taproot_messages.rs\<close>) as records and datatypes, with the
  fidelity bond of \<open>wallet/fidelity.rs\<close> that an offer carries. Serialization is the
  \<open>serde_cbor\<close> crate's and is not modelled.
\<close>

type_synonym preimage = bytes
type_synonym swap_id = string

section \<open>Common messages\<close>

record fidelity_bond =
  fb_outpoint :: outpoint
  fb_amount :: amount
  fb_lock_time :: nat
  fb_pubkey :: public_key
  fb_conf_height :: "nat option"
  fb_is_spent :: bool
  fb_bond_index :: nat
  fb_tx :: "transaction option"

record fidelity_proof =
  fp_bond :: fidelity_bond
  fp_cert_hash :: bytes
  fp_cert_sig :: bytes

datatype protocol_version = Legacy | Taproot

record maker_hello =
  mh_supported_protocols :: "protocol_version list"

record offer =
  of_base_fee :: nat
  of_amount_relative_fee_pct :: f64
  of_time_relative_fee_pct :: f64
  of_required_confirms :: nat
  of_minimum_locktime :: nat
  of_max_size :: nat
  of_min_size :: nat
  of_tweakable_point :: public_key
  of_fidelity :: fidelity_proof
  of_tweak_chain_code :: bytes

record swap_details =
  sd_id :: swap_id
  sd_protocol_version :: protocol_version
  sd_amount :: amount
  sd_tx_count :: nat
  sd_timelock :: nat
  sd_refund_locktime_offset :: nat

record ack_swap_details =
  ack_tweakable_point :: "public_key option"

definition ack_accept :: "public_key \<Rightarrow> ack_swap_details" where
  "ack_accept p = \<lparr>ack_tweakable_point = Some p\<rparr>"

definition ack_reject :: ack_swap_details where
  "ack_reject = \<lparr>ack_tweakable_point = None\<rparr>"

record swap_privkey =
  sp_identifier :: script
  sp_key :: seckey

record private_key_handover =
  ph_id :: swap_id
  ph_privkeys :: "swap_privkey list"

section \<open>Legacy messages\<close>

record contract_tx_info_for_sender =
  cis_multisig_nonce :: seckey
  cis_hashlock_nonce :: seckey
  cis_timelock_pubkey :: public_key
  cis_senders_contract_tx :: transaction
  cis_multisig_redeemscript :: script
  cis_funding_input_value :: amount

record req_contract_sigs_for_sender =
  rcs_id :: swap_id
  rcs_txs_info :: "contract_tx_info_for_sender list"
  rcs_hashvalue :: bytes
  rcs_locktime :: nat

record resp_contract_sigs_for_sender =
  rsps_id :: swap_id
  rsps_sigs :: "ecdsa_sig list"

record funding_tx_info =
  fti_funding_tx :: transaction
  fti_multisig_redeemscript :: script
  fti_multisig_nonce :: seckey
  fti_contract_redeemscript :: script
  fti_hashlock_nonce :: seckey

record next_hop_info =
  nhi_next_multisig_pubkey :: public_key
  nhi_next_hashlock_pubkey :: public_key
  nhi_next_multisig_nonce :: seckey
  nhi_next_hashlock_nonce :: seckey

record proof_of_funding =
  pof_id :: swap_id
  pof_confirmed_funding_txes :: "funding_tx_info list"
  pof_next_openswap_info :: "next_hop_info list"
  pof_refund_locktime :: nat
  pof_contract_feerate :: f64

record sender_contract_tx_info =
  sct_funding_tx :: transaction
  sct_contract_tx :: transaction
  sct_timelock_pubkey :: public_key
  sct_multisig_redeemscript :: script
  sct_contract_redeemscript :: script
  sct_funding_amount :: amount
  sct_multisig_nonce :: seckey
  sct_hashlock_nonce :: seckey

record req_contract_sigs_as_recvr_and_sender =
  rrs_receivers_contract_txs :: "transaction list"
  rrs_senders_contract_txs_info :: "sender_contract_tx_info list"

record resp_contract_sigs_for_recvr_and_sender =
  rsr_id :: swap_id
  rsr_receivers_sigs :: "ecdsa_sig list"
  rsr_senders_sigs :: "ecdsa_sig list"

record contract_tx_info_for_recvr =
  cir_multisig_redeemscript :: script
  cir_contract_tx :: transaction

record req_contract_sigs_for_recvr =
  rcr_id :: swap_id
  rcr_txs :: "contract_tx_info_for_recvr list"

record resp_contract_sigs_for_recvr =
  rspr_id :: swap_id
  rspr_sigs :: "ecdsa_sig list"

datatype legacy_taker_message =
    LReqContractSigsForSender req_contract_sigs_for_sender
  | LProofOfFunding proof_of_funding
  | LRespContractSigsForRecvrAndSender resp_contract_sigs_for_recvr_and_sender
  | LReqContractSigsForRecvr req_contract_sigs_for_recvr
  | LPrivateKeyHandover private_key_handover

definition legacy_swap_id :: "legacy_taker_message \<Rightarrow> swap_id" where
  "legacy_swap_id m = (case m of
     LReqContractSigsForSender req \<Rightarrow> rcs_id req
   | LProofOfFunding pof \<Rightarrow> pof_id pof
   | LRespContractSigsForRecvrAndSender resp \<Rightarrow> rsr_id resp
   | LReqContractSigsForRecvr req \<Rightarrow> rcr_id req
   | LPrivateKeyHandover handover \<Rightarrow> ph_id handover)"

section \<open>Taproot messages\<close>

record taproot_contract_data =
  tcd_id :: swap_id
  tcd_pubkeys :: "public_key list"
  tcd_next_hop_point :: public_key
  tcd_internal_keys :: "xonly list"
  tcd_tap_tweaks :: "bytes list"
  tcd_hashlock_script :: script
  tcd_timelock_scripts :: "script list"
  tcd_contract_txs :: "transaction list"
  tcd_amounts :: "amount list"
  tcd_hashlock_nonce :: "seckey option"
  tcd_next_hashlock_nonce :: "seckey option"

text \<open>\<open>TryFrom<SerializableScalar> for Scalar\<close> and its use at an index.\<close>

definition scalar_try_from :: "btc \<Rightarrow> bytes \<Rightarrow> protocol_error + bytes" where
  "scalar_try_from B d =
     (if length d \<noteq> 32 then Inl (PGeneral ''invalid scalar length'')
      else if \<not> b_scalar_ok B d then Inl (PGeneral ''invalid scalar value: out of range'')
      else Inr d)"

definition tap_tweak_scalar :: "btc \<Rightarrow> taproot_contract_data \<Rightarrow> nat \<Rightarrow> protocol_error + bytes" where
  "tap_tweak_scalar B d i =
     res_bind (ok_or (nth_opt (tcd_tap_tweaks d) i) PPanic) (scalar_try_from B)"

datatype taproot_taker_message =
    TContractData taproot_contract_data
  | TPrivateKeyHandover private_key_handover

definition taproot_swap_id :: "taproot_taker_message \<Rightarrow> swap_id" where
  "taproot_swap_id m = (case m of
     TContractData data \<Rightarrow> tcd_id data | TPrivateKeyHandover handover \<Rightarrow> ph_id handover)"

section \<open>Top-level messages\<close>

datatype taker_to_maker_message =
    TmTakerHello
  | TmGetOffer
  | TmSwapDetails swap_details
  | TmReqContractSigsForSender req_contract_sigs_for_sender
  | TmProofOfFunding proof_of_funding
  | TmRespContractSigsForRecvrAndSender resp_contract_sigs_for_recvr_and_sender
  | TmReqContractSigsForRecvr req_contract_sigs_for_recvr
  | TmLegacyPrivateKeyHandover private_key_handover
  | TmTaprootContractData taproot_contract_data
  | TmTaprootPrivateKeyHandover private_key_handover
  | TmWaitingFundingConfirmation swap_id

datatype maker_to_taker_message =
    MtMakerHello maker_hello
  | MtOffer offer
  | MtAckSwapDetails ack_swap_details
  | MtRespContractSigsForSender resp_contract_sigs_for_sender
  | MtReqContractSigsAsRecvrAndSender req_contract_sigs_as_recvr_and_sender
  | MtRespContractSigsForRecvr resp_contract_sigs_for_recvr
  | MtLegacyPrivateKeyHandover private_key_handover
  | MtTaprootContractData taproot_contract_data
  | MtTaprootPrivateKeyHandover private_key_handover

end
