(* ===== verification/Contract.thy ===== *)
theory Contract
  imports Messages
begin

text \<open>
  Contracts: \<open>protocol/contract.rs\<close> (the legacy 2-of-2 multisig and HTLC scripts, contract
  transactions, fee formula), \<open>protocol/contract2.rs\<close> (the taproot hashlock and timelock
  leaves) and the helpers of \<open>utill.rs\<close> and \<open>protocol/musig2.rs\<close> they call. The lemmas give
  the round trips between the script builders and the script readers, what a successful
  check says of the script or transaction it was given, and the bounds of the amount and
  fee arithmetic.
\<close>

section \<open>Fee helpers\<close>

definition MIN_FEE_RATE :: nat where
  "MIN_FEE_RATE = 2"

definition get_min_fee_rate :: "btc \<Rightarrow> nat option" where
  "get_min_fee_rate B = b_from_sat_per_vb B MIN_FEE_RATE"

text \<open>\<open>None\<close> is the panic of the two \<open>expect\<close> calls.\<close>

definition calculate_fee_sats :: "btc \<Rightarrow> nat \<Rightarrow> nat option" where
  "calculate_fee_sats B vbytes = (case get_min_fee_rate B of
     None \<Rightarrow> None | Some fee_rate \<Rightarrow> b_fee_vb B fee_rate vbytes)"

definition estimate_funding_tx_fee_sats :: "btc \<Rightarrow> nat option" where
  "estimate_funding_tx_fee_sats B = calculate_fee_sats B ((11 + 68 + 31 + 43) + (11 + 68 + 43))"

definition redeemscript_to_scriptpubkey :: "btc \<Rightarrow> script \<Rightarrow> protocol_error + script" where
  "redeemscript_to_scriptpubkey B redeemscript =
     ok_or (b_witness_program B 0 (b_wscript_hash B redeemscript)) PScriptPubkey"

definition calculate_swap_fee :: "nat \<Rightarrow> nat \<Rightarrow> nat \<Rightarrow> f64 \<Rightarrow> f64 \<Rightarrow> nat" where
  "calculate_swap_fee swap_amount refund_locktime base_fee amt_rel_fee_pct time_rel_fee_pct =
     f64_ceil_u64 (f64_add
       (f64_add (f64_of_nat base_fee)
         (f64_div (f64_mul (f64_of_nat swap_amount) amt_rel_fee_pct) 100))
       (f64_div (f64_mul (f64_mul (f64_of_nat swap_amount) (f64_of_nat refund_locktime)) time_rel_fee_pct) 100))"

section \<open>Multisig\<close>

definition MIN_HASHV_LEN :: nat where "MIN_HASHV_LEN = 25"
definition PUBKEY_LENGTH :: nat where "PUBKEY_LENGTH = 33"
definition PUBKEY1_OFFSET :: nat where "PUBKEY1_OFFSET = 2"
definition PUBKEY2_OFFSET :: nat where "PUBKEY2_OFFSET = PUBKEY1_OFFSET + PUBKEY_LENGTH + 1"

definition apply_two_signatures_to_2of2_multisig_spend ::
    "btc \<Rightarrow> public_key \<Rightarrow> public_key \<Rightarrow> ecdsa_sig \<Rightarrow> ecdsa_sig \<Rightarrow> txin \<Rightarrow> script \<Rightarrow> txin" where
  "apply_two_signatures_to_2of2_multisig_spend B key1 key2 sig1 sig2 inp redeemscript =
     (let (sig_first, sig_second) = (if pk_inner key1 < pk_inner key2 then (sig1, sig2) else (sig2, sig1))
      in inp\<lparr>ti_witness := ti_witness inp @ [[], sig_to_vec B sig_first, sig_to_vec B sig_second, redeemscript]\<rparr>)"

definition create_multisig_redeemscript :: "btc \<Rightarrow> public_key \<Rightarrow> public_key \<Rightarrow> script" where
  "create_multisig_redeemscript B key1 key2 =
     [0x52] @
     (if pk_inner key1 < pk_inner key2 then b_push_key B key1 @ b_push_key B key2
      else b_push_key B key2 @ b_push_key B key1) @
     [0x52, 0xae]"

definition calculate_pubkey_from_nonce :: "btc \<Rightarrow> public_key \<Rightarrow> seckey \<Rightarrow> protocol_error + public_key" where
  "calculate_pubkey_from_nonce B tweakable_point nonce =
     res_bind (ok_or (b_combine B (pk_inner tweakable_point) (b_pubkey_of B nonce)) PSecp)
       (\<lambda>p. Inr (compressed_key p))"

text \<open>\<open>nonce_bytes\<close> are the 32 bytes the operating system's generator returns.\<close>

definition derive_maker_pubkey_and_nonce ::
    "btc \<Rightarrow> bytes \<Rightarrow> public_key \<Rightarrow> protocol_error + (public_key \<times> seckey)" where
  "derive_maker_pubkey_and_nonce B nonce_bytes tweakable_point =
     res_bind (ok_or (b_seckey_from_slice B nonce_bytes) PSecp) (\<lambda>nonce.
     res_bind (calculate_pubkey_from_nonce B tweakable_point nonce) (\<lambda>maker_pubkey.
     Inr (maker_pubkey, nonce)))"

definition pub_placeholder :: bytes where
  "pub_placeholder = replicate 33 2"

definition check_reedemscript_is_multisig :: "btc \<Rightarrow> script \<Rightarrow> protocol_error + unit" where
  "check_reedemscript_is_multisig B redeemscript =
     res_bind (ok_or (b_pubkey_from_slice B pub_placeholder) PKey) (\<lambda>placeholder.
     let template = create_multisig_redeemscript B placeholder placeholder in
     if length redeemscript \<noteq> length template then Inl (PGeneral ''Wrong multisig_redeemscript length'')
     else
     res_bind (ok_or (splice_opt 2 35 pub_placeholder redeemscript) PPanic) (\<lambda>b1.
     res_bind (ok_or (splice_opt 36 69 pub_placeholder b1) PPanic) (\<lambda>b2.
     if b2 \<noteq> template then Inl (PGeneral ''Redeemscript not matching multisig template'')
     else Inr ())))"

definition read_pubkeys_from_multisig_redeemscript ::
    "btc \<Rightarrow> script \<Rightarrow> protocol_error + (public_key \<times> public_key)" where
  "read_pubkeys_from_multisig_redeemscript B ms_rs_bytes =
     res_bind (ok_or (slice_opt PUBKEY1_OFFSET (PUBKEY1_OFFSET + PUBKEY_LENGTH) ms_rs_bytes) PPanic) (\<lambda>s1.
     res_bind (ok_or (b_pubkey_from_slice B s1) PKey) (\<lambda>pubkey1.
     res_bind (ok_or (slice_opt PUBKEY2_OFFSET (PUBKEY2_OFFSET + PUBKEY_LENGTH) ms_rs_bytes) PPanic) (\<lambda>s2.
     res_bind (ok_or (b_pubkey_from_slice B s2) PKey) (\<lambda>pubkey2.
     Inr (pubkey1, pubkey2)))))"

definition check_multisig_has_pubkey ::
    "btc \<Rightarrow> script \<Rightarrow> public_key \<Rightarrow> seckey \<Rightarrow> protocol_error + unit" where
  "check_multisig_has_pubkey B redeemscript tweakable_point nonce =
     res_bind (read_pubkeys_from_multisig_redeemscript B redeemscript) (\<lambda>(pubkey1, pubkey2).
     res_bind (calculate_pubkey_from_nonce B tweakable_point nonce) (\<lambda>my_pubkey.
     if pubkey1 \<noteq> my_pubkey \<and> pubkey2 \<noteq> my_pubkey
     then Inl (PGeneral ''Wrong pubkeys in multisig_redeemscript'')
     else Inr ()))"

section \<open>The HTLC script\<close>

definition create_contract_redeemscript ::
    "btc \<Rightarrow> public_key \<Rightarrow> public_key \<Rightarrow> bytes \<Rightarrow> nat \<Rightarrow> script" where
  "create_contract_redeemscript B pub_hashlock pub_timelock hashvalue locktime =
     [0x82, 0x7c, 0xa9] @ b_push_slice B hashvalue @ [0x87, 0x63] @
       b_push_key B pub_hashlock @ b_push_int B 32 @ b_push_int B 0 @
     [0x67] @
       b_push_key B pub_timelock @ b_push_int B 0 @ b_push_int B locktime @
     [0x68, 0xb2, 0x75, 0x7b, 0x88, 0xac]"

text \<open>The next item of an instruction iterator, with both of the source's question marks.\<close>

definition instr_at :: "instr option list \<Rightarrow> nat \<Rightarrow> protocol_error + instr" where
  "instr_at is i = res_bind (ok_or (nth_opt is i) (PGeneral ''contract redeemscript too short''))
     (\<lambda>r. ok_or r PScript)"

definition read_hashvalue_from_contract :: "btc \<Rightarrow> script \<Rightarrow> protocol_error + bytes" where
  "read_hashvalue_from_contract B redeemscript =
     (if length redeemscript < MIN_HASHV_LEN then Inl (PGeneral ''Contract redeemscript too short!'')
      else let instrs = b_instructions B redeemscript in
      res_bind (instr_at instrs 2) (\<lambda>i2.
      if i2 \<noteq> Op 0xa9 then Inl (PGeneral ''Hash is not present!'')
      else res_bind (instr_at instrs 3) (\<lambda>i3. case i3 of
        Op _ \<Rightarrow> Inl (PGeneral ''Invalid script!'')
      | PushBytes hash_b \<Rightarrow> if length hash_b = 20 then Inr hash_b else Inl PHash)))"

definition read_contract_locktime :: "btc \<Rightarrow> script \<Rightarrow> protocol_error + nat" where
  "read_contract_locktime B redeemscript =
     (let bad = Inl (PGeneral ''Can't read locktime value from contract redeemscript'') in
      res_bind (instr_at (b_instructions B redeemscript) 12) (\<lambda>i. case i of
        PushBytes locktime_bytes \<Rightarrow>
          (case locktime_bytes of
             [b0] \<Rightarrow> Inr (unat b0)
           | [b0, b1] \<Rightarrow> Inr (unat b0 + 256 * unat b1)
           | [b0, b1, b2] \<Rightarrow> if b2 \<noteq> 0 then bad else Inr (unat b0 + 256 * unat b1)
           | _ \<Rightarrow> bad)
      | Op opcode \<Rightarrow> if 81 \<le> unat opcode \<and> unat opcode \<le> 96 then Inr (unat opcode - 80) else bad))"

definition read_hashlock_pubkey_from_contract :: "btc \<Rightarrow> script \<Rightarrow> protocol_error + public_key" where
  "read_hashlock_pubkey_from_contract B redeemscript =
     (if length redeemscript < 61 then Inl (PGeneral ''Contract redeemscript too short'')
      else res_bind (ok_or (slice_opt 27 60 redeemscript) PPanic) (\<lambda>s.
        ok_or (b_pubkey_from_slice B s) PKey))"

definition check_hashlock_has_pubkey ::
    "btc \<Rightarrow> script \<Rightarrow> public_key \<Rightarrow> seckey \<Rightarrow> protocol_error + unit" where
  "check_hashlock_has_pubkey B contract_redeemscript tweakable_point nonce =
     res_bind (read_hashlock_pubkey_from_contract B contract_redeemscript) (\<lambda>contract_hashlock_pubkey.
     res_bind (calculate_pubkey_from_nonce B tweakable_point nonce) (\<lambda>derived_hashlock_pubkey.
     if contract_hashlock_pubkey \<noteq> derived_hashlock_pubkey
     then Inl (PGeneral ''Contract hashlock pubkey doesn't match with key derived from nonce'')
     else Inr ()))"

text \<open>The two helpers below are compiled for the unit tests.\<close>

definition find_funding_output_index :: "btc \<Rightarrow> funding_tx_info \<Rightarrow> protocol_error + nat" where
  "find_funding_output_index B info =
     res_bind (redeemscript_to_scriptpubkey B (fti_multisig_redeemscript info)) (\<lambda>multisig_spk.
     let i = length (takeWhile (\<lambda>out. to_spk out \<noteq> multisig_spk) (tx_output (fti_funding_tx info))) in
     if i < length (tx_output (fti_funding_tx info)) then Inr i
     else Inl (PGeneral ''Funding output doesn't match with multisig redeem script''))"

definition check_hashvalues_are_equal :: "btc \<Rightarrow> proof_of_funding \<Rightarrow> protocol_error + bytes" where
  "check_hashvalues_are_equal B message =
     res_bind (res_map (\<lambda>info. read_hashvalue_from_contract B (fti_contract_redeemscript info))
       (pof_confirmed_funding_txes message)) (\<lambda>hashvalues.
     case hashvalues of
       [] \<Rightarrow> Inl PPanic
     | h # hs \<Rightarrow> if list_all (\<lambda>v. v = h) hashvalues then Inr h
         else Inl (PGeneral ''Contract redeemscript doesn't have equal hashvalues''))"

section \<open>Contract transactions\<close>

definition CONTRACT_TX_VSIZE :: nat where
  "CONTRACT_TX_VSIZE = 150"

definition create_senders_contract_tx :: "btc \<Rightarrow> outpoint \<Rightarrow> amount \<Rightarrow> script \<Rightarrow> protocol_error + transaction" where
  "create_senders_contract_tx B inp input_value contract_redeemscript =
     res_bind (ok_or (calculate_fee_sats B CONTRACT_TX_VSIZE) PPanic) (\<lambda>fee_amount.
     res_bind (redeemscript_to_scriptpubkey B contract_redeemscript) (\<lambda>spk.
     res_bind (ok_or (checked_sub input_value fee_amount) PPanic) (\<lambda>v.
     Inr \<lparr>tx_version = 2, tx_lock_time = 0,
       tx_input = [\<lparr>ti_prev = inp, ti_sequence = 0, ti_witness = [], ti_script_sig = []\<rparr>],
       tx_output = [\<lparr>to_value = v, to_spk = spk\<rparr>]\<rparr>)))"

definition create_receivers_contract_tx :: "btc \<Rightarrow> outpoint \<Rightarrow> amount \<Rightarrow> script \<Rightarrow> protocol_error + transaction" where
  "create_receivers_contract_tx B inp input_value contract_redeemscript =
     create_senders_contract_tx B inp input_value contract_redeemscript"

definition is_contract_out_valid ::
    "btc \<Rightarrow> txout \<Rightarrow> public_key \<Rightarrow> public_key \<Rightarrow> bytes \<Rightarrow> nat \<Rightarrow> nat \<Rightarrow> protocol_error + unit" where
  "is_contract_out_valid B contract_output hashlock_pubkey timelock_pubkey hashvalue locktime minimum_locktime =
     (if minimum_locktime > locktime then Inl (PGeneral ''Locktime too short'')
      else res_bind (redeemscript_to_scriptpubkey B
          (create_contract_redeemscript B hashlock_pubkey timelock_pubkey hashvalue locktime)) (\<lambda>spk.
        if to_spk contract_output \<noteq> spk
        then Inl (PGeneral ''Given transaction does not pay to requested contract'')
        else Inr ()))"

definition validate_contract_tx :: "btc \<Rightarrow> transaction \<Rightarrow> outpoint option \<Rightarrow> script \<Rightarrow> protocol_error + unit" where
  "validate_contract_tx B tx funding_outpoint contract_redeemscript =
     (case (tx_input tx, tx_output tx) of
        ([i], [out]) \<Rightarrow>
          if (case funding_outpoint of None \<Rightarrow> False | Some op \<Rightarrow> ti_prev i \<noteq> op)
          then Inl (PGeneral ''Not spending the funding outpoint'')
          else res_bind (redeemscript_to_scriptpubkey B contract_redeemscript) (\<lambda>spk.
            if to_spk out \<noteq> spk then Inl (PGeneral ''Doesn't pay to requested contract'') else Inr ())
      | _ \<Rightarrow> Inl (PGeneral ''Invalid number of inputs or outputs''))"

definition sign_contract_tx :: "btc \<Rightarrow> transaction \<Rightarrow> script \<Rightarrow> amount \<Rightarrow> seckey \<Rightarrow> protocol_error + ecdsa_sig" where
  "sign_contract_tx B contract_tx multisig_redeemscript funding_amount privkey =
     res_bind (ok_or (b_p2wsh_sighash B contract_tx 0 multisig_redeemscript funding_amount) PSighash)
       (\<lambda>sighash. Inr \<lparr>sig_inner = b_sign B sighash privkey, sig_type = 1\<rparr>)"

definition verify_contract_tx_sig ::
    "btc \<Rightarrow> transaction \<Rightarrow> script \<Rightarrow> amount \<Rightarrow> public_key \<Rightarrow> bytes \<Rightarrow> protocol_error + unit" where
  "verify_contract_tx_sig B contract_tx multisig_redeemscript funding_amount pubkey sig =
     res_bind (ok_or (b_p2wsh_sighash B contract_tx 0 multisig_redeemscript funding_amount) PSighash)
       (\<lambda>sighash. ensure (b_verify B sighash sig (pk_inner pubkey)) PSecp)"

text \<open>The error is the offending amount.\<close>

definition sum_claimed_amounts :: "amount list \<Rightarrow> amount + amount" where
  "sum_claimed_amounts amounts = res_fold (\<lambda>total amount.
     if amount > max_money then Inl amount
     else case checked_add 64 total amount of
       Some t \<Rightarrow> if t \<le> max_money then Inr t else Inl amount
     | None \<Rightarrow> Inl amount) 0 amounts"

section \<open>Taproot leaves\<close>

definition create_hashlock_script :: "btc \<Rightarrow> bytes \<Rightarrow> xonly \<Rightarrow> script" where
  "create_hashlock_script B hash pubkey =
     [0xa8] @ b_push_slice B hash @ [0x88] @ b_push_slice B pubkey @ [0xac]"

definition extract_hash_from_hashlock :: "btc \<Rightarrow> script \<Rightarrow> protocol_error + bytes" where
  "extract_hash_from_hashlock B script =
     (let instructions = b_instructions B script in
      if length instructions < 5 then Inl (PGeneral ''Invalid hashlock script format'')
      else case nth_opt instructions 1 of
        Some (Some (PushBytes hash_bytes)) \<Rightarrow>
          if length hash_bytes = 32 then Inr hash_bytes
          else Inl (PGeneral ''Failed to extract hash from hashlock script'')
      | _ \<Rightarrow> Inl (PGeneral ''Failed to extract hash from hashlock script''))"

definition check_taproot_hashlock_has_pubkey ::
    "btc \<Rightarrow> script \<Rightarrow> public_key \<Rightarrow> seckey \<Rightarrow> protocol_error + unit" where
  "check_taproot_hashlock_has_pubkey B hashlock_script tweakable_point nonce =
     res_bind (calculate_pubkey_from_nonce B tweakable_point nonce) (\<lambda>expected.
     let expected_xonly = b_xonly B (pk_inner expected);
         mismatch = Inl (PGeneral ''Taproot hashlock pubkey doesn't match nonce-derived key'') in
     case nth_opt (b_instructions B hashlock_script) 3 of
       Some (Some (PushBytes pk_bytes)) \<Rightarrow>
         (case b_xonly_from_slice B pk_bytes of
            Some script_xonly \<Rightarrow> if script_xonly = expected_xonly then Inr () else mismatch
          | None \<Rightarrow> mismatch)
     | _ \<Rightarrow> mismatch)"

definition create_timelock_script :: "btc \<Rightarrow> nat \<Rightarrow> xonly \<Rightarrow> script" where
  "create_timelock_script B locktime pubkey =
     b_push_lock_time B locktime @ [0xb1, 0x75] @ b_push_slice B pubkey @ [0xac]"

text \<open>The spend info is kept as its tap tweak.\<close>

definition create_taproot_script :: "btc \<Rightarrow> script \<Rightarrow> script \<Rightarrow> xonly \<Rightarrow> protocol_error + (script \<times> bytes)" where
  "create_taproot_script B hashlock_script timelock_script internal_pubkey =
     res_bind (ok_or (b_taproot B hashlock_script timelock_script internal_pubkey) PTaprootBuilder)
       (\<lambda>(merkle_root, tap_tweak). Inr (b_p2tr B internal_pubkey merkle_root, tap_tweak))"

definition calculate_contract_sighash ::
    "btc \<Rightarrow> transaction \<Rightarrow> amount \<Rightarrow> script \<Rightarrow> script \<Rightarrow> xonly \<Rightarrow> protocol_error + bytes" where
  "calculate_contract_sighash B spending_tx contract_amount hashlock_script timelock_script internal_key =
     res_bind (create_taproot_script B hashlock_script timelock_script internal_key) (\<lambda>(contract_script, _).
     ok_or (b_taproot_sighash B spending_tx 0 [\<lparr>to_value = contract_amount, to_spk = contract_script\<rparr>])
       PTaprootSighash)"

definition get_aggregated_pubkey :: "btc \<Rightarrow> point \<Rightarrow> point \<Rightarrow> xonly" where
  "get_aggregated_pubkey B pubkey1 pubkey2 =
     b_musig_agg B (if pubkey2 < pubkey1 then [pubkey2, pubkey1] else [pubkey1, pubkey2])"

definition get_aggregated_pubkey_compat :: "btc \<Rightarrow> point \<Rightarrow> point \<Rightarrow> protocol_error + xonly" where
  "get_aggregated_pubkey_compat B pubkey1 pubkey2 =
     res_bind (ok_or (b_pubkey_from_slice B pubkey1) PTaprootSecp) (\<lambda>p1.
     res_bind (ok_or (b_pubkey_from_slice B pubkey2) PTaprootSecp) (\<lambda>p2.
     ok_or (b_xonly_from_slice B (get_aggregated_pubkey B (pk_inner p1) (pk_inner p2))) PSecp))"

section \<open>Script round trips\<close>

text \<open>A compressed key the library parses back: what every key the protocol exchanges is.\<close>

definition good_key :: "btc \<Rightarrow> public_key \<Rightarrow> bool" where
  "good_key B k \<longleftrightarrow> pk_compressed k \<and> length (pk_inner k) = 33 \<and> b_pubkey_from_slice B (pk_inner k) = Some k"

lemma good_key_push: "script_lib B \<Longrightarrow> good_key B k \<Longrightarrow> b_push_key B k = 33 # pk_inner k"
  by (simp add: b_push_key_def pk_to_bytes_def good_key_def script_lib.push_slice_short)

lemma good_key_instr: "script_lib B \<Longrightarrow> good_key B k \<Longrightarrow>
    b_instructions B (b_push_key B k @ s) = Some (PushBytes (pk_inner k)) # b_instructions B s"
  by (simp add: b_push_key_def pk_to_bytes_def good_key_def script_lib.instructions_push_slice)

lemma placeholder_template:
  assumes "script_lib B" "good_key B (compressed_key pub_placeholder)"
  shows "create_multisig_redeemscript B (compressed_key pub_placeholder) (compressed_key pub_placeholder)
    = [0x52, 33] @ pub_placeholder @ [33] @ pub_placeholder @ [0x52, 0xae]"
  using good_key_push [OF assms] by (simp add: create_multisig_redeemscript_def)

lemma multisig_shape:
  assumes "script_lib B" "good_key B k1" "good_key B k2"
  shows "create_multisig_redeemscript B k1 k2 =
    (let (a, b) = (if pk_inner k1 < pk_inner k2 then (k1, k2) else (k2, k1)) in
     [0x52, 33] @ pk_inner a @ [33] @ pk_inner b @ [0x52, 0xae])"
  using good_key_push [OF assms(1,2)] good_key_push [OF assms(1,3)]
  by (simp add: create_multisig_redeemscript_def)

lemma multisig_sym:
  assumes "good_key B k1" "good_key B k2"
  shows "create_multisig_redeemscript B k1 k2 = create_multisig_redeemscript B k2 k1"
proof (cases "pk_inner k1 = pk_inner k2")
  case True
  then have "k1 = k2" using assms by (auto simp: good_key_def)
  then show ?thesis by simp
next
  case False
  then show ?thesis by (auto simp: create_multisig_redeemscript_def)
qed

text \<open>The template test accepts exactly the scripts of the two-key shape.\<close>

lemma splice_append: "length xs = a \<Longrightarrow> length ys = b - a \<Longrightarrow> a \<le> b \<Longrightarrow>
    splice_opt a b ys' (xs @ ys @ zs) = Some (xs @ ys' @ zs)"
  by (simp add: splice_opt_def)

lemma split_length:
  assumes "n \<le> length xs"
  obtains ys zs where "xs = ys @ zs" "length ys = n"
  using assms append_take_drop_id [of n xs] by (metis length_take min.absorb2)

lemma split_71:
  fixes rs :: bytes
  assumes "length rs = 71"
  obtains x a y b z where "rs = x @ a @ y @ b @ z"
    "length x = 2" "length a = 33" "length y = 1" "length b = 33" "length z = 2"
proof -
  obtain x r1 where 1: "rs = x @ r1" "length x = 2"
    using assms by (auto intro: split_length [of 2 rs])
  obtain a r2 where 2: "r1 = a @ r2" "length a = 33"
    using assms 1 by (auto intro: split_length [of 33 r1])
  obtain y r3 where 3: "r2 = y @ r3" "length y = 1"
    using assms 1 2 by (auto intro: split_length [of 1 r2])
  obtain b z where 4: "r3 = b @ z" "length b = 33"
    using assms 1 2 3 by (auto intro: split_length [of 33 r3])
  show thesis
    by (rule that [of x a y b z]) (use assms 1 2 3 4 in auto)
qed

lemma check_multisig_iff:
  assumes B: "script_lib B" and ph: "good_key B (compressed_key pub_placeholder)"
  shows "check_reedemscript_is_multisig B rs = Inr () \<longleftrightarrow>
    (\<exists>a b. length a = 33 \<and> length b = 33 \<and> rs = [0x52, 33] @ a @ [33] @ b @ [0x52, 0xae])"
    (is "?L \<longleftrightarrow> ?R")
proof -
  have f: "b_pubkey_from_slice B pub_placeholder = Some (compressed_key pub_placeholder)"
    using ph by (simp add: good_key_def)
  have lp: "length pub_placeholder = 33" by (simp add: pub_placeholder_def)
  note t = placeholder_template [OF B ph]
  have key: "?L \<longleftrightarrow> (x = [0x52, 33] \<and> y = [33] \<and> z = [0x52, 0xae])"
    if "rs = x @ a @ y @ b @ z" "length x = 2" "length a = 33" "length y = 1" "length b = 33" "length z = 2"
    for x a y b z
  proof -
    have s1: "splice_opt 2 35 pub_placeholder rs = Some (x @ pub_placeholder @ y @ b @ z)"
      using that splice_append [of x 2 a 35 pub_placeholder "y @ b @ z"] by simp
    have s2: "splice_opt 36 69 pub_placeholder (x @ pub_placeholder @ y @ b @ z)
        = Some (x @ pub_placeholder @ y @ pub_placeholder @ z)"
      using that lp splice_append [of "x @ pub_placeholder @ y" 36 b 69 pub_placeholder z] by simp
    have e: "x @ pub_placeholder @ y @ pub_placeholder @ z
          = [0x52, 33] @ pub_placeholder @ [33] @ pub_placeholder @ [0x52, 0xae]
        \<longleftrightarrow> x = [0x52, 33] \<and> y = [33] \<and> z = [0x52, 0xae]"
      using that by (auto simp: length_Suc_conv numeral_2_eq_2)
    have "length rs = 71" using that by simp
    then show ?thesis
      using lp e by (simp add: check_reedemscript_is_multisig_def f t s1 s2 Let_def)
  qed
  show ?thesis
  proof
    assume ?L
    then have "length rs = 71"
      using f lp by (simp add: check_reedemscript_is_multisig_def t Let_def split: if_splits)
    then obtain x a y b z where s: "rs = x @ a @ y @ b @ z"
      "length x = 2" "length a = 33" "length y = 1" "length b = 33" "length z = 2"
      by (rule split_71)
    then show ?R using key [OF s] \<open>?L\<close> by auto
  next
    assume ?R
    then obtain a b where "length a = 33" "length b = 33" "rs = [0x52, 33] @ a @ [33] @ b @ [0x52, 0xae]"
      by blast
    then show ?L using key [of "[0x52, 33]" a "[33]" b "[0x52, 0xae]"] by simp
  qed
qed

lemma read_pubkeys_shape:
  assumes "length a = 33" "length b = 33"
  shows "read_pubkeys_from_multisig_redeemscript B ([0x52, 33] @ a @ [33] @ b @ [0x52, 0xae]) =
    res_bind (ok_or (b_pubkey_from_slice B a) PKey) (\<lambda>p.
    res_bind (ok_or (b_pubkey_from_slice B b) PKey) (\<lambda>q. Inr (p, q)))"
proof -
  let ?rs = "[0x52, 33] @ a @ [33] @ b @ [0x52, 0xae]"
  have "slice_opt 2 35 ?rs = Some a"
    using assms slice_opt_append [of a 35 2 "[0x52, 33]" "[33] @ b @ [0x52, 0xae]"] by simp
  moreover have "slice_opt 36 69 ?rs = Some b"
    using assms slice_opt_append [of b 69 36 "[0x52, 33] @ a @ [33]" "[0x52, 0xae]"] by simp
  ultimately show ?thesis
    by (simp add: read_pubkeys_from_multisig_redeemscript_def PUBKEY1_OFFSET_def PUBKEY2_OFFSET_def
        PUBKEY_LENGTH_def)
qed

lemma read_pubkeys_created:
  assumes "script_lib B" "good_key B k1" "good_key B k2"
  shows "read_pubkeys_from_multisig_redeemscript B (create_multisig_redeemscript B k1 k2)
    = Inr (if pk_inner k1 < pk_inner k2 then (k1, k2) else (k2, k1))"
proof -
  have l: "length (pk_inner k1) = 33" "length (pk_inner k2) = 33"
    "b_pubkey_from_slice B (pk_inner k1) = Some k1" "b_pubkey_from_slice B (pk_inner k2) = Some k2"
    using assms(2,3) by (auto simp: good_key_def)
  show ?thesis
    unfolding multisig_shape [OF assms]
    using l read_pubkeys_shape [of "pk_inner k1" "pk_inner k2" B] read_pubkeys_shape [of "pk_inner k2" "pk_inner k1" B]
    by simp
qed

lemma contract_instructions:
  assumes B: "script_lib B" and k: "good_key B hk" "good_key B tk"
    and h: "length h = 20" and lt: "lt < 65536"
  shows "b_instructions B (create_contract_redeemscript B hk tk h lt) =
    map Some [Op 0x82, Op 0x7c, Op 0xa9, PushBytes h, Op 0x87, Op 0x63,
      PushBytes (pk_inner hk), int_instr 32, int_instr 0, Op 0x67,
      PushBytes (pk_inner tk), int_instr 0, int_instr lt,
      Op 0x68, Op 0xb2, Op 0x75, Op 0x7b, Op 0x88, Op 0xac]"
  using lt h unfolding create_contract_redeemscript_def
  by (simp add: good_key_instr [OF B] k script_lib.instructions_op [OF B] script_lib.instructions_nil [OF B]
      script_lib.instructions_push_slice [OF B] script_lib.instructions_push_int [OF B])

lemma contract_prefix:
  assumes B: "script_lib B" and k: "good_key B hk" and h: "length h = 20"
  obtains tail where "create_contract_redeemscript B hk tk h lt =
    ([0x82, 0x7c, 0xa9, 20] @ h @ [0x87, 0x63, 33]) @ pk_inner hk @ tail" and "tail \<noteq> []"
  using good_key_push [OF B k] h script_lib.push_slice_short [OF B, of h]
  by (simp add: create_contract_redeemscript_def)

lemma locktime_instr:
  assumes "0 < lt" "lt < 65536"
  shows "(case int_instr lt of
        PushBytes bs \<Rightarrow> (case bs of [b0] \<Rightarrow> Inr (unat b0) | [b0, b1] \<Rightarrow> Inr (unat b0 + 256 * unat b1)
          | [b0, b1, b2] \<Rightarrow> if b2 \<noteq> 0 then e else Inr (unat b0 + 256 * unat b1) | _ \<Rightarrow> e)
      | Op opcode \<Rightarrow> if 81 \<le> unat opcode \<and> unat opcode \<le> 96 then Inr (unat opcode - 80) else e) = Inr lt"
proof (cases "lt \<le> 16")
  case True
  then have "unat (80 + of_nat lt :: byte) = 80 + lt" using unat_byte [of "80 + lt"] by simp
  then show ?thesis using True assms by (simp add: int_instr_def)
next
  case False
  moreover have "lt div 256 < 256" using assms by simp
  ultimately show ?thesis
    using assms by (simp add: int_instr_def script_num_u16 unat_byte)
qed

lemma read_locktime_created:
  assumes "script_lib B" "good_key B hk" "good_key B tk" "length h = 20" "0 < lt" "lt < 65536"
  shows "read_contract_locktime B (create_contract_redeemscript B hk tk h lt) = Inr lt"
  using locktime_instr [OF assms(5,6)]
  by (simp add: read_contract_locktime_def contract_instructions [OF assms(1-4,6)] instr_at_def nth_opt_def Let_def)

lemma read_hashvalue_created:
  assumes "script_lib B" "good_key B hk" "good_key B tk" "length h = 20" "lt < 65536"
  shows "read_hashvalue_from_contract B (create_contract_redeemscript B hk tk h lt) = Inr h"
proof -
  obtain tail where "create_contract_redeemscript B hk tk h lt =
    ([0x82, 0x7c, 0xa9, 20] @ h @ [0x87, 0x63, 33]) @ pk_inner hk @ tail"
    by (rule contract_prefix [OF assms(1,2,4)])
  then have "\<not> length (create_contract_redeemscript B hk tk h lt) < MIN_HASHV_LEN"
    using assms(4) by (simp add: MIN_HASHV_LEN_def)
  then show ?thesis
    using assms(4)
    by (simp add: read_hashvalue_from_contract_def contract_instructions [OF assms] instr_at_def nth_opt_def Let_def)
qed

lemma read_hashlock_pubkey_created:
  assumes "script_lib B" "good_key B hk" "length h = 20"
  shows "read_hashlock_pubkey_from_contract B (create_contract_redeemscript B hk tk h lt) = Inr hk"
proof -
  obtain tail where t: "create_contract_redeemscript B hk tk h lt =
    ([0x82, 0x7c, 0xa9, 20] @ h @ [0x87, 0x63, 33]) @ pk_inner hk @ tail" "tail \<noteq> []"
    by (rule contract_prefix [OF assms])
  have l: "length (pk_inner hk) = 33" "b_pubkey_from_slice B (pk_inner hk) = Some hk"
    using assms(2) by (auto simp: good_key_def)
  have "slice_opt 27 60 (([0x82, 0x7c, 0xa9, 20] @ h @ [0x87, 0x63, 33]) @ pk_inner hk @ tail) = Some (pk_inner hk)"
    using l assms(3) by (intro slice_opt_append) auto
  then show ?thesis
    using t l assms(3) by (simp add: read_hashlock_pubkey_from_contract_def)
qed

lemma read_locktime_zero:
  assumes "script_lib B" "good_key B hk" "good_key B tk" "length h = 20"
  shows "read_contract_locktime B (create_contract_redeemscript B hk tk h 0) =
    Inl (PGeneral ''Can't read locktime value from contract redeemscript'')"
  by (simp add: read_contract_locktime_def contract_instructions [OF assms] instr_at_def nth_opt_def
      int_instr_def Let_def)

section \<open>Contract transactions and amounts\<close>

lemma sum_claimed_fold:
  assumes "t \<le> max_money"
  shows "res_fold (\<lambda>total amount. if amount > max_money then Inl amount
     else case checked_add 64 total amount of
       Some t \<Rightarrow> if t \<le> max_money then Inr t else Inl amount | None \<Rightarrow> Inl amount) t xs = Inr r
   \<longleftrightarrow> t + sum_list xs \<le> max_money \<and> r = t + sum_list xs"
  using assms
proof (induction xs arbitrary: t)
  case (Cons x xs)
  show ?case
  proof (cases "t + x \<le> max_money")
    case True
    then have "checked_add 64 t x = Some (t + x)" "\<not> x > max_money"
      by (simp_all add: checked_add_def max_money_def)
    then show ?thesis using Cons.IH [OF True] True by (simp add: ac_simps)
  next
    case False
    then show ?thesis
      by (auto simp: checked_add_def)
  qed
qed auto

lemma sum_claimed_Inr_iff:
  "sum_claimed_amounts xs = Inr r \<longleftrightarrow> sum_list xs \<le> max_money \<and> r = sum_list xs"
  unfolding sum_claimed_amounts_def using sum_claimed_fold [of 0 xs r] by simp

lemma create_contract_tx_Inr_iff:
  "create_senders_contract_tx B inp v rs = Inr tx \<longleftrightarrow>
    (\<exists>fee spk. calculate_fee_sats B CONTRACT_TX_VSIZE = Some fee \<and>
      redeemscript_to_scriptpubkey B rs = Inr spk \<and> fee \<le> v \<and>
      tx = \<lparr>tx_version = 2, tx_lock_time = 0,
       tx_input = [\<lparr>ti_prev = inp, ti_sequence = 0, ti_witness = [], ti_script_sig = []\<rparr>],
       tx_output = [\<lparr>to_value = v - fee, to_spk = spk\<rparr>]\<rparr>)"
  by (auto simp: create_senders_contract_tx_def res_simps checked_sub_Some_iff)

lemma validate_contract_tx_iff:
  "validate_contract_tx B tx (Some op) rs = Inr () \<longleftrightarrow>
    (\<exists>i out. tx_input tx = [i] \<and> tx_output tx = [out] \<and> ti_prev i = op \<and>
      redeemscript_to_scriptpubkey B rs = Inr (to_spk out))"
  by (auto simp: validate_contract_tx_def res_simps split: list.splits if_splits)

lemma validate_contract_tx_None_iff:
  "validate_contract_tx B tx None rs = Inr () \<longleftrightarrow>
    (\<exists>i out. tx_input tx = [i] \<and> tx_output tx = [out] \<and>
      redeemscript_to_scriptpubkey B rs = Inr (to_spk out))"
  by (auto simp: validate_contract_tx_def res_simps split: list.splits if_splits)

lemma is_contract_out_valid_iff:
  "is_contract_out_valid B out hk tk h lt mlt = Inr () \<longleftrightarrow>
    mlt \<le> lt \<and> redeemscript_to_scriptpubkey B (create_contract_redeemscript B hk tk h lt) = Inr (to_spk out)"
  by (auto simp: is_contract_out_valid_def res_simps)

lemma sign_verify_contract:
  assumes "key_lib B" "sign_contract_tx B tx rs v k = Inr sig" "pk_inner p = b_pubkey_of B k"
  shows "verify_contract_tx_sig B tx rs v p (sig_inner sig) = Inr ()"
  using assms by (auto simp: sign_contract_tx_def verify_contract_tx_sig_def res_simps key_lib.sign_verify)

lemma taproot_hashlock_instructions:
  assumes "script_lib B" "length h = 32" "length p = 32"
  shows "b_instructions B (create_hashlock_script B h p) =
    map Some [Op 0xa8, PushBytes h, Op 0x88, PushBytes p, Op 0xac]"
  using assms
  by (simp add: create_hashlock_script_def script_lib.instructions_op script_lib.instructions_nil
      script_lib.instructions_push_slice)

lemma swap_fee_mono:
  assumes "a \<le> a'" "t \<le> t'" "b \<le> b'" "0 \<le> p" "0 \<le> q"
  shows "calculate_swap_fee a t b p q \<le> calculate_swap_fee a' t' b' p q"
  unfolding calculate_swap_fee_def
  by (intro f64_ceil_u64_mono f64_add_mono f64_div_mono f64_mul_mono f64_of_nat_mono f64_nonneg order_refl assms)
    auto

lemma swap_fee_ge_base:
  assumes "b < 2 ^ 53" "0 \<le> p" "0 \<le> q"
  shows "b \<le> calculate_swap_fee a t b p q"
  unfolding calculate_swap_fee_def
  using assms by (intro f64_ceil_u64_of_nat f64_add_ge_nat) (simp_all add: f64_of_nat_def fl_of_nat fl_nonneg f64_nonneg)

section \<open>Properties\<close>

lemma sample_good_key: "length k = 32 \<Longrightarrow> good_key sample_lib (compressed_key (2 # k))"
  by (simp add: good_key_def sample_from_slice_def compressed_key_def)

lemma sample_placeholder: "good_key sample_lib (compressed_key pub_placeholder)"
  using sample_good_key [of "replicate 32 2"] by (simp add: pub_placeholder_def numeral_eq_Suc)

text \<open>
  The 2-of-2 redeem script built from two compressed keys does not depend on the order the
  keys are given in, passes the multisig template check, and reads back as the two keys in
  lexicographic order.
\<close>

lemma multisig_roundtrip:
  assumes "script_lib B" "good_key B k1" "good_key B k2"
    and "good_key B (compressed_key pub_placeholder)"
  shows "create_multisig_redeemscript B k1 k2 = create_multisig_redeemscript B k2 k1
    \<and> check_reedemscript_is_multisig B (create_multisig_redeemscript B k1 k2) = Inr ()
    \<and> read_pubkeys_from_multisig_redeemscript B (create_multisig_redeemscript B k1 k2)
        = Inr (if pk_inner k1 < pk_inner k2 then (k1, k2) else (k2, k1))"
proof (intro conjI)
  show "create_multisig_redeemscript B k1 k2 = create_multisig_redeemscript B k2 k1"
    by (rule multisig_sym [OF assms(2,3)])
  show "check_reedemscript_is_multisig B (create_multisig_redeemscript B k1 k2) = Inr ()"
    unfolding check_multisig_iff [OF assms(1,4)] multisig_shape [OF assms(1-3)]
    using assms(2,3) by (auto simp: good_key_def)
qed (rule read_pubkeys_created [OF assms(1-3)])

lemma multisig_roundtrip_witness:
  "read_pubkeys_from_multisig_redeemscript sample_lib
     (create_multisig_redeemscript sample_lib (compressed_key (2 # replicate 32 9)) (compressed_key (2 # replicate 32 7)))
   = Inr (compressed_key (2 # replicate 32 7), compressed_key (2 # replicate 32 9))"
proof -
  have "\<not> (2::byte) # replicate 32 9 < 2 # replicate 32 7" by code_simp
  then show ?thesis
    using multisig_roundtrip [OF sample_script.script_lib_axioms sample_good_key sample_good_key sample_placeholder,
        of "replicate 32 9" "replicate 32 7", THEN conjunct2, THEN conjunct2] by simp
qed

text \<open>
  A redeem script that passes the template check is two 33-byte keys between
  \<open>OP_2\<close> and \<open>OP_2 OP_CHECKMULTISIG\<close>, so reading the keys of a checked script never indexes out
  of range: it returns them or the key parser's error.
\<close>

lemma multisig_check_makes_read_safe:
  assumes "script_lib B" "good_key B (compressed_key pub_placeholder)"
    and "check_reedemscript_is_multisig B rs = Inr ()"
  shows "length rs = 71 \<and> read_pubkeys_from_multisig_redeemscript B rs \<noteq> Inl PPanic"
proof -
  obtain a b where "length a = 33" "length b = 33" "rs = [0x52, 33] @ a @ [33] @ b @ [0x52, 0xae]"
    using check_multisig_iff [OF assms(1,2)] assms(3) by blast
  then show ?thesis
    using read_pubkeys_shape [of a b B] by (auto simp: res_bind_def ok_or_def split: sum.splits option.splits)
qed

lemma multisig_check_makes_read_safe_witness:
  "read_pubkeys_from_multisig_redeemscript sample_lib
     ([0x52, 33] @ replicate 33 5 @ [33] @ replicate 33 5 @ [0x52, 0xae]) \<noteq> Inl PPanic"
proof -
  have "check_reedemscript_is_multisig sample_lib
      ([0x52, 33] @ replicate 33 5 @ [33] @ replicate 33 5 @ [0x52, 0xae]) = Inr ()"
    unfolding check_multisig_iff [OF sample_script.script_lib_axioms sample_placeholder]
    by (intro exI [of _ "replicate 33 5"]) simp
  then show ?thesis
    using multisig_check_makes_read_safe [OF sample_script.script_lib_axioms sample_placeholder] by blast
qed

text \<open>
  C38. The HTLC redeem script reads back: for a 20-byte hash and a locktime between 1 and 65535,
  the three readers return exactly the hash, the locktime and the hashlock key the script was
  built from. This covers every encoding of the locktime: the opcodes \<open>OP_1\<close> to \<open>OP_16\<close>
  and the 1-, 2- and 3-byte pushes.
\<close>

theorem htlc_script_roundtrip:
  assumes "script_lib B" "good_key B hk" "good_key B tk" "length h = 20" "0 < lt" "lt < 65536"
  shows "read_contract_locktime B (create_contract_redeemscript B hk tk h lt) = Inr lt
    \<and> read_hashvalue_from_contract B (create_contract_redeemscript B hk tk h lt) = Inr h
    \<and> read_hashlock_pubkey_from_contract B (create_contract_redeemscript B hk tk h lt) = Inr hk"
  using read_locktime_created [OF assms] read_hashvalue_created [OF assms(1-4,6)]
    read_hashlock_pubkey_created [OF assms(1,2,4)] by simp

theorem htlc_script_roundtrip_witness:
  "read_contract_locktime sample_lib
     (create_contract_redeemscript sample_lib (compressed_key (2 # replicate 32 1))
        (compressed_key (2 # replicate 32 2)) (replicate 20 3) 40000) = Inr 40000"
  using htlc_script_roundtrip [OF sample_script.script_lib_axioms sample_good_key sample_good_key,
      of "replicate 32 1" "replicate 32 2" "replicate 20 3" 40000] by simp

text \<open>
  A locktime of zero is the one value the reader cannot recover: \<open>push_int(0)\<close> is an empty push,
  which \<open>read_contract_locktime\<close> rejects.
\<close>

lemma htlc_locktime_zero_unreadable:
  assumes "script_lib B" "good_key B hk" "good_key B tk" "length h = 20"
  shows "read_contract_locktime B (create_contract_redeemscript B hk tk h 0) =
    Inl (PGeneral ''Can't read locktime value from contract redeemscript'')"
  by (rule read_locktime_zero [OF assms])

lemma htlc_locktime_zero_unreadable_witness:
  "\<not> is_ok (read_contract_locktime sample_lib
     (create_contract_redeemscript sample_lib (compressed_key (2 # replicate 32 1))
        (compressed_key (2 # replicate 32 2)) (replicate 20 3) 0))"
  using htlc_locktime_zero_unreadable [OF sample_script.script_lib_axioms sample_good_key sample_good_key,
      of "replicate 32 1" "replicate 32 2" "replicate 20 3"] by (simp add: is_ok_def)

text \<open>
  A contract transaction that \<open>create_senders_contract_tx\<close> returns passes
  \<open>validate_contract_tx\<close> for the outpoint and script it was made for, pays the funding value less
  the contract fee, and a signature made on it with a key verifies under that key's point. The
  function returns one exactly when the script has a witness program and the fee does not exceed the value.
\<close>

lemma contract_tx_valid:
  assumes "key_lib B" "create_senders_contract_tx B inp v rs = Inr tx"
  shows "validate_contract_tx B tx (Some inp) rs = Inr ()
    \<and> (\<exists>fee. calculate_fee_sats B CONTRACT_TX_VSIZE = Some fee \<and> sum_list (map to_value (tx_output tx)) + fee = v)
    \<and> (sign_contract_tx B tx ms v k = Inr sig \<longrightarrow>
         verify_contract_tx_sig B tx ms v (compressed_key (b_pubkey_of B k)) (sig_inner sig) = Inr ())"
proof (intro conjI impI)
  obtain fee spk where f: "calculate_fee_sats B CONTRACT_TX_VSIZE = Some fee"
    "redeemscript_to_scriptpubkey B rs = Inr spk" "fee \<le> v"
    and tx: "tx = \<lparr>tx_version = 2, tx_lock_time = 0,
       tx_input = [\<lparr>ti_prev = inp, ti_sequence = 0, ti_witness = [], ti_script_sig = []\<rparr>],
       tx_output = [\<lparr>to_value = v - fee, to_spk = spk\<rparr>]\<rparr>"
    using assms(2) unfolding create_contract_tx_Inr_iff by blast
  show "validate_contract_tx B tx (Some inp) rs = Inr ()"
    unfolding validate_contract_tx_iff using f tx by simp
  show "\<exists>fee. calculate_fee_sats B CONTRACT_TX_VSIZE = Some fee \<and> sum_list (map to_value (tx_output tx)) + fee = v"
    using f tx by simp
  show "verify_contract_tx_sig B tx ms v (compressed_key (b_pubkey_of B k)) (sig_inner sig) = Inr ()"
    if "sign_contract_tx B tx ms v k = Inr sig"
    using sign_verify_contract [OF assms(1) that] by simp
qed

lemma sample_create_contract_tx:
  "\<exists>tx. create_senders_contract_tx sample_lib inp 1000 rs = Inr tx"
  by (auto simp: create_contract_tx_Inr_iff redeemscript_to_scriptpubkey_def calculate_fee_sats_def
      get_min_fee_rate_def MIN_FEE_RATE_def CONTRACT_TX_VSIZE_def sample_lib_def fit_def)

lemma contract_tx_valid_witness:
  "\<exists>tx. create_senders_contract_tx sample_lib \<lparr>op_txid = [1], op_vout = 0\<rparr> 1000 [7] = Inr tx
     \<and> validate_contract_tx sample_lib tx (Some \<lparr>op_txid = [1], op_vout = 0\<rparr>) [7] = Inr ()"
  using sample_create_contract_tx [of "\<lparr>op_txid = [1], op_vout = 0\<rparr>" "[7]"]
    contract_tx_valid [OF sample_keys.key_lib_axioms] by blast

text \<open>
  \<open>sum_claimed_amounts\<close> accepts a list of claimed amounts exactly when its true sum is within
  the 21 million cap and then returns that sum: no wrap-around, no panic, whatever the peer claims.
\<close>

lemma sum_claimed_amounts_exact:
  "sum_claimed_amounts xs = (if sum_list xs \<le> max_money then Inr (sum_list xs)
     else Inl (projl (sum_claimed_amounts xs)))"
  using sum_claimed_Inr_iff [of xs] by (cases "sum_claimed_amounts xs") auto

text \<open>
  C40. With non-negative percentages the swap fee, computed in rounded double arithmetic, never
  falls when the amount, the locktime or the base fee grows, is at least the base fee (for base
  fees below \<open>2^53\<close>), and fits in 64 bits.
\<close>

theorem swap_fee_monotone:
  assumes "0 \<le> p" "0 \<le> q" "a \<le> a'" "t \<le> t'" "b \<le> b'" "b < 2 ^ 53"
  shows "calculate_swap_fee a t b p q \<le> calculate_swap_fee a' t' b' p q
    \<and> b \<le> calculate_swap_fee a t b p q \<and> calculate_swap_fee a t b p q \<le> uint_max 64"
  using swap_fee_mono [OF assms(3-5,1,2)] swap_fee_ge_base [OF assms(6,1,2)]
  by (simp add: calculate_swap_fee_def f64_ceil_u64_bound del: uint_max_values)

theorem swap_fee_monotone_witness:
  "100 \<le> calculate_swap_fee 500000 20 100 (1 / 10) (1 / 200)"
  using swap_fee_monotone [of "1 / 10" "1 / 200" 500000 500000 20 20 100 100] by simp

text \<open>
  The hash of a taproot hashlock leaf reads back, and the leaf built for the key derived from
  a tweakable point and a nonce passes the maker's check for that point and nonce.
\<close>

lemma taproot_hashlock_roundtrip:
  assumes "script_lib B" "length h = 32"
    and "calculate_pubkey_from_nonce B P n = Inr k"
    and "length (b_xonly B (pk_inner k)) = 32"
    and "b_xonly_from_slice B (b_xonly B (pk_inner k)) = Some (b_xonly B (pk_inner k))"
  shows "extract_hash_from_hashlock B (create_hashlock_script B h (b_xonly B (pk_inner k))) = Inr h
    \<and> check_taproot_hashlock_has_pubkey B (create_hashlock_script B h (b_xonly B (pk_inner k))) P n = Inr ()"
  using assms(2,3,5)
  by (simp add: extract_hash_from_hashlock_def check_taproot_hashlock_has_pubkey_def
      taproot_hashlock_instructions [OF assms(1,2,4)] nth_opt_def Let_def)

lemma taproot_hashlock_roundtrip_witness:
  "extract_hash_from_hashlock sample_lib (create_hashlock_script sample_lib (replicate 32 1) (replicate 32 6)) = Inr (replicate 32 1)"
proof -
  have c: "calculate_pubkey_from_nonce sample_lib (compressed_key (2 # replicate 32 5)) (replicate 32 3)
      = Inr (compressed_key (2 # replicate 32 6))"
    by (simp add: calculate_pubkey_from_nonce_def xor_bytes_def numeral_eq_Suc)
  show ?thesis
    using taproot_hashlock_roundtrip [OF sample_script.script_lib_axioms _ c, of "replicate 32 1"]
    by (simp add: sample_lib_def)
qed

end
