(* ===== verification/SwapCoin.thy ===== *)
theory SwapCoin
  imports Contract
begin

text \<open>
  Swap coins, \<open>wallet/swapcoin.rs\<close>: the incoming and outgoing contract coins of both protocols,
  their constructors and accessors, the spend through the cooperative and hashlock paths, the
  timelock recovery, and the MuSig2 wrappers of \<open>protocol/musig2.rs\<close> and
  \<open>musig_interface.rs\<close> they call. Session randomness is an argument.
\<close>

section \<open>MuSig2 wrappers\<close>

text \<open>\<open>secp::PublicKey::from_slice(&pk.serialize())?\<close>: the conversion between the two secp crates.\<close>

definition btc_pubkey_to_secp :: "btc \<Rightarrow> point \<Rightarrow> protocol_error + point" where
  "btc_pubkey_to_secp B p = res_bind (ok_or (b_pubkey_from_slice B p) PTaprootSecp) (\<lambda>k. Inr (pk_inner k))"

definition btc_scalar_to_secp :: "btc \<Rightarrow> bytes \<Rightarrow> protocol_error + bytes" where
  "btc_scalar_to_secp B d = (if b_scalar_ok B d then Inr d else Inl PScalarOutOfRange)"

definition generate_new_nonce_pair_compat :: "btc \<Rightarrow> bytes \<Rightarrow> point \<Rightarrow> protocol_error + (bytes \<times> bytes)" where
  "generate_new_nonce_pair_compat B rnd nonce_pubkey =
     res_bind (btc_pubkey_to_secp B nonce_pubkey) (\<lambda>p. Inr (t_nonce (b_tap B) rnd p))"

definition get_aggregated_nonce_compat :: "btc \<Rightarrow> bytes list \<Rightarrow> bytes" where
  "get_aggregated_nonce_compat B nonces = t_agg_nonce (b_tap B) nonces"

definition generate_partial_signature ::
    "btc \<Rightarrow> bytes \<Rightarrow> bytes \<Rightarrow> bytes \<Rightarrow> seckey \<Rightarrow> bytes \<Rightarrow> point list \<Rightarrow> protocol_error + bytes" where
  "generate_partial_signature B message agg_nonce sec_nonce keypair tap_tweak pubkeys =
     (if \<not> t_tweak_ok (b_tap B) pubkeys tap_tweak then Inl PMusigTweak
      else Inr (t_partial (b_tap B) message agg_nonce sec_nonce keypair tap_tweak pubkeys))"

definition aggregate_partial_signatures ::
    "btc \<Rightarrow> bytes \<Rightarrow> bytes \<Rightarrow> bytes \<Rightarrow> bytes list \<Rightarrow> point list \<Rightarrow> protocol_error + bytes" where
  "aggregate_partial_signatures B message agg_nonce tap_tweak partial_sigs pubkeys =
     (if \<not> t_tweak_ok (b_tap B) pubkeys tap_tweak then Inl PMusigTweak
      else Inr (t_sig_agg (b_tap B) message agg_nonce tap_tweak partial_sigs pubkeys))"

definition generate_partial_signature_compat ::
    "btc \<Rightarrow> bytes \<Rightarrow> bytes \<Rightarrow> bytes \<Rightarrow> seckey \<Rightarrow> bytes \<Rightarrow> point \<Rightarrow> point \<Rightarrow> protocol_error + bytes" where
  "generate_partial_signature_compat B message agg_nonce sec_nonce keypair tap_tweak pubkey1 pubkey2 =
     res_bind (btc_scalar_to_secp B tap_tweak) (\<lambda>tweak.
     res_bind (btc_pubkey_to_secp B pubkey1) (\<lambda>p1.
     res_bind (btc_pubkey_to_secp B pubkey2) (\<lambda>p2.
     res_bind (ok_or (b_seckey_from_slice B keypair) PTaprootSecp) (\<lambda>sk.
     generate_partial_signature B message agg_nonce sec_nonce sk tweak [p1, p2]))))"

definition aggregate_partial_signatures_compat ::
    "btc \<Rightarrow> bytes \<Rightarrow> bytes \<Rightarrow> bytes \<Rightarrow> bytes list \<Rightarrow> point \<Rightarrow> point \<Rightarrow> protocol_error + bytes" where
  "aggregate_partial_signatures_compat B message agg_nonce tap_tweak partial_sigs pubkey1 pubkey2 =
     res_bind (btc_scalar_to_secp B tap_tweak) (\<lambda>tweak.
     res_bind (btc_pubkey_to_secp B pubkey1) (\<lambda>p1.
     res_bind (btc_pubkey_to_secp B pubkey2) (\<lambda>p2.
     aggregate_partial_signatures B message agg_nonce tweak partial_sigs [p1, p2])))"

section \<open>Incoming swap coins\<close>

record payment_target =
  pt_script_pubkey :: script
  pt_amount :: amount

record incoming_swapcoin =
  inc_protocol :: protocol_version
  inc_my_privkey :: "seckey option"
  inc_my_pubkey :: "public_key option"
  inc_other_pubkey :: "public_key option"
  inc_other_privkey :: "seckey option"
  inc_contract_tx :: transaction
  inc_contract_txid :: "txid option"
  inc_hashlock_privkey :: seckey
  inc_funding_amount :: amount
  inc_hash_preimage :: "preimage option"
  inc_swap_id :: "swap_id option"
  inc_contract_redeemscript :: "script option"
  inc_multisig_redeemscript :: "script option"
  inc_hashlock_script :: "script option"
  inc_timelock_script :: "script option"
  inc_others_contract_sig :: "ecdsa_sig option"
  inc_tap_tweak :: "bytes option"
  inc_internal_key :: "xonly option"
  inc_spending_tx :: "transaction option"
  inc_payment_target :: "payment_target option"

definition inc_new_legacy ::
    "btc \<Rightarrow> seckey \<Rightarrow> public_key \<Rightarrow> transaction \<Rightarrow> script \<Rightarrow> seckey \<Rightarrow> amount \<Rightarrow> incoming_swapcoin" where
  "inc_new_legacy B my_privkey other_pubkey contract_tx contract_redeemscript hashlock_privkey funding_amount =
     (let my_pubkey = compressed_key (b_pubkey_of B my_privkey) in
      \<lparr>inc_protocol = Legacy,
       inc_my_privkey = Some my_privkey,
       inc_my_pubkey = Some my_pubkey,
       inc_other_pubkey = Some other_pubkey,
       inc_other_privkey = None,
       inc_contract_tx = contract_tx,
       inc_contract_txid = None,
       inc_hashlock_privkey = hashlock_privkey,
       inc_funding_amount = funding_amount,
       inc_hash_preimage = None,
       inc_swap_id = None,
       inc_contract_redeemscript = Some contract_redeemscript,
       inc_multisig_redeemscript = Some (create_multisig_redeemscript B my_pubkey other_pubkey),
       inc_hashlock_script = None,
       inc_timelock_script = None,
       inc_others_contract_sig = None,
       inc_tap_tweak = None,
       inc_internal_key = None,
       inc_spending_tx = None,
       inc_payment_target = None\<rparr>)"

definition inc_new_taproot ::
    "seckey \<Rightarrow> script \<Rightarrow> script \<Rightarrow> transaction \<Rightarrow> amount \<Rightarrow> incoming_swapcoin" where
  "inc_new_taproot hashlock_privkey hashlock_script timelock_script contract_tx funding_amount =
      \<lparr>inc_protocol = Taproot,
       inc_my_privkey = None,
       inc_my_pubkey = None,
       inc_other_pubkey = None,
       inc_other_privkey = None,
       inc_contract_tx = contract_tx,
       inc_contract_txid = None,
       inc_hashlock_privkey = hashlock_privkey,
       inc_funding_amount = funding_amount,
       inc_hash_preimage = None,
       inc_swap_id = None,
       inc_contract_redeemscript = None,
       inc_multisig_redeemscript = None,
       inc_hashlock_script = Some hashlock_script,
       inc_timelock_script = Some timelock_script,
       inc_others_contract_sig = None,
       inc_tap_tweak = None,
       inc_internal_key = None,
       inc_spending_tx = None,
       inc_payment_target = None\<rparr>"

definition inc_privkey :: "incoming_swapcoin \<Rightarrow> wallet_error + seckey" where
  "inc_privkey c = ok_or (inc_my_privkey c) (WGeneral ''Incoming swapcoin's privkey does not exist'')"

definition inc_get_contract_txid :: "btc \<Rightarrow> incoming_swapcoin \<Rightarrow> wallet_error + txid" where
  "inc_get_contract_txid B c = Inr (case inc_contract_txid c of
     Some t \<Rightarrow> t | None \<Rightarrow> b_txid B (inc_contract_tx c))"

definition inc_is_preimage_known :: "incoming_swapcoin \<Rightarrow> bool" where
  "inc_is_preimage_known c \<longleftrightarrow> inc_hash_preimage c \<noteq> None"

definition inc_set_preimage :: "preimage \<Rightarrow> incoming_swapcoin \<Rightarrow> incoming_swapcoin" where
  "inc_set_preimage p c = c\<lparr>inc_hash_preimage := Some p\<rparr>"

definition inc_set_other_privkey :: "seckey \<Rightarrow> incoming_swapcoin \<Rightarrow> incoming_swapcoin" where
  "inc_set_other_privkey k c = c\<lparr>inc_other_privkey := Some k\<rparr>"

definition inc_set_taproot_params ::
    "seckey \<Rightarrow> public_key \<Rightarrow> public_key \<Rightarrow> xonly \<Rightarrow> bytes \<Rightarrow> incoming_swapcoin \<Rightarrow> incoming_swapcoin" where
  "inc_set_taproot_params my_privkey my_pubkey other_pubkey internal_key tap_tweak c =
     c\<lparr>inc_my_privkey := Some my_privkey, inc_my_pubkey := Some my_pubkey,
       inc_other_pubkey := Some other_pubkey, inc_internal_key := Some internal_key,
       inc_tap_tweak := Some tap_tweak\<rparr>"

text \<open>\<open>input.get_mut(0)\<close> of a transaction: the first input is changed if there is one.\<close>

definition map_input0 :: "(txin \<Rightarrow> txin) \<Rightarrow> transaction \<Rightarrow> transaction" where
  "map_input0 f tx = (case tx_input tx of [] \<Rightarrow> tx | i # is \<Rightarrow> tx\<lparr>tx_input := f i # is\<rparr>)"

definition inc_create_signed_contract_tx :: "btc \<Rightarrow> incoming_swapcoin \<Rightarrow> wallet_error + transaction" where
  "inc_create_signed_contract_tx B c = (case inc_protocol c of
     Taproot \<Rightarrow> Inr (inc_contract_tx c)
   | Legacy \<Rightarrow>
     res_bind (ok_or (inc_my_privkey c) (WGeneral ''Missing my_privkey for contract tx signing'')) (\<lambda>my_privkey.
     res_bind (ok_or (inc_my_pubkey c) (WGeneral ''Missing my_pubkey for contract tx signing'')) (\<lambda>my_pubkey.
     res_bind (ok_or (inc_other_pubkey c) (WGeneral ''Missing other_pubkey for contract tx signing'')) (\<lambda>other_pubkey.
     res_bind (ok_or (inc_others_contract_sig c) (WGeneral ''Missing others_contract_sig for contract tx signing'')) (\<lambda>others_sig.
     let multisig_redeemscript = create_multisig_redeemscript B my_pubkey other_pubkey in
     res_bind (map_err (\<lambda>_. WGeneral ''Failed to sign contract tx'')
       (sign_contract_tx B (inc_contract_tx c) multisig_redeemscript (inc_funding_amount c) my_privkey)) (\<lambda>my_sig.
     Inr (map_input0 (\<lambda>i. apply_two_signatures_to_2of2_multisig_spend B my_pubkey other_pubkey my_sig others_sig
       i multisig_redeemscript) (inc_contract_tx c))))))))"

definition inc_get_contract_output_vout :: "incoming_swapcoin \<Rightarrow> nat" where
  "inc_get_contract_output_vout c =
     (let outs = tx_output (inc_contract_tx c);
          i = length (takeWhile (\<lambda>out. to_value out \<noteq> inc_funding_amount c) outs) in
      if inc_protocol c = Taproot \<and> length outs > 1 \<and> i < length outs then i else 0)"

section \<open>Spending an incoming coin\<close>

definition sign_legacy_spend :: "btc \<Rightarrow> incoming_swapcoin \<Rightarrow> transaction \<Rightarrow> wallet_error + transaction" where
  "sign_legacy_spend B c spend_tx = (case inc_other_privkey c of
     Some other_privkey \<Rightarrow>
       res_bind (ok_or (inc_my_privkey c) (WGeneral ''Missing my_privkey for cooperative spend'')) (\<lambda>my_privkey.
       res_bind (ok_or (inc_my_pubkey c) (WGeneral ''Missing my_pubkey for cooperative spend'')) (\<lambda>my_pubkey.
       res_bind (ok_or (inc_other_pubkey c) (WGeneral ''Missing other_pubkey for cooperative spend'')) (\<lambda>other_pubkey.
       res_bind (ok_or (inc_multisig_redeemscript c) (WGeneral ''Missing multisig_redeemscript for cooperative spend'')) (\<lambda>rs.
       res_bind (ok_or (b_p2wsh_sighash B spend_tx 0 rs (inc_funding_amount c)) (WGeneral ''Sighash error'')) (\<lambda>sighash.
       let sig_mine = \<lparr>sig_inner = b_sign B sighash my_privkey, sig_type = 1\<rparr>;
           sig_other = \<lparr>sig_inner = b_sign B sighash other_privkey, sig_type = 1\<rparr> in
       Inr (map_input0 (\<lambda>i. apply_two_signatures_to_2of2_multisig_spend B my_pubkey other_pubkey
         sig_mine sig_other i rs) spend_tx))))))
   | None \<Rightarrow> (case inc_hash_preimage c of
       Some preimage \<Rightarrow>
         res_bind (ok_or (inc_contract_redeemscript c) (WGeneral ''Missing contract_redeemscript for hashlock spend'')) (\<lambda>rs.
         res_bind (ok_or (nth_opt (tx_output (inc_contract_tx c)) 0) (WGeneral ''Contract tx has no output for hashlock spend'')) (\<lambda>out.
         res_bind (ok_or (b_p2wsh_sighash B spend_tx 0 rs (to_value out)) (WGeneral ''Sighash error'')) (\<lambda>sighash.
         let sig = \<lparr>sig_inner = b_sign B sighash (inc_hashlock_privkey c), sig_type = 1\<rparr> in
         Inr (map_input0 (\<lambda>i. i\<lparr>ti_witness := ti_witness i @ [sig_to_vec B sig, preimage, rs]\<rparr>) spend_tx))))
     | None \<Rightarrow> Inl (WGeneral ''Cannot spend: need either other_privkey or preimage'')))"

text \<open>The script-path branch of \<open>sign_taproot_spend\<close>; \<open>witness_mut(0).unwrap()\<close> panics without an input.\<close>

definition sign_taproot_hashlock :: "btc \<Rightarrow> incoming_swapcoin \<Rightarrow> preimage \<Rightarrow> transaction \<Rightarrow> wallet_error + transaction" where
  "sign_taproot_hashlock B c preimage spend_tx =
     res_bind (ok_or (inc_hashlock_script c) (WGeneral ''Missing hashlock_script for taproot hashlock spend'')) (\<lambda>hashlock_script.
     res_bind (ok_or (inc_timelock_script c) (WGeneral ''Missing timelock_script for taproot hashlock spend'')) (\<lambda>timelock_script.
     res_bind (ok_or (inc_internal_key c) (WGeneral ''Missing internal_key for taproot hashlock spend'')) (\<lambda>internal_key.
     res_bind (map_err WProtocol (create_taproot_script B hashlock_script timelock_script internal_key)) (\<lambda>_.
     res_bind (ok_or (t_control_block (b_tap B) hashlock_script timelock_script internal_key hashlock_script)
       (WGeneral ''Failed to get control block for hashlock script'')) (\<lambda>control_block.
     res_bind (ok_or (nth_opt (tx_output (inc_contract_tx c)) (inc_get_contract_output_vout c)) WPanic) (\<lambda>out.
     let prevouts = [\<lparr>to_value = inc_funding_amount c, to_spk = to_spk out\<rparr>] in
     res_bind (ok_or (t_script_sighash (b_tap B) spend_tx 0 prevouts hashlock_script 1) (WGeneral ''Sighash error'')) (\<lambda>sighash.
     let tap_sig = t_schnorr (b_tap B) sighash (inc_hashlock_privkey c) @ [1] in
     if tx_input spend_tx = [] then Inl WPanic
     else Inr (map_input0 (\<lambda>i. i\<lparr>ti_witness := [tap_sig, preimage, hashlock_script, control_block]\<rparr>) spend_tx))))))))"

definition sign_taproot_spend ::
    "btc \<Rightarrow> bytes \<Rightarrow> bytes \<Rightarrow> incoming_swapcoin \<Rightarrow> transaction \<Rightarrow> wallet_error + transaction" where
  "sign_taproot_spend B rnd1 rnd2 c spend_tx = (case inc_other_privkey c of
     None \<Rightarrow> (case inc_hash_preimage c of
         Some preimage \<Rightarrow> sign_taproot_hashlock B c preimage spend_tx
       | None \<Rightarrow> Inl (WGeneral ''Cannot spend: need other_privkey for cooperative spend or preimage for hashlock''))
   | Some other_privkey \<Rightarrow>
     res_bind (ok_or (inc_my_privkey c) (WGeneral ''Missing my_privkey'')) (\<lambda>my_privkey.
     let my_pk = b_pubkey_of B my_privkey; other_pk = b_pubkey_of B other_privkey in
     res_bind (ok_or (inc_tap_tweak c) (WGeneral ''Missing tap_tweak'')) (\<lambda>tap_tweak.
     res_bind (ok_or (inc_internal_key c) (WGeneral ''Missing internal_key'')) (\<lambda>internal_key.
     res_bind (ok_or (inc_hashlock_script c) (WGeneral ''Missing hashlock_script'')) (\<lambda>hashlock_script.
     res_bind (ok_or (inc_timelock_script c) (WGeneral ''Missing timelock_script'')) (\<lambda>timelock_script.
     res_bind (map_err (\<lambda>_. WGeneral ''Failed to generate my nonce pair'') (generate_new_nonce_pair_compat B rnd1 my_pk)) (\<lambda>(my_sec, my_pub).
     res_bind (map_err (\<lambda>_. WGeneral ''Failed to generate other nonce pair'') (generate_new_nonce_pair_compat B rnd2 other_pk)) (\<lambda>(other_sec, other_pub).
     res_bind (map_err (\<lambda>_. WGeneral ''Failed to calculate sighash'')
       (calculate_contract_sighash B spend_tx (inc_funding_amount c) hashlock_script timelock_script internal_key)) (\<lambda>message.
     let (p0, p1) = (if other_pk < my_pk then (other_pk, my_pk) else (my_pk, other_pk));
         agg = get_aggregated_nonce_compat B (if p0 = my_pk then [my_pub, other_pub] else [other_pub, my_pub]) in
     res_bind (map_err (\<lambda>_. WGeneral ''Failed to generate my partial sig'')
       (generate_partial_signature_compat B message agg my_sec my_privkey tap_tweak p0 p1)) (\<lambda>my_partial.
     res_bind (map_err (\<lambda>_. WGeneral ''Failed to generate other partial sig'')
       (generate_partial_signature_compat B message agg other_sec other_privkey tap_tweak p0 p1)) (\<lambda>other_partial.
     res_bind (map_err (\<lambda>_. WGeneral ''Failed to aggregate signatures'')
       (aggregate_partial_signatures_compat B message agg tap_tweak
         (if p0 = my_pk then [my_partial, other_partial] else [other_partial, my_partial]) p0 p1)) (\<lambda>sig.
     if \<not> t_sig_ok (b_tap B) sig then Inl (WGeneral ''Invalid taproot signature'')
     else if tx_input spend_tx = [] then Inl (WGeneral ''Failed to access witness'')
     else Inr (map_input0 (\<lambda>i. i\<lparr>ti_witness := [sig]\<rparr>) spend_tx)))))))))))))"

datatype spend_kind = ContractSpend bool | Timelock

definition contract_and_timelock_vsize :: "protocol_version \<Rightarrow> spend_kind \<Rightarrow> nat" where
  "contract_and_timelock_vsize protocol kind = (case (protocol, kind) of
     (Legacy, ContractSpend _) \<Rightarrow> 150
   | (Taproot, ContractSpend True) \<Rightarrow> 112
   | (Taproot, ContractSpend False) \<Rightarrow> 155
   | (Legacy, Timelock) \<Rightarrow> 142
   | (Taproot, Timelock) \<Rightarrow> 140)"

text \<open>\<open>None\<close> is the panic of \<open>calculate_fee_sats\<close>; the sum is the plain \<open>u64\<close> addition.\<close>

definition payment_settlement_budget_sats :: "btc \<Rightarrow> protocol_version \<Rightarrow> nat option" where
  "payment_settlement_budget_sats B protocol = (case protocol of
     Legacy \<Rightarrow> (case calculate_fee_sats B CONTRACT_TX_VSIZE of None \<Rightarrow> None | Some a \<Rightarrow>
       (case calculate_fee_sats B 150 of None \<Rightarrow> None | Some b \<Rightarrow> Some (wrapping_add 64 a b)))
   | Taproot \<Rightarrow> calculate_fee_sats B 155)"

text \<open>
  \<open>Sequence::ENABLE_RBF_NO_LOCKTIME\<close> is \<open>0xFFFFFFFD\<close>. The outpoint spent is the funding
  outpoint for a legacy cooperative spend and the contract output otherwise.
\<close>

definition spend_previous_output :: "btc \<Rightarrow> incoming_swapcoin \<Rightarrow> wallet_error + outpoint" where
  "spend_previous_output B c = (case inc_protocol c of
     Legacy \<Rightarrow>
       if inc_other_privkey c \<noteq> None
       then (case tx_input (inc_contract_tx c) of
           i # _ \<Rightarrow> Inr (ti_prev i)
         | [] \<Rightarrow> Inl (WGeneral ''Contract tx has no input (funding outpoint)''))
       else Inr \<lparr>op_txid = b_txid B (inc_contract_tx c), op_vout = 0\<rparr>
   | Taproot \<Rightarrow>
       let outs = tx_output (inc_contract_tx c);
           i = length (takeWhile (\<lambda>out. to_value out \<noteq> inc_funding_amount c) outs) in
       Inr \<lparr>op_txid = b_txid B (inc_contract_tx c), op_vout = (if i < length outs then i else 0)\<rparr>)"

definition sign_spend_transaction_with_output_value ::
    "btc \<Rightarrow> bytes \<Rightarrow> bytes \<Rightarrow> incoming_swapcoin \<Rightarrow> amount \<Rightarrow> amount \<Rightarrow> script \<Rightarrow> wallet_error + transaction" where
  "sign_spend_transaction_with_output_value B rnd1 rnd2 c input_value output_value output_script =
     (if output_value \<ge> input_value then Inl (WGeneral ''Spend output leaves no fee from input'')
      else
      res_bind (spend_previous_output B c) (\<lambda>previous_output.
      let sequence = (if inc_other_privkey c \<noteq> None then 0xFFFFFFFD else 0);
          spend_tx = \<lparr>tx_version = 2, tx_lock_time = 0,
            tx_input = [\<lparr>ti_prev = previous_output, ti_sequence = sequence, ti_witness = [], ti_script_sig = []\<rparr>],
            tx_output = [\<lparr>to_value = output_value, to_spk = output_script\<rparr>]\<rparr> in
      case inc_protocol c of
        Legacy \<Rightarrow> sign_legacy_spend B c spend_tx
      | Taproot \<Rightarrow> sign_taproot_spend B rnd1 rnd2 c spend_tx))"

definition sign_spend_transaction ::
    "btc \<Rightarrow> bytes \<Rightarrow> bytes \<Rightarrow> incoming_swapcoin \<Rightarrow> amount \<Rightarrow> script \<Rightarrow> f64 \<Rightarrow> wallet_error + transaction" where
  "sign_spend_transaction B rnd1 rnd2 c input_value output_script feerate =
     (let vsize = contract_and_timelock_vsize (inc_protocol c) (ContractSpend (inc_other_privkey c \<noteq> None));
          fee = f64_u64 (f64_mul feerate (f64_of_nat vsize)) in
      res_bind (ok_or (checked_sub input_value fee) (WGeneral ''Fee exceeds input value'')) (\<lambda>output_value.
      sign_spend_transaction_with_output_value B rnd1 rnd2 c input_value output_value output_script))"

section \<open>Outgoing swap coins\<close>

record outgoing_swapcoin =
  og_protocol :: protocol_version
  og_my_privkey :: "seckey option"
  og_my_pubkey :: "public_key option"
  og_other_pubkey :: "public_key option"
  og_other_privkey :: "seckey option"
  og_funding_tx :: "transaction option"
  og_contract_tx :: transaction
  og_timelock_privkey :: seckey
  og_funding_amount :: amount
  og_hash_preimage :: "preimage option"
  og_swap_id :: "swap_id option"
  og_contract_redeemscript :: "script option"
  og_hashlock_script :: "script option"
  og_timelock_script :: "script option"
  og_others_contract_sig :: "ecdsa_sig option"
  og_tap_tweak :: "bytes option"
  og_internal_key :: "xonly option"
  og_recovery_address :: "string option"

definition og_new_legacy ::
    "btc \<Rightarrow> seckey \<Rightarrow> public_key \<Rightarrow> transaction \<Rightarrow> script \<Rightarrow> seckey \<Rightarrow> amount \<Rightarrow> outgoing_swapcoin" where
  "og_new_legacy B my_privkey other_pubkey contract_tx contract_redeemscript timelock_privkey funding_amount =
      \<lparr>og_protocol = Legacy,
       og_my_privkey = Some my_privkey,
       og_my_pubkey = Some (compressed_key (b_pubkey_of B my_privkey)),
       og_other_pubkey = Some other_pubkey,
       og_other_privkey = None,
       og_funding_tx = None,
       og_contract_tx = contract_tx,
       og_timelock_privkey = timelock_privkey,
       og_funding_amount = funding_amount,
       og_hash_preimage = None,
       og_swap_id = None,
       og_contract_redeemscript = Some contract_redeemscript,
       og_hashlock_script = None,
       og_timelock_script = None,
       og_others_contract_sig = None,
       og_tap_tweak = None,
       og_internal_key = None,
       og_recovery_address = None\<rparr>"

definition og_new_taproot ::
    "seckey \<Rightarrow> script \<Rightarrow> script \<Rightarrow> transaction \<Rightarrow> amount \<Rightarrow> outgoing_swapcoin" where
  "og_new_taproot timelock_privkey hashlock_script timelock_script contract_tx funding_amount =
      \<lparr>og_protocol = Taproot,
       og_my_privkey = None,
       og_my_pubkey = None,
       og_other_pubkey = None,
       og_other_privkey = None,
       og_funding_tx = None,
       og_contract_tx = contract_tx,
       og_timelock_privkey = timelock_privkey,
       og_funding_amount = funding_amount,
       og_hash_preimage = None,
       og_swap_id = None,
       og_contract_redeemscript = None,
       og_hashlock_script = Some hashlock_script,
       og_timelock_script = Some timelock_script,
       og_others_contract_sig = None,
       og_tap_tweak = None,
       og_internal_key = None,
       og_recovery_address = None\<rparr>"

definition og_privkey :: "outgoing_swapcoin \<Rightarrow> wallet_error + seckey" where
  "og_privkey c = ok_or (og_my_privkey c) (WGeneral ''Outgoing swapcoin's privkey does not exist'')"

definition og_set_preimage :: "preimage \<Rightarrow> outgoing_swapcoin \<Rightarrow> outgoing_swapcoin" where
  "og_set_preimage p c = c\<lparr>og_hash_preimage := Some p\<rparr>"

definition og_set_other_privkey :: "seckey \<Rightarrow> outgoing_swapcoin \<Rightarrow> outgoing_swapcoin" where
  "og_set_other_privkey k c = c\<lparr>og_other_privkey := Some k\<rparr>"

definition og_set_taproot_params ::
    "seckey \<Rightarrow> public_key \<Rightarrow> public_key \<Rightarrow> xonly \<Rightarrow> bytes \<Rightarrow> outgoing_swapcoin \<Rightarrow> outgoing_swapcoin" where
  "og_set_taproot_params my_privkey my_pubkey other_pubkey internal_key tap_tweak c =
     c\<lparr>og_my_privkey := Some my_privkey, og_my_pubkey := Some my_pubkey,
       og_other_pubkey := Some other_pubkey, og_internal_key := Some internal_key,
       og_tap_tweak := Some tap_tweak\<rparr>"

text \<open>
  The loop of \<open>get_timelock\<close>: byte \<open>i\<close> is shifted left by \<open>8 * i\<close> into a \<open>u32\<close>; a shift by 32
  (a fifth byte) is masked to zero places.
\<close>

fun timelock_bytes :: "nat \<Rightarrow> bytes \<Rightarrow> 32 word \<Rightarrow> 32 word" where
  "timelock_bytes i [] acc = acc"
| "timelock_bytes i (b # bs) acc = timelock_bytes (i + 1) bs (or acc (push_bit (i * 8 mod 32) (ucast b)))"

definition get_timelock :: "btc \<Rightarrow> outgoing_swapcoin \<Rightarrow> nat option" where
  "get_timelock B c = (
     if og_protocol c = Taproot
     then (case og_timelock_script c of
         None \<Rightarrow> None
       | Some script_bytes \<Rightarrow>
         if length script_bytes < 6 then None
         else let locktime_len = unat (script_bytes ! 0) in
           if locktime_len = 0 \<or> locktime_len > 5 \<or> length script_bytes < locktime_len + 1 then None
           else Some (unat (timelock_bytes 0 (take locktime_len (drop 1 script_bytes)) 0)))
     else (case og_contract_redeemscript c of
         None \<Rightarrow> None
       | Some redeemscript \<Rightarrow> res_ok (read_contract_locktime B redeemscript)))"

definition og_get_contract_output_vout :: "outgoing_swapcoin \<Rightarrow> nat" where
  "og_get_contract_output_vout c =
     (let outs = tx_output (og_contract_tx c);
          i = length (takeWhile (\<lambda>out. to_value out \<noteq> og_funding_amount c) outs) in
      if og_protocol c = Taproot \<and> length outs > 1 \<and> i < length outs then i else 0)"

definition og_create_signed_contract_tx :: "btc \<Rightarrow> outgoing_swapcoin \<Rightarrow> wallet_error + transaction" where
  "og_create_signed_contract_tx B c = (case og_protocol c of
     Taproot \<Rightarrow> Inr (og_contract_tx c)
   | Legacy \<Rightarrow>
     res_bind (ok_or (og_my_privkey c) (WGeneral ''Missing my_privkey for contract tx signing'')) (\<lambda>my_privkey.
     res_bind (ok_or (og_my_pubkey c) (WGeneral ''Missing my_pubkey for contract tx signing'')) (\<lambda>my_pubkey.
     res_bind (ok_or (og_other_pubkey c) (WGeneral ''Missing other_pubkey for contract tx signing'')) (\<lambda>other_pubkey.
     res_bind (ok_or (og_others_contract_sig c) (WGeneral ''Missing others_contract_sig for contract tx signing'')) (\<lambda>others_sig.
     let multisig_redeemscript = create_multisig_redeemscript B my_pubkey other_pubkey in
     res_bind (map_err (\<lambda>_. WGeneral ''Failed to sign contract tx'')
       (sign_contract_tx B (og_contract_tx c) multisig_redeemscript (og_funding_amount c) my_privkey)) (\<lambda>my_sig.
     Inr (map_input0 (\<lambda>i. apply_two_signatures_to_2of2_multisig_spend B my_pubkey other_pubkey my_sig others_sig
       i multisig_redeemscript) (og_contract_tx c))))))))"

text \<open>\<open>tx.input[0]\<close> panics without an input. A Default-type Schnorr signature serializes without a type byte.\<close>

definition set_witness0 :: "bytes list \<Rightarrow> transaction \<Rightarrow> wallet_error + transaction" where
  "set_witness0 w tx = (if tx_input tx = [] then Inl WPanic
     else Inr (map_input0 (\<lambda>i. i\<lparr>ti_witness := w\<rparr>) tx))"

definition sign_timelock_recovery :: "btc \<Rightarrow> outgoing_swapcoin \<Rightarrow> transaction \<Rightarrow> wallet_error + transaction" where
  "sign_timelock_recovery B c tx =
     res_bind (ok_or (nth_opt (tx_output (og_contract_tx c)) (og_get_contract_output_vout c))
       (WGeneral ''No output in contract tx'')) (\<lambda>contract_output.
     if og_protocol c = Taproot
     then
       res_bind (ok_or (og_timelock_script c) (WGeneral ''No timelock script for Taproot swapcoin'')) (\<lambda>timelock_script.
       res_bind (ok_or (og_internal_key c) (WGeneral ''No internal key for Taproot swapcoin'')) (\<lambda>internal_key.
       res_bind (ok_or (og_tap_tweak c) (WGeneral ''No tap tweak for Taproot swapcoin'')) (\<lambda>_.
       res_bind (ok_or (og_hashlock_script c) (WGeneral ''No hashlock script for Taproot swapcoin'')) (\<lambda>hashlock_script.
       res_bind (ok_or (t_script_sighash (b_tap B) tx 0 [contract_output] timelock_script 0) (WGeneral ''Sighash error'')) (\<lambda>sighash.
       res_bind (ok_or (b_taproot B hashlock_script timelock_script internal_key) (WGeneral ''Failed to finalize TaprootBuilder'')) (\<lambda>_.
       res_bind (ok_or (t_control_block (b_tap B) hashlock_script timelock_script internal_key timelock_script)
         (WGeneral ''Failed to get control block for timelock script'')) (\<lambda>control_block.
       set_witness0 [t_schnorr (b_tap B) sighash (og_timelock_privkey c), timelock_script, control_block] tx)))))))
     else
       res_bind (ok_or (og_contract_redeemscript c) (WGeneral ''No redeemscript for Legacy swapcoin'')) (\<lambda>redeemscript.
       res_bind (ok_or (b_p2wsh_sighash B tx 0 redeemscript (to_value contract_output)) (WGeneral ''Sighash error'')) (\<lambda>sighash.
       let sig = \<lparr>sig_inner = b_sign B sighash (og_timelock_privkey c), sig_type = 1\<rparr> in
       set_witness0 [sig_to_vec B sig, [], redeemscript] tx)))"

section \<open>Watch-only swap coins\<close>

record watch_only_swapcoin =
  wo_protocol :: protocol_version
  wo_sender_pubkey :: public_key
  wo_receiver_pubkey :: public_key
  wo_contract_tx :: transaction
  wo_contract_redeemscript :: script
  wo_hashlock_script :: "script option"
  wo_timelock_script :: "script option"
  wo_funding_amount :: amount

definition wo_new_legacy :: "public_key \<Rightarrow> public_key \<Rightarrow> transaction \<Rightarrow> script \<Rightarrow> amount \<Rightarrow> watch_only_swapcoin" where
  "wo_new_legacy sender_pubkey receiver_pubkey contract_tx contract_redeemscript funding_amount =
     \<lparr>wo_protocol = Legacy, wo_sender_pubkey = sender_pubkey, wo_receiver_pubkey = receiver_pubkey,
      wo_contract_tx = contract_tx, wo_contract_redeemscript = contract_redeemscript,
      wo_hashlock_script = None, wo_timelock_script = None, wo_funding_amount = funding_amount\<rparr>"

definition wo_new_taproot ::
    "public_key \<Rightarrow> public_key \<Rightarrow> transaction \<Rightarrow> script \<Rightarrow> script \<Rightarrow> amount \<Rightarrow> watch_only_swapcoin" where
  "wo_new_taproot sender_pubkey receiver_pubkey contract_tx hashlock_script timelock_script funding_amount =
     \<lparr>wo_protocol = Taproot, wo_sender_pubkey = sender_pubkey, wo_receiver_pubkey = receiver_pubkey,
      wo_contract_tx = contract_tx, wo_contract_redeemscript = [],
      wo_hashlock_script = Some hashlock_script, wo_timelock_script = Some timelock_script,
      wo_funding_amount = funding_amount\<rparr>"

section \<open>Reading the taproot timelock back\<close>

primrec le_value :: "bytes \<Rightarrow> nat" where
  "le_value [] = 0"
| "le_value (b # bs) = unat b + 256 * le_value bs"

lemma le_value_append_zero [simp]: "le_value (bs @ [0]) = le_value bs"
  by (induction bs) auto

lemma le_value_le_bytes: "le_value (le_bytes n) = n"
  by (induction n rule: less_induct) (subst le_bytes.simps, auto simp: unat_byte)

lemma le_value_script_num: "le_value (script_num n) = n"
  by (simp add: script_num_def Let_def le_value_le_bytes)

lemma le_bytes_length: "n < 256 ^ k \<Longrightarrow> length (le_bytes n) \<le> k"
proof (induction k arbitrary: n)
  case (Suc k)
  then have "n div 256 < 256 ^ k" by (simp add: div_less_iff_less_mult mult.commute)
  then show ?case using Suc.IH [of "n div 256"] by (subst le_bytes.simps) auto
qed simp

lemma le_bytes_last:
  assumes "n < 128 * 256 ^ k" "le_bytes n \<noteq> []" "length (le_bytes n) = Suc k"
  shows "unat (last (le_bytes n)) < 128"
  using assms
proof (induction k arbitrary: n)
  case 0
  then show ?case by (cases "n = 0") (auto simp: le_bytes_1 unat_byte)
next
  case (Suc k)
  have n: "n \<noteq> 0" using Suc.prems(2) by (cases "n = 0") auto
  then have e: "le_bytes n = of_nat (n mod 256) # le_bytes (n div 256)"
    by (subst le_bytes.simps) simp
  then have "length (le_bytes (n div 256)) = Suc k" using Suc.prems(3) by simp
  moreover have "n div 256 < 128 * 256 ^ k"
    using Suc.prems(1) by (simp add: div_less_iff_less_mult mult.commute)
  ultimately show ?case using Suc.IH [of "n div 256"] e by (cases "le_bytes (n div 256)") auto
qed

lemma script_num_length_4:
  assumes "n < 2 ^ 31"
  shows "length (script_num n) \<le> 4"
proof -
  have l: "length (le_bytes n) \<le> 4" using assms le_bytes_length [of n 4] by simp
  show ?thesis
  proof (cases "length (le_bytes n) = 4")
    case True
    then have "le_bytes n \<noteq> []" by force
    then have "unat (last (le_bytes n)) < 128"
      using True le_bytes_last [of n 3] assms by simp
    then show ?thesis using True by (simp add: script_num_def Let_def)
  next
    case False
    then show ?thesis using l by (auto simp: script_num_def Let_def)
  qed
qed

lemma or_push_bit_word:
  fixes a :: "32 word"
  assumes "unat a < 2 ^ k" "unat b < 256" "k + 8 \<le> 32"
  shows "unat (or a (push_bit k b)) = unat a + unat b * 2 ^ k"
proof -
  have a: "take_bit k a = a"
    using assms(1) by (simp add: word_unat_eq_iff unsigned_take_bit_eq take_bit_nat_eq_self)
  have "and a (push_bit k b) = 0"
  proof (rule bit_eqI)
    fix n
    show "bit (and a (push_bit k b)) n \<longleftrightarrow> bit 0 n"
      using arg_cong [OF a, of "\<lambda>w. bit w n"] by (auto simp: bit_and_iff bit_push_bit_iff bit_take_bit_iff)
  qed
  then have d: "or a (push_bit k b) = a + push_bit k b"
    by (simp add: disjunctive_add_eq_or)
  have lt: "unat b * 2 ^ k < 2 ^ 32" and s: "unat a + unat b * 2 ^ k < 2 ^ 32"
  proof -
    have "unat b * 2 ^ k \<le> 255 * 2 ^ k" using assms(2) by simp
    then have "unat a + unat b * 2 ^ k < 2 ^ k + 255 * 2 ^ k" using assms(1) by linarith
    also have "\<dots> = 2 ^ (k + 8)" by (simp add: power_add)
    also have "\<dots> \<le> 2 ^ 32" using assms(3) by (intro power_increasing) auto
    finally show "unat a + unat b * 2 ^ k < 2 ^ 32" .
    then show "unat b * 2 ^ k < 2 ^ 32" by linarith
  qed
  have p: "unat (push_bit k b) = unat b * 2 ^ k"
    using lt by (subst unsigned_push_bit_eq) (simp add: push_bit_eq_mult take_bit_nat_eq_self)
  show ?thesis
    unfolding d using s p by (simp add: unat_word_ariths)
qed

lemma timelock_bytes_value:
  assumes "i + length bs \<le> 4" "unat acc < 2 ^ (8 * i)"
  shows "unat (timelock_bytes i bs acc) = unat acc + 2 ^ (8 * i) * le_value bs"
  using assms
proof (induction bs arbitrary: i acc)
  case (Cons b bs)
  let ?acc = "or acc (push_bit (8 * i) (ucast b))"
  have ub: "unat (ucast b :: 32 word) = unat b" "unat b < 256"
    using unsigned_less [of b, where ?'a = nat] by (simp_all add: unsigned_ucast_eq take_bit_nat_eq_self)
  have u: "unat ?acc = unat acc + unat b * 2 ^ (8 * i)"
    using Cons.prems ub by (subst or_push_bit_word) auto
  have "unat acc + unat b * 2 ^ (8 * i) < 2 ^ (8 * (i + 1))"
  proof -
    have "unat b * 2 ^ (8 * i) \<le> 255 * 2 ^ (8 * i)" using ub(2) by simp
    then have "unat acc + unat b * 2 ^ (8 * i) < 2 ^ (8 * i) + 255 * 2 ^ (8 * i)"
      using Cons.prems(2) by linarith
    then show ?thesis by (simp add: power_add)
  qed
  then have "unat (timelock_bytes (i + 1) bs ?acc) = unat ?acc + 2 ^ (8 * (i + 1)) * le_value bs"
    using Cons.IH [of "i + 1" ?acc] Cons.prems u by simp
  moreover have "i * 8 mod 32 = 8 * i" using Cons.prems(1) by simp
  ultimately show ?case
    using u by (simp add: power_add algebra_simps)
qed simp

section \<open>Properties\<close>

lemma get_timelock_taproot:
  assumes B: "script_lib B" and lt: "16 < lt" "lt < 2 ^ 31"
    and c: "og_protocol c = Taproot" "og_timelock_script c = Some (create_timelock_script B lt p)"
    and p: "length p = 32"
  shows "get_timelock B c = Some lt"
proof -
  let ?n = "script_num lt"
  have len: "length ?n \<le> 4" using script_num_length_4 [OF lt(2)] .
  have pos: "?n \<noteq> []"
    using lt le_value_script_num [of lt] by auto
  have push: "b_push_lock_time B lt = of_nat (length ?n) # ?n"
    using len lt(1) by (simp add: script_lib.push_lock_time [OF B] script_lib.push_int_large [OF B]
        script_lib.push_slice_short [OF B])
  have s: "create_timelock_script B lt p = of_nat (length ?n) # ?n @ [0xb1, 0x75] @ b_push_slice B p @ [0xac]"
    by (simp add: create_timelock_script_def push)
  have u: "unat (of_nat (length ?n) :: byte) = length ?n" using len by (simp add: unat_byte)
  have "length (b_push_slice B p) = 33"
    using p by (simp add: script_lib.push_slice_short [OF B])
  then show ?thesis
    using c len pos u timelock_bytes_value [of 0 ?n 0]
    by (simp add: get_timelock_def s Let_def le_value_script_num)
qed

lemma get_timelock_taproot_small:
  assumes B: "script_lib B" and lt: "lt \<le> 16"
    and c: "og_protocol c = Taproot" "og_timelock_script c = Some (create_timelock_script B lt p)"
  shows "get_timelock B c = None"
proof (cases "lt = 0")
  case True
  then show ?thesis
    using c by (simp add: get_timelock_def create_timelock_script_def Let_def
        script_lib.push_lock_time [OF B] script_lib.push_int_zero [OF B])
next
  case False
  then have "unat (80 + of_nat lt :: byte) = 80 + lt" using lt unat_byte [of "80 + lt"] by simp
  then show ?thesis
    using c lt False by (simp add: get_timelock_def create_timelock_script_def Let_def
        script_lib.push_lock_time [OF B] script_lib.push_int_small [OF B])
qed

text \<open>
  \<open>get_timelock\<close> of an outgoing taproot coin returns the height its timelock leaf was built
  with, for every height from 17 up to \<open>2^31 - 1\<close>; a leaf for a height up to 16 is an opcode
  push, which the byte reader reports as no timelock.
\<close>

lemma taproot_timelock_read_back:
  assumes "script_lib B" "og_protocol c = Taproot"
    and "og_timelock_script c = Some (create_timelock_script B lt p)" "length p = 32" "lt < 2 ^ 31"
  shows "get_timelock B c = (if lt \<le> 16 then None else Some lt)"
  using get_timelock_taproot [OF assms(1) _ assms(5,2,3,4)] get_timelock_taproot_small [OF assms(1) _ assms(2,3)]
  by simp

lemma taproot_timelock_read_back_witness:
  "get_timelock sample_lib (og_new_taproot [1] [2] (create_timelock_script sample_lib 850000 (replicate 32 5))
      \<lparr>tx_version = 2, tx_lock_time = 0, tx_input = [], tx_output = []\<rparr> 10) = Some 850000"
  using taproot_timelock_read_back [OF sample_script.script_lib_axioms,
      of "og_new_taproot [1] [2] (create_timelock_script sample_lib 850000 (replicate 32 5))
      \<lparr>tx_version = 2, tx_lock_time = 0, tx_input = [], tx_output = []\<rparr> 10" 850000 "replicate 32 5"]
  by (simp add: og_new_taproot_def)

lemma map_input0_single [simp]:
  "tx_input tx = [i] \<Longrightarrow> map_input0 f tx = tx\<lparr>tx_input := [f i]\<rparr>"
  by (simp add: map_input0_def)

lemma map_input0_frame [simp]:
  "tx_output (map_input0 f tx) = tx_output tx"
  "length (tx_input (map_input0 f tx)) = length (tx_input tx)"
  by (simp_all add: map_input0_def split: list.splits)

lemma map_input0_prev: "(\<And>i. ti_prev (f i) = ti_prev i) \<Longrightarrow>
    map ti_prev (tx_input (map_input0 f tx)) = map ti_prev (tx_input tx)"
  by (simp add: map_input0_def split: list.splits)

lemma apply_two_frame [simp]:
  "ti_prev (apply_two_signatures_to_2of2_multisig_spend B k1 k2 s1 s2 i rs) = ti_prev i"
  by (simp add: apply_two_signatures_to_2of2_multisig_spend_def Let_def split: if_splits)

lemma sign_legacy_spend_frame:
  assumes "sign_legacy_spend B c tx = Inr tx'"
  shows "tx_output tx' = tx_output tx \<and> map ti_prev (tx_input tx') = map ti_prev (tx_input tx)"
  using assms
  by (auto simp: sign_legacy_spend_def res_simps Let_def map_input0_prev split: option.splits)

lemma sign_taproot_hashlock_frame:
  assumes "sign_taproot_hashlock B c p tx = Inr tx'"
  shows "tx_output tx' = tx_output tx \<and> map ti_prev (tx_input tx') = map ti_prev (tx_input tx)"
  using assms
  by (auto simp: sign_taproot_hashlock_def res_simps Let_def map_input0_prev split: if_splits)

lemma sign_taproot_spend_frame:
  assumes "sign_taproot_spend B r1 r2 c tx = Inr tx'"
  shows "tx_output tx' = tx_output tx \<and> map ti_prev (tx_input tx') = map ti_prev (tx_input tx)"
  using assms
  by (auto simp: sign_taproot_spend_def res_simps Let_def map_input0_prev
      dest: sign_taproot_hashlock_frame split: option.splits if_splits prod.splits)

text \<open>A concrete legacy coin after the key handover, for the examples.\<close>

definition sample_coin :: incoming_swapcoin where
  "sample_coin = inc_set_other_privkey (replicate 32 5) (inc_new_legacy sample_lib (replicate 32 3)
     (compressed_key (2 # replicate 32 5))
     \<lparr>tx_version = 2, tx_lock_time = 0,
      tx_input = [\<lparr>ti_prev = \<lparr>op_txid = [9], op_vout = 0\<rparr>, ti_sequence = 0, ti_witness = [], ti_script_sig = []\<rparr>],
      tx_output = [\<lparr>to_value = 700, to_spk = [8]\<rparr>]\<rparr> [1] (replicate 32 7) 1000)"

lemma sample_coin_alt:
  "sample_coin = inc_set_other_privkey (replicate 32 5) (inc_new_legacy sample_lib (replicate 32 3)
     (compressed_key (b_pubkey_of sample_lib (replicate 32 5)))
     \<lparr>tx_version = 2, tx_lock_time = 0,
      tx_input = [\<lparr>ti_prev = \<lparr>op_txid = [9], op_vout = 0\<rparr>, ti_sequence = 0, ti_witness = [], ti_script_sig = []\<rparr>],
      tx_output = [\<lparr>to_value = 700, to_spk = [8]\<rparr>]\<rparr> [1] (replicate 32 7) 1000)"
  by (simp add: sample_coin_def)

lemma sample_coin_spends:
  "\<exists>tx. sign_spend_transaction_with_output_value sample_lib [] [] sample_coin 1000 900 [4] = Inr tx"
  by (simp add: sign_spend_transaction_with_output_value_def spend_previous_output_def sign_legacy_spend_def
      sample_coin_def inc_set_other_privkey_def inc_new_legacy_def Let_def sample_lib_def)

text \<open>
  Whatever the protocol and the path, a signed spend of an incoming coin has one input, the
  outpoint the coin's state calls for, and one output, with exactly the requested script and value,
  and leaves a positive fee.
\<close>

lemma spend_shape:
  assumes "sign_spend_transaction_with_output_value B r1 r2 c input_value output_value spk = Inr tx"
  shows "output_value < input_value \<and> tx_output tx = [\<lparr>to_value = output_value, to_spk = spk\<rparr>]
    \<and> (\<exists>op. spend_previous_output B c = Inr op \<and> map ti_prev (tx_input tx) = [op])"
proof -
  obtain op where op: "spend_previous_output B c = Inr op" and lt: "output_value < input_value"
    using assms by (auto simp: sign_spend_transaction_with_output_value_def res_simps split: if_splits)
  show ?thesis
    using assms op lt
    by (auto simp: sign_spend_transaction_with_output_value_def Let_def
        dest!: sign_legacy_spend_frame sign_taproot_spend_frame split: protocol_version.splits if_splits)
qed

lemma spend_shape_witness:
  "\<exists>tx. sign_spend_transaction_with_output_value sample_lib [] [] sample_coin 1000 900 [4] = Inr tx
     \<and> tx_output tx = [\<lparr>to_value = 900, to_spk = [4]\<rparr>]"
  using sample_coin_spends spend_shape by blast

lemma cooperative_witness:
  fixes B mk ok ctx crs hk v
  defines "c \<equiv> inc_set_other_privkey ok (inc_new_legacy B mk (compressed_key (b_pubkey_of B ok)) ctx crs hk v)"
    and "rs \<equiv> create_multisig_redeemscript B (compressed_key (b_pubkey_of B mk)) (compressed_key (b_pubkey_of B ok))"
  assumes "tx_input tx0 = [i0]" "ti_witness i0 = []" "sign_legacy_spend B c tx0 = Inr tx"
  shows "\<exists>m. b_p2wsh_sighash B tx0 0 rs v = Some m
    \<and> map ti_witness (tx_input tx) = [[[],
        sig_to_vec B \<lparr>sig_inner = b_sign B m (if b_pubkey_of B mk < b_pubkey_of B ok then mk else ok), sig_type = 1\<rparr>,
        sig_to_vec B \<lparr>sig_inner = b_sign B m (if b_pubkey_of B mk < b_pubkey_of B ok then ok else mk), sig_type = 1\<rparr>,
        rs]]"
  using assms(3-5)
  unfolding c_def rs_def
  by (auto simp: sign_legacy_spend_def inc_set_other_privkey_def inc_new_legacy_def res_simps Let_def
      apply_two_signatures_to_2of2_multisig_spend_def)

text \<open>
  C39. Once the counterparty's key has been handed over, the cooperative spend of a legacy coin is
  valid for its 2-of-2 script: the witness is the empty dummy, two signatures and the script, the
  signatures come in the order of the keys in the script, and each verifies under its key for the
  sighash of the unsigned spend with the funding value.
\<close>

theorem cooperative_spend_signs_in_script_order:
  fixes B mk ok ctx crs hk v
  defines "c \<equiv> inc_set_other_privkey ok (inc_new_legacy B mk (compressed_key (b_pubkey_of B ok)) ctx crs hk v)"
  assumes "script_lib B" "key_lib B"
    and "good_key B (compressed_key (b_pubkey_of B mk))" "good_key B (compressed_key (b_pubkey_of B ok))"
    and "sign_spend_transaction_with_output_value B r1 r2 c input_value output_value spk = Inr tx"
  shows "\<exists>rs k1 k2 m s1 s2. inc_multisig_redeemscript c = Some rs
    \<and> read_pubkeys_from_multisig_redeemscript B rs = Inr (k1, k2)
    \<and> map ti_witness (tx_input tx) = [[[], sig_to_vec B s1, sig_to_vec B s2, rs]]
    \<and> b_p2wsh_sighash B (map_input0 (\<lambda>i. i\<lparr>ti_witness := []\<rparr>) tx) 0 rs v = Some m
    \<and> b_verify B m (sig_inner s1) (pk_inner k1) \<and> b_verify B m (sig_inner s2) (pk_inner k2)"
proof -
  let ?km = "compressed_key (b_pubkey_of B mk)" and ?ko = "compressed_key (b_pubkey_of B ok)"
  let ?rs = "create_multisig_redeemscript B ?km ?ko"
  obtain op where op: "spend_previous_output B c = Inr op"
    and s: "sign_legacy_spend B c \<lparr>tx_version = 2, tx_lock_time = 0,
      tx_input = [\<lparr>ti_prev = op, ti_sequence = 0xFFFFFFFD, ti_witness = [], ti_script_sig = []\<rparr>],
      tx_output = [\<lparr>to_value = output_value, to_spk = spk\<rparr>]\<rparr> = Inr tx"
    (is "sign_legacy_spend B c ?tx0 = _")
    using assms(6)
    by (auto simp: sign_spend_transaction_with_output_value_def Let_def res_simps c_def
        inc_set_other_privkey_def inc_new_legacy_def split: if_splits)
  have strip: "map_input0 (\<lambda>i. i\<lparr>ti_witness := []\<rparr>) tx = ?tx0"
    using s by (auto simp: sign_legacy_spend_def c_def inc_set_other_privkey_def inc_new_legacy_def res_simps Let_def
        apply_two_signatures_to_2of2_multisig_spend_def)
  obtain m where m: "b_p2wsh_sighash B ?tx0 0 ?rs v = Some m"
    "map ti_witness (tx_input tx) = [[[],
      sig_to_vec B \<lparr>sig_inner = b_sign B m (if b_pubkey_of B mk < b_pubkey_of B ok then mk else ok), sig_type = 1\<rparr>,
      sig_to_vec B \<lparr>sig_inner = b_sign B m (if b_pubkey_of B mk < b_pubkey_of B ok then ok else mk), sig_type = 1\<rparr>,
      ?rs]]"
    using cooperative_witness [OF _ _ s [unfolded c_def]] by auto
  have r: "read_pubkeys_from_multisig_redeemscript B ?rs
      = Inr (if pk_inner ?km < pk_inner ?ko then (?km, ?ko) else (?ko, ?km))"
    by (rule read_pubkeys_created [OF assms(2,4,5)])
  have ms: "inc_multisig_redeemscript c = Some ?rs"
    by (simp add: c_def inc_set_other_privkey_def inc_new_legacy_def Let_def)
  note v = key_lib.sign_verify [OF assms(3)]
  show ?thesis
  proof (cases "b_pubkey_of B mk < b_pubkey_of B ok")
    case True
    show ?thesis
      unfolding strip
      by (rule exI [of _ ?rs], rule exI [of _ ?km], rule exI [of _ ?ko], rule exI [of _ m],
          rule exI [of _ "\<lparr>sig_inner = b_sign B m mk, sig_type = 1\<rparr>"],
          rule exI [of _ "\<lparr>sig_inner = b_sign B m ok, sig_type = 1\<rparr>"]) (use True m r ms v in simp)
  next
    case False
    show ?thesis
      unfolding strip
      by (rule exI [of _ ?rs], rule exI [of _ ?ko], rule exI [of _ ?km], rule exI [of _ m],
          rule exI [of _ "\<lparr>sig_inner = b_sign B m ok, sig_type = 1\<rparr>"],
          rule exI [of _ "\<lparr>sig_inner = b_sign B m mk, sig_type = 1\<rparr>"]) (use False m r ms v in simp)
  qed
qed

theorem cooperative_spend_signs_in_script_order_witness:
  "\<exists>tx rs s1 s2. sign_spend_transaction_with_output_value sample_lib [] [] sample_coin 1000 900 [4] = Inr tx
    \<and> map ti_witness (tx_input tx) = [[[], sig_to_vec sample_lib s1, sig_to_vec sample_lib s2, rs]]"
proof -
  obtain tx where tx: "sign_spend_transaction_with_output_value sample_lib [] [] sample_coin 1000 900 [4] = Inr tx"
    using sample_coin_spends by blast
  show ?thesis
    using cooperative_spend_signs_in_script_order [OF sample_script.script_lib_axioms sample_keys.key_lib_axioms _ _
        tx [unfolded sample_coin_alt]] sample_good_key tx by fastforce
qed

end
