(* ===== verification/Utill.thy ===== *)
theory Utill
  imports SwapCoin "HOL-Library.Char_ord"
begin

text \<open>
  String helpers of \<open>utill.rs\<close>: splitting and number parsing of the standard library as far as
  the program uses them, the descriptor key-origin parser, the configuration file reader, the
  proxy argument parser and the descriptor checksum.
\<close>

section \<open>Strings\<close>

definition str_find :: "char \<Rightarrow> string \<Rightarrow> nat option" where
  "str_find c s = (let i = length (takeWhile (\<lambda>x. x \<noteq> c) s) in if i < length s then Some i else None)"

fun split_on :: "char \<Rightarrow> string \<Rightarrow> string list" where
  "split_on c [] = [[]]"
| "split_on c (x # xs) = (if x = c then [] # split_on c xs
     else case split_on c xs of p # ps \<Rightarrow> (x # p) # ps | [] \<Rightarrow> [[x]])"

definition split_once :: "char \<Rightarrow> string \<Rightarrow> (string \<times> string) option" where
  "split_once c s = map_option (\<lambda>i. (take i s, drop (i + 1) s)) (str_find c s)"

definition is_space :: "char \<Rightarrow> bool" where
  "is_space c \<longleftrightarrow> c \<in> {CHR '' '', CHR 0x09, CHR 0x0A, CHR 0x0B, CHR 0x0C, CHR 0x0D}"

definition trim :: "string \<Rightarrow> string" where
  "trim s = rev (dropWhile is_space (rev (dropWhile is_space s)))"

text \<open>\<open>str::lines\<close>: no final empty line, and a carriage return before the newline is dropped.\<close>

definition strip_cr :: "string \<Rightarrow> string" where
  "strip_cr l = (if l \<noteq> [] \<and> last l = CHR 0x0D then butlast l else l)"

definition str_lines :: "string \<Rightarrow> string list" where
  "str_lines s = (let ls = split_on (CHR 0x0A) s in
     map strip_cr (butlast ls) @ (if last ls = [] then [] else [last ls]))"

definition ascii_lower :: "string \<Rightarrow> string" where
  "ascii_lower s = map (\<lambda>c. if CHR ''A'' \<le> c \<and> c \<le> CHR ''Z'' then char_of (of_char c + (32::nat)) else c) s"

fun str_contains :: "string \<Rightarrow> string \<Rightarrow> bool" where
  "str_contains pat [] \<longleftrightarrow> pat = []"
| "str_contains pat (c # cs) \<longleftrightarrow> take (length pat) (c # cs) = pat \<or> str_contains pat cs"

definition is_digit :: "char \<Rightarrow> bool" where
  "is_digit c \<longleftrightarrow> CHR ''0'' \<le> c \<and> c \<le> CHR ''9''"

definition digits_val :: "string \<Rightarrow> nat" where
  "digits_val s = foldl (\<lambda>v c. 10 * v + (of_char c - 48)) 0 s"

text \<open>\<open>parse::<uN>\<close> and \<open>parse::<iN>\<close>: an optional sign, then digits, in range.\<close>

definition parse_uint :: "nat \<Rightarrow> string \<Rightarrow> nat option" where
  "parse_uint w s = (let d = (if s \<noteq> [] \<and> hd s = CHR ''+'' then tl s else s) in
     if d \<noteq> [] \<and> list_all is_digit d \<and> digits_val d \<le> uint_max w then Some (digits_val d) else None)"

definition parse_sint :: "nat \<Rightarrow> string \<Rightarrow> int option" where
  "parse_sint w s = (
     if s \<noteq> [] \<and> hd s = CHR ''-''
     then (let d = tl s in if d \<noteq> [] \<and> list_all is_digit d \<and> digits_val d \<le> 2 ^ (w - 1)
       then Some (- int (digits_val d)) else None)
     else (let d = (if s \<noteq> [] \<and> hd s = CHR ''+'' then tl s else s) in
       if d \<noteq> [] \<and> list_all is_digit d \<and> digits_val d < 2 ^ (w - 1)
       then Some (int (digits_val d)) else None))"

text \<open>The decimal form of a number, as \<open>Display\<close> prints it.\<close>

fun show_nat :: "nat \<Rightarrow> string" where
  "show_nat n = (if n < 10 then [char_of (48 + n)] else show_nat (n div 10) @ [char_of (48 + n mod 10)])"

declare show_nat.simps [simp del]

definition show_int :: "int \<Rightarrow> string" where
  "show_int i = (if i < 0 then CHR ''-'' # show_nat (nat (- i)) else show_nat (nat i))"

section \<open>Descriptor key origin\<close>

text \<open>\<open>Inl ()\<close> is the panic of the slice when \<open>]\<close> comes before \<open>[\<close>.\<close>

definition get_hd_path_from_descriptor :: "string \<Rightarrow> unit + (string \<times> nat \<times> int) option" where
  "get_hd_path_from_descriptor descriptor = (case (str_find (CHR ''['') descriptor, str_find (CHR '']'') descriptor) of
     (Some lb, Some rb) \<Rightarrow>
       res_bind (ok_or (slice_opt (lb + 1) rb descriptor) ()) (\<lambda>path.
       Inr (case split_on (CHR ''/'') path of
         [p0, p1, p2] \<Rightarrow> (case (parse_uint 32 p1, parse_sint 32 p2) of
             (Some addr_type, Some index) \<Rightarrow> Some (p0, addr_type, index)
           | _ \<Rightarrow> None)
       | _ \<Rightarrow> None))
   | _ \<Rightarrow> Inr None)"

section \<open>Configuration file\<close>

definition unquote :: "string \<Rightarrow> string" where
  "unquote v = (if v \<noteq> [] \<and> hd v = CHR 0x22 then
     (let r = tl v in if r \<noteq> [] \<and> last r = CHR 0x22 then butlast r else v) else v)"

definition parse_toml :: "string \<Rightarrow> (string \<times> string) list" where
  "parse_toml content = foldl (\<lambda>m line. case split_once (CHR ''='') line of
       Some (key, v) \<Rightarrow> AList.update (trim key) (unquote (trim v)) m
     | None \<Rightarrow> m) [] (filter (\<lambda>l. l \<noteq> []) (str_lines content))"

definition parse_field :: "(string \<Rightarrow> 'a option) \<Rightarrow> string option \<Rightarrow> 'a \<Rightarrow> 'a" where
  "parse_field parse v dflt = (case v of None \<Rightarrow> dflt
     | Some s \<Rightarrow> (case parse s of Some x \<Rightarrow> x | None \<Rightarrow> dflt))"

definition parse_proxy_auth :: "string \<Rightarrow> net_error + (string \<times> string)" where
  "parse_proxy_auth s = (case split_on (CHR '':'') s of
     [user, passwd] \<Rightarrow> Inr (user, passwd) | _ \<Rightarrow> Inl NInvalidNetworkAddress)"

section \<open>Descriptor checksum\<close>

definition INPUT_CHARSET :: string where
  "INPUT_CHARSET = ''0123456789()[],'' @ [CHR 0x27] @ ''/*abcdefgh@:$%{}IJKLMNOPQRSTUVWXYZ&+-.;<=>?!^_|~ijklmnopqrstuvwxyzABCDEFGH'' @ [CHR 0x60] @ ''#'' @ [CHR 0x22, CHR 0x5C] @ '' ''"

definition CHECKSUM_CHARSET :: string where
  "CHECKSUM_CHARSET = ''qpzry9x8gf2tvdw0s3jn54khce6mua7l''"

definition FEEDBACK_TERMS :: "(64 word \<times> 64 word) list" where
  "FEEDBACK_TERMS = [(0x1, 0xf5dee51989), (0x2, 0xa9fdca3312), (0x4, 0x1bab10e32d),
     (0x8, 0x3706b1677a), (0x10, 0x644d626ffd)]"

definition polynomial_modulus :: "64 word \<Rightarrow> 64 word \<Rightarrow> 64 word" where
  "polynomial_modulus checksum value =
     (let upper_bits = drop_bit 35 checksum;
          c = xor (push_bit 5 (and checksum 0x7ffffffff)) value in
      foldl (\<lambda>c (bit, term). if and upper_bits bit \<noteq> 0 then xor c term else c) c FEEDBACK_TERMS)"

text \<open>One pass of the character loop over (checksum, accumulated value, group count).\<close>

definition checksum_step :: "64 word \<times> 64 word \<times> nat \<Rightarrow> char \<Rightarrow> wallet_error + (64 word \<times> 64 word \<times> nat)" where
  "checksum_step = (\<lambda>(checksum, accumulated_value, group_count) character.
     res_bind (ok_or (str_find character INPUT_CHARSET) (WProtocol (PGeneral ''Descriptor invalid''))) (\<lambda>position.
     let checksum = polynomial_modulus checksum (and (of_nat position) 31);
         accumulated_value = accumulated_value * 3 + drop_bit 5 (of_nat position);
         group_count = group_count + 1 in
     Inr (if group_count = 3 then (polynomial_modulus checksum accumulated_value, 0, 0)
          else (checksum, accumulated_value, group_count))))"

definition compute_checksum :: "string \<Rightarrow> wallet_error + string" where
  "compute_checksum descriptor =
     res_bind (res_fold checksum_step (1, 0, 0) descriptor) (\<lambda>(checksum, accumulated_value, group_count).
     let checksum = (if group_count > 0 then polynomial_modulus checksum accumulated_value else checksum);
         checksum = ((\<lambda>c. polynomial_modulus c 0) ^^ 8) checksum;
         checksum = xor checksum 1 in
     Inr (map (\<lambda>i. CHECKSUM_CHARSET ! unat (and (drop_bit (5 * (7 - i)) checksum) 31)) [0..<8]))"

end
