(* ===== verification/Fidelity.thy ===== *)
theory Fidelity
  imports Utill
begin

text \<open>
  Fidelity bonds, \<open>wallet/fidelity.rs\<close>: the timelocked bond script and its readers, the
  certificate message, and the checks a taker runs on a maker's proof. What the checks take from
  other crates is the record \<open>fidelity_lib\<close>: the textual forms of the values in the certificate,
  the variable-length integer, double SHA-256 and public BIP32 derivation.
\<close>

record fidelity_lib =
  fl_show_outpoint :: "outpoint \<Rightarrow> string"
  fl_show_pubkey :: "public_key \<Rightarrow> string"
  fl_show_locktime :: "nat \<Rightarrow> string"
  fl_show_amount :: "amount \<Rightarrow> string"
  fl_varint :: "nat \<Rightarrow> bytes"
  fl_sha256d :: "bytes \<Rightarrow> bytes"
  fl_derive_pub :: "point \<Rightarrow> bytes \<Rightarrow> nat list \<Rightarrow> point option"

definition MIN_FIDELITY_TIMELOCK :: nat where "MIN_FIDELITY_TIMELOCK = 12960"
definition MAX_FIDELITY_TIMELOCK :: nat where "MAX_FIDELITY_TIMELOCK = 25920"

text \<open>A locktime below this bound is a height, otherwise a time.\<close>

definition LOCK_TIME_THRESHOLD :: nat where "LOCK_TIME_THRESHOLD = 500000000"

definition string_bytes :: "string \<Rightarrow> bytes" where
  "string_bytes s = map (\<lambda>c. of_nat (of_char c)) s"

definition fidelity_redeemscript :: "btc \<Rightarrow> nat \<Rightarrow> public_key \<Rightarrow> script" where
  "fidelity_redeemscript B lock_time pubkey =
     b_push_key B pubkey @ [0xad] @ b_push_lock_time B lock_time @ [0xb1]"

definition bond_redeem_script :: "btc \<Rightarrow> fidelity_bond \<Rightarrow> script" where
  "bond_redeem_script B b = fidelity_redeemscript B (fb_lock_time b) (fb_pubkey b)"

text \<open>\<open>Inl\<close> is the panic of the \<open>expect\<close>.\<close>

definition bond_script_pub_key :: "btc \<Rightarrow> fidelity_bond \<Rightarrow> fidelity_error + script" where
  "bond_script_pub_key B b = map_err (\<lambda>_. FPanic) (redeemscript_to_scriptpubkey B (bond_redeem_script B b))"

definition generate_cert_hash ::
    "fidelity_lib \<Rightarrow> fidelity_bond \<Rightarrow> string \<Rightarrow> public_key \<Rightarrow> bytes" where
  "generate_cert_hash L b addr tweakable_point =
     (let cert_msg = string_bytes (''fidelity-bond-cert|'' @ fl_show_outpoint L (fb_outpoint b) @ ''|''
            @ fl_show_pubkey L (fb_pubkey b) @ ''|'' @ fl_show_locktime L (fb_lock_time b) @ ''|''
            @ fl_show_amount L (fb_amount b) @ ''|'' @ addr @ ''|'' @ fl_show_pubkey L tweakable_point)
      in fl_sha256d L ([0x18] @ string_bytes ''Bitcoin Signed Message:'' @ [0x0a]
           @ fl_varint L (length cert_msg) @ cert_msg))"

definition verify_fidelity_checks ::
    "btc \<Rightarrow> fidelity_lib \<Rightarrow> fidelity_proof \<Rightarrow> string \<Rightarrow> transaction \<Rightarrow> nat \<Rightarrow> nat \<Rightarrow> public_key \<Rightarrow> bytes
     \<Rightarrow> wallet_error + unit" where
  "verify_fidelity_checks B L proof addr tx current_height confirmation_height tweakable_point tweak_chain_code =
     (let bond = fp_bond proof in
      if fb_conf_height bond \<noteq> Some confirmation_height
      then Inl (WFidelity (FInvalidConfirmationHeight (fb_conf_height bond) confirmation_height))
      else
      res_bind (ok_or (checked_sub (fb_lock_time bond) confirmation_height) (WFidelity FInvalidBondLocktime)) (\<lambda>bond_height.
      if \<not> (MIN_FIDELITY_TIMELOCK \<le> bond_height \<and> bond_height \<le> MAX_FIDELITY_TIMELOCK)
      then Inl (WFidelity FInvalidBondLocktime)
      else let height = current_height mod 2 ^ 32 in
      if LOCK_TIME_THRESHOLD \<le> height then Inl WLocktime
      else if fb_lock_time bond < LOCK_TIME_THRESHOLD \<and> height > fb_lock_time bond
      then Inl (WFidelity FBondLocktimeExpired)
      else if fp_cert_hash proof \<noteq> generate_cert_hash L bond addr tweakable_point
      then Inl (WFidelity FInvalidCertHash)
      else
      res_bind (ok_or (fl_derive_pub L (pk_inner tweakable_point) tweak_chain_code [2, fb_bond_index bond]) WBIP32) (\<lambda>derived.
      if derived \<noteq> pk_inner (fb_pubkey bond)
      then Inl (WGeneral ''Fidelity bond does not correspond to the provided tweak point'')
      else
      res_bind (map_err WProtocol (redeemscript_to_scriptpubkey B
        (fidelity_redeemscript B (fb_lock_time bond) (fb_pubkey bond)))) (\<lambda>derived_script_pubkey.
      res_bind (ok_or (nth_opt (tx_output tx) (op_vout (fb_outpoint bond))) (WGeneral ''Outputs index error'')) (\<lambda>tx_out.
      if to_spk tx_out \<noteq> derived_script_pubkey then Inl (WFidelity FBondDoesNotExist)
      else if to_value tx_out \<noteq> fb_amount bond then Inl (WFidelity (FGeneral ''Bond amount mismatch''))
      else ensure (b_verify B (fp_cert_hash proof) (fp_cert_sig proof) (pk_inner (fb_pubkey bond))) WSecp)))))"

text \<open>\<open>u4slice[..len]\<close> panics on a push longer than four bytes.\<close>

definition read_locktime_from_fidelity_script :: "btc \<Rightarrow> script \<Rightarrow> fidelity_error + nat" where
  "read_locktime_from_fidelity_script B redeemscript = (case nth_opt (b_instructions B redeemscript) 2 of
     Some (Some (PushBytes locktime_bytes)) \<Rightarrow>
       if length locktime_bytes \<le> 4 then Inr (le_value locktime_bytes) else Inl FPanic
   | _ \<Rightarrow> Inl FWrongScriptType)"

definition read_pubkey_from_fidelity_script :: "btc \<Rightarrow> script \<Rightarrow> fidelity_error + public_key" where
  "read_pubkey_from_fidelity_script B redeemscript = (case nth_opt (b_instructions B redeemscript) 0 of
     Some (Some (PushBytes pubkey_bytes)) \<Rightarrow> ok_or (b_pubkey_from_slice B pubkey_bytes) (FGeneral [])
   | _ \<Rightarrow> Inl FWrongScriptType)"

section \<open>Properties\<close>

lemma push_lock_time_instr:
  assumes B: "script_lib B" and "lt < 2 ^ 31"
  shows "b_instructions B (b_push_lock_time B lt @ s) = Some (int_instr lt) # b_instructions B s"
proof (cases "lt \<le> 16")
  case True
  then show ?thesis
    using script_lib.instructions_push_int [OF B, of lt] by (simp add: script_lib.push_lock_time [OF B])
next
  case False
  then show ?thesis
    using script_num_length_4 [OF assms(2)] script_lib.instructions_push_slice [OF B, of "script_num lt"]
    by (simp add: script_lib.push_lock_time [OF B] script_lib.push_int_large [OF B] int_instr_def)
qed

lemma fidelity_instructions:
  assumes B: "script_lib B" and k: "good_key B k" and lt: "lt < 2 ^ 31"
  shows "b_instructions B (fidelity_redeemscript B lt k) =
    map Some [PushBytes (pk_inner k), Op 0xad, int_instr lt, Op 0xb1]"
  using lt unfolding fidelity_redeemscript_def
  by (simp add: good_key_instr [OF B k] push_lock_time_instr [OF B] script_lib.instructions_op [OF B]
      script_lib.instructions_nil [OF B])

text \<open>
  The bond script reads back: the key for every locktime, and the locktime for every height
  above 16 (smaller ones are opcode pushes, which the reader refuses).
\<close>

lemma fidelity_script_roundtrip:
  assumes "script_lib B" "good_key B k" "lt < 2 ^ 31"
  shows "read_pubkey_from_fidelity_script B (fidelity_redeemscript B lt k) = Inr k
    \<and> (16 < lt \<longrightarrow> read_locktime_from_fidelity_script B (fidelity_redeemscript B lt k) = Inr lt)"
  using assms(2) script_num_length_4 [OF assms(3)]
  by (simp add: read_pubkey_from_fidelity_script_def read_locktime_from_fidelity_script_def
      fidelity_instructions [OF assms] nth_opt_def good_key_def int_instr_def le_value_script_num)

lemma fidelity_script_roundtrip_witness:
  "read_locktime_from_fidelity_script sample_lib
     (fidelity_redeemscript sample_lib 860000 (compressed_key (2 # replicate 32 4))) = Inr 860000"
  using fidelity_script_roundtrip [OF sample_script.script_lib_axioms sample_good_key, of "replicate 32 4" 860000]
  by simp

text \<open>
  What an accepted fidelity proof guarantees: the claimed confirmation height is the chain's,
  the lock is between \<open>MIN_FIDELITY_TIMELOCK\<close> and \<open>MAX_FIDELITY_TIMELOCK\<close> blocks after it and not
  yet past, the bond output exists in the transaction with exactly the claimed value and the bond's
  script, the bond key derives from the offered tweakable point, and the certificate over outpoint,
  key, locktime, amount, address and tweakable point is signed by the bond key. Conversely these
  facts are all that is checked.
\<close>

lemma fidelity_checks_iff:
  assumes "current_height < 2 ^ 32"
  shows "verify_fidelity_checks B L proof addr tx current_height conf P cc = Inr () \<longleftrightarrow>
    (let bond = fp_bond proof in
     fb_conf_height bond = Some conf
     \<and> conf + MIN_FIDELITY_TIMELOCK \<le> fb_lock_time bond \<and> fb_lock_time bond \<le> conf + MAX_FIDELITY_TIMELOCK
     \<and> current_height < LOCK_TIME_THRESHOLD
     \<and> (fb_lock_time bond < LOCK_TIME_THRESHOLD \<longrightarrow> current_height \<le> fb_lock_time bond)
     \<and> fp_cert_hash proof = generate_cert_hash L bond addr P
     \<and> fl_derive_pub L (pk_inner P) cc [2, fb_bond_index bond] = Some (pk_inner (fb_pubkey bond))
     \<and> op_vout (fb_outpoint bond) < length (tx_output tx)
     \<and> redeemscript_to_scriptpubkey B (bond_redeem_script B bond)
         = Inr (to_spk (tx_output tx ! op_vout (fb_outpoint bond)))
     \<and> to_value (tx_output tx ! op_vout (fb_outpoint bond)) = fb_amount bond
     \<and> b_verify B (fp_cert_hash proof) (fp_cert_sig proof) (pk_inner (fb_pubkey bond)))"
  using assms
  by (auto simp: verify_fidelity_checks_def Let_def res_simps checked_sub_Some_iff nth_opt_Some_iff
      bond_redeem_script_def MIN_FIDELITY_TIMELOCK_def MAX_FIDELITY_TIMELOCK_def split: if_splits)

definition sample_fidelity_lib :: fidelity_lib where
  "sample_fidelity_lib = \<lparr>fl_show_outpoint = (\<lambda>_. ''o''), fl_show_pubkey = (\<lambda>_. ''k''), fl_show_locktime = (\<lambda>_. ''t''),
     fl_show_amount = (\<lambda>_. ''a''), fl_varint = (\<lambda>n. [of_nat n]), fl_sha256d = fit 32,
     fl_derive_pub = (\<lambda>p cc path. Some (2 # replicate 32 4))\<rparr>"

definition sample_bond :: fidelity_bond where
  "sample_bond = \<lparr>fb_outpoint = \<lparr>op_txid = [1], op_vout = 0\<rparr>, fb_amount = 5000, fb_lock_time = 820000,
     fb_pubkey = compressed_key (2 # replicate 32 4), fb_conf_height = Some 800000, fb_is_spent = False,
     fb_bond_index = 0, fb_tx = None\<rparr>"

definition sample_proof :: fidelity_proof where
  "sample_proof = (let h = generate_cert_hash sample_fidelity_lib sample_bond ''x.onion'' (compressed_key [2]) in
     \<lparr>fp_bond = sample_bond, fp_cert_hash = h, fp_cert_sig = b_sign sample_lib h (replicate 32 4)\<rparr>)"

lemma sample_witness_program: "redeemscript_to_scriptpubkey sample_lib rs = Inr (0 # push_slice_c (fit 32 rs))"
  by (simp add: redeemscript_to_scriptpubkey_def sample_lib_def fit_def push_int_c_def)

lemma fidelity_checks_iff_witness:
  "verify_fidelity_checks sample_lib sample_fidelity_lib sample_proof ''x.onion''
     \<lparr>tx_version = 2, tx_lock_time = 0, tx_input = [],
      tx_output = [\<lparr>to_value = 5000, to_spk = 0 # push_slice_c (fit 32 (bond_redeem_script sample_lib sample_bond))\<rparr>]\<rparr>
     810000 800000 (compressed_key [2]) [] = Inr ()"
  using fidelity_checks_iff [of 810000]
  by (simp add: sample_witness_program sample_proof_def sample_bond_def sample_fidelity_lib_def Let_def
      MIN_FIDELITY_TIMELOCK_def MAX_FIDELITY_TIMELOCK_def LOCK_TIME_THRESHOLD_def
      sample_keys.sign_verify [of _ "replicate 32 4", simplified])

end
