(* ===== verification/WalletStore.thy ===== *)
theory WalletStore
  imports Fidelity
begin

text \<open>
  The wallet's store (\<open>wallet/api.rs\<close>, \<open>wallet/storage.rs\<close>): the swap coin maps keyed by
  contract txid, the cache that binds a funding outpoint to the contract approved for it, the
  UTXO cache with its classification of every output, balances and the fidelity bond list. A
  \<open>HashMap\<close> is an association list with distinct keys. \<open>wstore_ok\<close> is the store's invariant.
\<close>

section \<open>The store\<close>

datatype address_type = P2WPKH | P2TR

datatype utxo_spend_info =
    SeedCoin string amount address_type
  | IncomingSwapCoin script
  | OutgoingSwapCoin script
  | TimelockContract script amount
  | HashlockContract script amount
  | FidelityBondCoin nat amount
  | SweptCoin string amount address_type

record utxo =
  ut_txid :: txid
  ut_vout :: nat
  ut_spk :: script
  ut_amount :: amount
  ut_witness_script :: "script option"
  ut_descriptor :: "string option"

definition ut_outpoint :: "utxo \<Rightarrow> outpoint" where
  "ut_outpoint u = \<lparr>op_txid = ut_txid u, op_vout = ut_vout u\<rparr>"

record wallet_store =
  ws_incoming :: "(txid \<times> incoming_swapcoin) list"
  ws_outgoing :: "(txid \<times> outgoing_swapcoin) list"
  ws_watchonly :: "(swap_id \<times> watch_only_swapcoin list) list"
  ws_prevout_to_contract :: "(outpoint \<times> script) list"
  ws_swept :: "script list"
  ws_fidelity_bond :: "fidelity_bond list"
  ws_offer_maxsize :: nat
  ws_external_index :: nat
  ws_internal_index :: nat
  ws_last_synced_height :: "nat option"
  ws_wallet_birthday :: "nat option"
  ws_utxo_cache :: "(outpoint \<times> utxo \<times> utxo_spend_info) list"

text \<open>
  The wallet adds the copy of the store on disk (\<open>None\<close> before the first save), whether a write
  to disk succeeds, and the set of outpoints locked against coin selection.
\<close>

record wallet =
  w_store :: wallet_store
  w_disk :: "wallet_store option"
  w_disk_ok :: bool
  w_locked_utxos :: "outpoint list"

definition save_to_disk :: "(wallet, wallet_error, unit) act" where
  "save_to_disk w = (if w_disk_ok w then (Inr (), w\<lparr>w_disk := Some (w_store w)\<rparr>) else (Inl WIO, w))"

section \<open>Swap coins\<close>

definition add_incoming_swapcoin :: "btc \<Rightarrow> incoming_swapcoin \<Rightarrow> wallet_store \<Rightarrow> wallet_store" where
  "add_incoming_swapcoin B coin s =
     s\<lparr>ws_incoming := AList.update (b_txid B (inc_contract_tx coin)) coin (ws_incoming s)\<rparr>"

definition add_outgoing_swapcoin :: "btc \<Rightarrow> outgoing_swapcoin \<Rightarrow> wallet_store \<Rightarrow> wallet_store" where
  "add_outgoing_swapcoin B coin s =
     s\<lparr>ws_outgoing := AList.update (b_txid B (og_contract_tx coin)) coin (ws_outgoing s)\<rparr>"

definition find_incoming_swapcoin :: "txid \<Rightarrow> wallet_store \<Rightarrow> incoming_swapcoin option" where
  "find_incoming_swapcoin contract_txid s = map_of (ws_incoming s) contract_txid"

text \<open>\<open>find_incoming_swapcoin_mut\<close> with the change \<open>f\<close> the caller makes through the reference.\<close>

definition find_incoming_swapcoin_mut ::
    "txid \<Rightarrow> (incoming_swapcoin \<Rightarrow> incoming_swapcoin) \<Rightarrow> wallet_store \<Rightarrow> wallet_store" where
  "find_incoming_swapcoin_mut contract_txid f s = (case map_of (ws_incoming s) contract_txid of
     None \<Rightarrow> s
   | Some c \<Rightarrow> s\<lparr>ws_incoming := AList.update contract_txid (f c) (ws_incoming s)\<rparr>)"

definition matches_multisig ::
    "btc \<Rightarrow> protocol_version \<Rightarrow> public_key option \<Rightarrow> public_key option \<Rightarrow> script \<Rightarrow> bool" where
  "matches_multisig B protocol my_pubkey other_pubkey rs \<longleftrightarrow> protocol = Legacy \<and>
     (case (my_pubkey, other_pubkey) of
        (Some my, Some other) \<Rightarrow> create_multisig_redeemscript B my other = rs
      | _ \<Rightarrow> False)"

definition find_outgoing_swapcoin_by_multisig :: "btc \<Rightarrow> script \<Rightarrow> wallet_store \<Rightarrow> outgoing_swapcoin option" where
  "find_outgoing_swapcoin_by_multisig B rs s =
     find (\<lambda>c. matches_multisig B (og_protocol c) (og_my_pubkey c) (og_other_pubkey c) rs) (map snd (ws_outgoing s))"

definition find_incoming_swapcoin_by_multisig :: "btc \<Rightarrow> script \<Rightarrow> wallet_store \<Rightarrow> incoming_swapcoin option" where
  "find_incoming_swapcoin_by_multisig B rs s =
     find (\<lambda>c. matches_multisig B (inc_protocol c) (inc_my_pubkey c) (inc_other_pubkey c) rs) (map snd (ws_incoming s))"

definition remove_incoming_swapcoin :: "txid \<Rightarrow> wallet_store \<Rightarrow> incoming_swapcoin option \<times> wallet_store" where
  "remove_incoming_swapcoin contract_txid s =
     (map_of (ws_incoming s) contract_txid, s\<lparr>ws_incoming := AList.delete contract_txid (ws_incoming s)\<rparr>)"

definition remove_outgoing_swapcoin :: "txid \<Rightarrow> wallet_store \<Rightarrow> wallet_store" where
  "remove_outgoing_swapcoin contract_txid s = s\<lparr>ws_outgoing := AList.delete contract_txid (ws_outgoing s)\<rparr>"

definition add_watchonly_swapcoins :: "swap_id \<Rightarrow> watch_only_swapcoin list \<Rightarrow> wallet_store \<Rightarrow> wallet_store" where
  "add_watchonly_swapcoins swap_id coins s =
     (let old = (case map_of (ws_watchonly s) swap_id of None \<Rightarrow> [] | Some cs \<Rightarrow> cs) in
      s\<lparr>ws_watchonly := AList.update swap_id (old @ coins) (ws_watchonly s)\<rparr>)"

definition remove_watchonly_swapcoins ::
    "swap_id \<Rightarrow> wallet_store \<Rightarrow> watch_only_swapcoin list option \<times> wallet_store" where
  "remove_watchonly_swapcoins swap_id s =
     (map_of (ws_watchonly s) swap_id, s\<lparr>ws_watchonly := AList.delete swap_id (ws_watchonly s)\<rparr>)"

text \<open>The three outpoint lists index the contract output and panic when it is missing: \<open>None\<close>.\<close>

definition coin_outpoint :: "btc \<Rightarrow> transaction \<Rightarrow> nat \<Rightarrow> (outpoint \<times> script) option" where
  "coin_outpoint B tx vout = map_option (\<lambda>out. (\<lparr>op_txid = b_txid B tx, op_vout = vout\<rparr>, to_spk out))
     (nth_opt (tx_output tx) vout)"

definition outgoing_contract_outpoints :: "btc \<Rightarrow> wallet_store \<Rightarrow> (outpoint \<times> script) option list" where
  "outgoing_contract_outpoints B s =
     map (\<lambda>(_, c). coin_outpoint B (og_contract_tx c) (og_get_contract_output_vout c)) (ws_outgoing s)"

definition incoming_contract_outpoints :: "btc \<Rightarrow> wallet_store \<Rightarrow> (outpoint \<times> script) option list" where
  "incoming_contract_outpoints B s =
     map (\<lambda>(_, c). coin_outpoint B (inc_contract_tx c) (inc_get_contract_output_vout c)) (ws_incoming s)"

definition watchonly_contract_outpoints :: "btc \<Rightarrow> wallet_store \<Rightarrow> (outpoint \<times> script) option list" where
  "watchonly_contract_outpoints B s =
     map (\<lambda>c. let outs = tx_output (wo_contract_tx c);
                  i = length (takeWhile (\<lambda>out. to_value out \<noteq> wo_funding_amount c) outs) in
       coin_outpoint B (wo_contract_tx c) (if i < length outs then i else 0)) (concat (map snd (ws_watchonly s)))"

definition outgoing_keys_for_swap :: "swap_id \<Rightarrow> wallet_store \<Rightarrow> txid list" where
  "outgoing_keys_for_swap swap_id s = map fst (filter (\<lambda>(_, c). og_swap_id c = Some swap_id) (ws_outgoing s))"

definition find_unfinished_swapcoins :: "wallet_store \<Rightarrow> incoming_swapcoin list \<times> outgoing_swapcoin list" where
  "find_unfinished_swapcoins s =
     (filter (\<lambda>c. inc_other_privkey c = None) (map snd (ws_incoming s)),
      filter (\<lambda>c. og_hash_preimage c = None) (map snd (ws_outgoing s)))"

section \<open>The prevout cache\<close>

definition ensure_prevout_matches_cached_contract :: "outpoint \<Rightarrow> script \<Rightarrow> wallet_store \<Rightarrow> wallet_error + unit" where
  "ensure_prevout_matches_cached_contract prevout contract_scriptpubkey s =
     (case map_of (ws_prevout_to_contract s) prevout of
        Some cached \<Rightarrow> if cached = contract_scriptpubkey then Inr ()
          else Inl (WGeneral ''Provided contract does not match the cached sender contract'')
      | None \<Rightarrow> Inl (WGeneral ''No cached sender contract for funding prevout''))"

definition may_bind :: "(outpoint \<times> script) list \<Rightarrow> outpoint \<times> script \<Rightarrow> bool" where
  "may_bind m = (\<lambda>(prevout, contract). case map_of m prevout of None \<Rightarrow> True | Some cached \<Rightarrow> cached = contract)"

definition cache_prevout_to_contract :: "(outpoint \<times> script) list \<Rightarrow> (wallet, wallet_error, unit) act" where
  "cache_prevout_to_contract bindings =
     act_bind (act_get w_store) (\<lambda>s.
     act_bind (act_lift (res_all (\<lambda>b. ensure (may_bind (ws_prevout_to_contract s) b)
       (WGeneral ''Refusing to rebind funding prevout to a different contract'')) bindings)) (\<lambda>_.
     act_bind (act_upd (\<lambda>w. w\<lparr>w_store := s\<lparr>ws_prevout_to_contract :=
       fold (\<lambda>(p, c). AList.update p c) bindings (ws_prevout_to_contract s)\<rparr>\<rparr>)) (\<lambda>_.
     save_to_disk)))"

section \<open>Classifying outputs\<close>

record hd_origin =
  hd_fingerprint :: string
  hd_keychain_idx :: nat
  hd_index :: nat
  hd_is_taproot :: bool

text \<open>
  What the classification asks outside the store: the backend's record of the key origin of a
  script, and the fingerprint of the account key of an address type.
\<close>

record wallet_env =
  we_hd_origin :: "script \<Rightarrow> hd_origin option"
  we_account_fingerprint :: "address_type \<Rightarrow> wallet_error + string"

fun check_if_fidelity_from :: "btc \<Rightarrow> nat \<Rightarrow> fidelity_bond list \<Rightarrow> utxo \<Rightarrow> wallet_error + utxo_spend_info option" where
  "check_if_fidelity_from B i [] u = Inr None"
| "check_if_fidelity_from B i (b # bs) u =
     res_bind (map_err (\<lambda>_. WPanic) (bond_script_pub_key B b)) (\<lambda>spk.
     if spk = ut_spk u \<and> fb_amount b = ut_amount u then Inr (Some (FidelityBondCoin i (fb_amount b)))
     else check_if_fidelity_from B (i + 1) bs u)"

definition check_if_fidelity :: "btc \<Rightarrow> wallet_store \<Rightarrow> utxo \<Rightarrow> wallet_error + utxo_spend_info option" where
  "check_if_fidelity B s u = check_if_fidelity_from B 0 (ws_fidelity_bond s) u"

definition descriptor_address_type :: "string \<Rightarrow> address_type" where
  "descriptor_address_type d = (if take 3 d = ''tr('' then P2TR else P2WPKH)"

definition hd_address_type :: "hd_origin \<Rightarrow> address_type" where
  "hd_address_type origin = (if hd_is_taproot origin then P2TR else P2WPKH)"

definition check_if_swept_incoming_swapcoin ::
    "wallet_env \<Rightarrow> wallet_store \<Rightarrow> utxo \<Rightarrow> wallet_error + utxo_spend_info option" where
  "check_if_swept_incoming_swapcoin env s u =
     (if ut_spk u \<notin> set (ws_swept s) then Inr None
      else
      res_bind (case ut_descriptor u of
          None \<Rightarrow> Inr None
        | Some d \<Rightarrow> map_err (\<lambda>_. WPanic) (get_hd_path_from_descriptor d)) (\<lambda>parsed.
      Inr (case (ut_descriptor u, parsed) of
          (Some d, Some (_, addr_type, index)) \<Rightarrow>
            Some (SweptCoin (''m/'' @ show_nat addr_type @ ''/'' @ show_int index) (ut_amount u) (descriptor_address_type d))
        | _ \<Rightarrow> (case we_hd_origin env (ut_spk u) of
            Some origin \<Rightarrow> Some (SweptCoin (''m/'' @ show_nat (hd_keychain_idx origin) @ ''/'' @ show_nat (hd_index origin))
              (ut_amount u) (hd_address_type origin))
          | None \<Rightarrow> None))))"

definition check_and_derive_live_contract_spend_info ::
    "btc \<Rightarrow> wallet_store \<Rightarrow> utxo \<Rightarrow> utxo_spend_info option" where
  "check_and_derive_live_contract_spend_info B s u =
     (case find (\<lambda>c. ut_txid u = b_txid B (og_contract_tx c) \<and> ut_vout u = og_get_contract_output_vout c)
        (map snd (ws_outgoing s)) of
        Some c \<Rightarrow> Some (TimelockContract (case og_contract_redeemscript c of Some r \<Rightarrow> r | None \<Rightarrow> []) (ut_amount u))
      | None \<Rightarrow>
        (case find (\<lambda>c. ut_txid u = b_txid B (inc_contract_tx c) \<and> ut_vout u = inc_get_contract_output_vout c
             \<and> inc_is_preimage_known c) (map snd (ws_incoming s)) of
           Some c \<Rightarrow> Some (HashlockContract (case inc_contract_redeemscript c of Some r \<Rightarrow> r | None \<Rightarrow> []) (ut_amount u))
         | None \<Rightarrow> None))"

text \<open>\<open>ScriptBuf::new_p2wsh\<close> is the witness program of version 0.\<close>

definition match_rs :: "btc \<Rightarrow> script \<Rightarrow> public_key option \<Rightarrow> public_key option \<Rightarrow> script option" where
  "match_rs B spk my other = (case (my, other) of
     (Some m, Some p) \<Rightarrow> (let rs = create_multisig_redeemscript B m p in
        if b_witness_program B 0 (b_wscript_hash B rs) = Some spk then Some rs else None)
   | _ \<Rightarrow> None)"

fun first_some :: "('a \<Rightarrow> 'b option) \<Rightarrow> 'a list \<Rightarrow> 'b option" where
  "first_some f [] = None"
| "first_some f (x # xs) = (case f x of Some y \<Rightarrow> Some y | None \<Rightarrow> first_some f xs)"

definition electrum_swap_coin :: "btc \<Rightarrow> wallet_store \<Rightarrow> utxo \<Rightarrow> utxo_spend_info option" where
  "electrum_swap_coin B s u =
     (case first_some (\<lambda>c. if inc_protocol c = Legacy \<and> inc_other_privkey c \<noteq> None
          then match_rs B (ut_spk u) (inc_my_pubkey c) (inc_other_pubkey c) else None) (map snd (ws_incoming s)) of
        Some rs \<Rightarrow> Some (IncomingSwapCoin rs)
      | None \<Rightarrow> map_option OutgoingSwapCoin
          (first_some (\<lambda>c. if og_protocol c = Legacy \<and> og_hash_preimage c \<noteq> None
             then match_rs B (ut_spk u) (og_my_pubkey c) (og_other_pubkey c) else None) (map snd (ws_outgoing s))))"

definition core_swap_coin :: "btc \<Rightarrow> wallet_store \<Rightarrow> utxo \<Rightarrow> wallet_error + utxo_spend_info option" where
  "core_swap_coin B s u =
     (let witness_script = (case ut_witness_script u of Some r \<Rightarrow> r | None \<Rightarrow> []) in
      if (case find_incoming_swapcoin_by_multisig B witness_script s of
            Some c \<Rightarrow> inc_other_privkey c \<noteq> None | None \<Rightarrow> False)
      then res_bind (ok_or (ut_witness_script u) WPanic) (\<lambda>r. Inr (Some (IncomingSwapCoin r)))
      else if (case find_outgoing_swapcoin_by_multisig B witness_script s of
            Some c \<Rightarrow> og_hash_preimage c \<noteq> None | None \<Rightarrow> False)
      then res_bind (ok_or (ut_witness_script u) WPanic) (\<lambda>r. Inr (Some (OutgoingSwapCoin r)))
      else Inr None)"

text \<open>The tail of the classification, on the descriptor Bitcoin Core reports.\<close>

definition descriptor_utxo :: "btc \<Rightarrow> wallet_env \<Rightarrow> wallet_store \<Rightarrow> utxo \<Rightarrow> wallet_error + utxo_spend_info option" where
  "descriptor_utxo B env s u = (case ut_descriptor u of
     None \<Rightarrow> Inr None
   | Some d \<Rightarrow>
     res_bind (map_err (\<lambda>_. WPanic) (get_hd_path_from_descriptor d)) (\<lambda>parsed. case parsed of
       Some (fingerprint, addr_type, index) \<Rightarrow>
         res_bind (we_account_fingerprint env (descriptor_address_type d)) (\<lambda>account_fingerprint.
         Inr (if fingerprint = account_fingerprint
           then Some (SeedCoin (''m/'' @ show_nat addr_type @ ''/'' @ show_int index) (ut_amount u) (descriptor_address_type d))
           else None))
     | None \<Rightarrow> core_swap_coin B s u))"

definition check_and_derive_descriptor_utxo_or_swap_coin ::
    "btc \<Rightarrow> wallet_env \<Rightarrow> wallet_store \<Rightarrow> utxo \<Rightarrow> wallet_error + utxo_spend_info option" where
  "check_and_derive_descriptor_utxo_or_swap_coin B env s u =
     res_bind (check_if_swept_incoming_swapcoin env s u) (\<lambda>swept. case swept of
       Some info \<Rightarrow> Inr (Some info)
     | None \<Rightarrow>
       res_bind (case we_hd_origin env (ut_spk u) of
           None \<Rightarrow> Inr None
         | Some origin \<Rightarrow> res_bind (we_account_fingerprint env (hd_address_type origin)) (\<lambda>fp.
             Inr (if hd_fingerprint origin = fp
               then Some (SeedCoin (''m/'' @ show_nat (hd_keychain_idx origin) @ ''/'' @ show_nat (hd_index origin))
                 (ut_amount u) (hd_address_type origin))
               else None))) (\<lambda>seed. case seed of
         Some info \<Rightarrow> Inr (Some info)
       | None \<Rightarrow>
         (case (if ut_witness_script u = None then electrum_swap_coin B s u else None) of
            Some info \<Rightarrow> Inr (Some info)
          | None \<Rightarrow> descriptor_utxo B env s u)))"

text \<open>The order in which \<open>update_utxo_cache\<close> asks the classifiers.\<close>

definition classify_utxo :: "btc \<Rightarrow> wallet_env \<Rightarrow> wallet_store \<Rightarrow> utxo \<Rightarrow> wallet_error + utxo_spend_info option" where
  "classify_utxo B env s u = res_bind (check_if_fidelity B s u) (\<lambda>fidelity. case fidelity of
     Some info \<Rightarrow> Inr (Some info)
   | None \<Rightarrow> (case check_and_derive_live_contract_spend_info B s u of
       Some info \<Rightarrow> Inr (Some info)
     | None \<Rightarrow> check_and_derive_descriptor_utxo_or_swap_coin B env s u))"

definition new_utxo_entries ::
    "btc \<Rightarrow> wallet_env \<Rightarrow> wallet_store \<Rightarrow> utxo list \<Rightarrow> wallet_error + (outpoint \<times> utxo \<times> utxo_spend_info) list" where
  "new_utxo_entries B env s utxos = res_fold (\<lambda>new_entries u.
     if ut_outpoint u \<in> set (map fst (ws_utxo_cache s)) then Inr new_entries
     else res_bind (classify_utxo B env s u) (\<lambda>info.
       Inr (case info of Some i \<Rightarrow> new_entries @ [(ut_outpoint u, u, i)] | None \<Rightarrow> new_entries))) [] utxos"

definition retain_utxos :: "utxo list \<Rightarrow> wallet_store \<Rightarrow> wallet_store" where
  "retain_utxos utxos s =
     s\<lparr>ws_utxo_cache := filter (\<lambda>(p, _). p \<in> set (map ut_outpoint utxos)) (ws_utxo_cache s)\<rparr>"

definition insert_utxos :: "(outpoint \<times> utxo \<times> utxo_spend_info) list \<Rightarrow> wallet_store \<Rightarrow> wallet_store" where
  "insert_utxos new_entries s =
     s\<lparr>ws_utxo_cache := fold (\<lambda>(p, e). AList.update p e) new_entries (ws_utxo_cache s)\<rparr>"

definition update_utxo_cache :: "btc \<Rightarrow> wallet_env \<Rightarrow> utxo list \<Rightarrow> (wallet_store, wallet_error, unit) act" where
  "update_utxo_cache B env utxos s =
     (let s1 = retain_utxos utxos s in
      case new_utxo_entries B env s1 utxos of
        Inl e \<Rightarrow> (Inl e, s1)
      | Inr new_entries \<Rightarrow> (Inr (), insert_utxos new_entries s1))"

definition lock_unspendable_utxos ::
    "btc \<Rightarrow> wallet_env \<Rightarrow> wallet_error + utxo list \<Rightarrow> (wallet, wallet_error, unit) act" where
  "lock_unspendable_utxos B env all_unspents w =
     (let w1 = w\<lparr>w_locked_utxos := []\<rparr> in
      case res_bind all_unspents (\<lambda>us. res_fold (\<lambda>acc u.
          res_bind (check_and_derive_descriptor_utxo_or_swap_coin B env (w_store w1) u) (\<lambda>info.
          Inr (if info = None then acc @ [ut_outpoint u] else acc))) [] us) of
        Inl e \<Rightarrow> (Inl e, w1)
      | Inr locked \<Rightarrow> (Inr (), w1\<lparr>w_locked_utxos := locked\<rparr>))"

section \<open>Balances\<close>

record balances =
  bal_regular :: amount
  bal_swap :: amount
  bal_contract :: amount
  bal_fidelity :: amount
  bal_spendable :: amount

definition list_all_utxo_spend_info :: "wallet_store \<Rightarrow> (utxo \<times> utxo_spend_info) list" where
  "list_all_utxo_spend_info s = map snd (ws_utxo_cache s)"

definition list_descriptor_utxo_spend_info :: "wallet_store \<Rightarrow> (utxo \<times> utxo_spend_info) list" where
  "list_descriptor_utxo_spend_info s =
     filter (\<lambda>(_, i). case i of SeedCoin _ _ _ \<Rightarrow> True | _ \<Rightarrow> False) (list_all_utxo_spend_info s)"

definition list_live_timelock_contract_spend_info :: "wallet_store \<Rightarrow> (utxo \<times> utxo_spend_info) list" where
  "list_live_timelock_contract_spend_info s =
     filter (\<lambda>(_, i). case i of TimelockContract _ _ \<Rightarrow> True | _ \<Rightarrow> False) (list_all_utxo_spend_info s)"

definition list_live_hashlock_contract_spend_info :: "wallet_store \<Rightarrow> (utxo \<times> utxo_spend_info) list" where
  "list_live_hashlock_contract_spend_info s =
     filter (\<lambda>(_, i). case i of HashlockContract _ _ \<Rightarrow> True | _ \<Rightarrow> False) (list_all_utxo_spend_info s)"

definition list_live_contract_spend_info :: "wallet_store \<Rightarrow> (utxo \<times> utxo_spend_info) list" where
  "list_live_contract_spend_info s =
     filter (\<lambda>(_, i). case i of HashlockContract _ _ \<Rightarrow> True | TimelockContract _ _ \<Rightarrow> True | _ \<Rightarrow> False)
       (list_all_utxo_spend_info s)"

definition list_fidelity_spend_info :: "wallet_store \<Rightarrow> (utxo \<times> utxo_spend_info) list" where
  "list_fidelity_spend_info s =
     filter (\<lambda>(_, i). case i of FidelityBondCoin _ _ \<Rightarrow> True | _ \<Rightarrow> False) (list_all_utxo_spend_info s)"

definition list_swap_coin_utxo_spend_info :: "wallet_store \<Rightarrow> (utxo \<times> utxo_spend_info) list" where
  "list_swap_coin_utxo_spend_info s =
     filter (\<lambda>(_, i). case i of IncomingSwapCoin _ \<Rightarrow> True | OutgoingSwapCoin _ \<Rightarrow> True | _ \<Rightarrow> False)
       (list_all_utxo_spend_info s)"

definition list_incoming_swap_coin_utxo_spend_info :: "wallet_store \<Rightarrow> (utxo \<times> utxo_spend_info) list" where
  "list_incoming_swap_coin_utxo_spend_info s =
     filter (\<lambda>(_, i). case i of IncomingSwapCoin _ \<Rightarrow> True | _ \<Rightarrow> False) (list_all_utxo_spend_info s)"

definition list_swept_incoming_swap_utxos :: "wallet_store \<Rightarrow> (utxo \<times> utxo_spend_info) list" where
  "list_swept_incoming_swap_utxos s =
     filter (\<lambda>(_, i). case i of SweptCoin _ _ _ \<Rightarrow> True | _ \<Rightarrow> False) (list_all_utxo_spend_info s)"

text \<open>\<open>Amount\<close> addition panics above \<open>u64::MAX\<close>.\<close>

definition sum_utxo_amounts :: "(utxo \<times> utxo_spend_info) list \<Rightarrow> wallet_error + amount" where
  "sum_utxo_amounts us = res_fold (\<lambda>sum (u, _). ok_or (checked_add 64 sum (ut_amount u)) WPanic) 0 us"

definition get_balances :: "wallet_store \<Rightarrow> wallet_error + balances" where
  "get_balances s =
     res_bind (sum_utxo_amounts (list_descriptor_utxo_spend_info s)) (\<lambda>regular.
     res_bind (sum_utxo_amounts (list_live_timelock_contract_spend_info s)) (\<lambda>contract.
     res_bind (sum_utxo_amounts (list_swept_incoming_swap_utxos s)) (\<lambda>swap.
     res_bind (sum_utxo_amounts (list_fidelity_spend_info s)) (\<lambda>fidelity.
     res_bind (ok_or (checked_add 64 regular swap) WPanic) (\<lambda>spendable.
     Inr \<lparr>bal_regular = regular, bal_swap = swap, bal_contract = contract, bal_fidelity = fidelity,
       bal_spendable = spendable\<rparr>)))))"

definition refresh_offer_maxsize_cache :: "(wallet_store, wallet_error, unit) act" where
  "refresh_offer_maxsize_cache s = (case get_balances s of
     Inl e \<Rightarrow> (Inl e, s)
   | Inr b \<Rightarrow> (Inr (), s\<lparr>ws_offer_maxsize := max (bal_swap b) (bal_regular b)\<rparr>))"

section \<open>The store as a keyed collection of coins\<close>

text \<open>
  What the clients of the store use: coins are filed under their contract txid, a lookup finds the
  last coin filed under a key, and filing or removing one coin leaves the others alone.
\<close>

locale coin_store =
  fixes key :: "'c \<Rightarrow> txid"
    and add :: "'c \<Rightarrow> 's \<Rightarrow> 's"
    and lookup :: "txid \<Rightarrow> 's \<Rightarrow> 'c option"
    and remove :: "txid \<Rightarrow> 's \<Rightarrow> 's"
  assumes lookup_add: "lookup k (add c s) = (if k = key c then Some c else lookup k s)"
    and lookup_remove: "lookup k (remove k' s) = (if k = k' then None else lookup k s)"
begin

lemma lookup_fold_other: "k \<notin> key ` set cs \<Longrightarrow> lookup k (fold add cs s) = lookup k s"
  by (induction cs arbitrary: s) (auto simp: lookup_add)

lemma lookup_fold: "distinct (map key cs) \<Longrightarrow> c \<in> set cs \<Longrightarrow> lookup (key c) (fold add cs s) = Some c"
  by (induction cs arbitrary: s) (auto simp: lookup_add lookup_fold_other)

lemma lookup_fold_remove: "lookup k (fold remove ks s) = (if k \<in> set ks then None else lookup k s)"
  by (induction ks arbitrary: s) (auto simp: lookup_remove)

lemma remove_added: "lookup (key c) (remove (key c) (add c s)) = None"
  by (simp add: lookup_remove)

end

interpretation incoming_store: coin_store "\<lambda>c. b_txid B (inc_contract_tx c)" "add_incoming_swapcoin B"
  find_incoming_swapcoin "\<lambda>k s. snd (remove_incoming_swapcoin k s)" for B
  by unfold_locales (auto simp: add_incoming_swapcoin_def find_incoming_swapcoin_def
      remove_incoming_swapcoin_def update_conv' delete_conv')

definition find_outgoing_swapcoin_by_txid :: "txid \<Rightarrow> wallet_store \<Rightarrow> outgoing_swapcoin option" where
  "find_outgoing_swapcoin_by_txid k s = map_of (ws_outgoing s) k"

interpretation outgoing_store: coin_store "\<lambda>c. b_txid B (og_contract_tx c)" "add_outgoing_swapcoin B"
  find_outgoing_swapcoin_by_txid remove_outgoing_swapcoin for B
  by unfold_locales (auto simp: add_outgoing_swapcoin_def find_outgoing_swapcoin_by_txid_def
      remove_outgoing_swapcoin_def update_conv' delete_conv')

section \<open>Invariant\<close>

definition wstore_ok :: "btc \<Rightarrow> wallet_store \<Rightarrow> bool" where
  "wstore_ok B s \<longleftrightarrow>
     keys_distinct (ws_incoming s) \<and> keys_distinct (ws_outgoing s) \<and> keys_distinct (ws_watchonly s)
   \<and> keys_distinct (ws_prevout_to_contract s) \<and> keys_distinct (ws_utxo_cache s)
   \<and> (\<forall>(k, c) \<in> set (ws_incoming s). k = b_txid B (inc_contract_tx c))
   \<and> (\<forall>(k, c) \<in> set (ws_outgoing s). k = b_txid B (og_contract_tx c))
   \<and> (\<forall>(p, u, i) \<in> set (ws_utxo_cache s). p = ut_outpoint u)"

lemma fold_update_keys_distinct: "keys_distinct m \<Longrightarrow> keys_distinct (fold (\<lambda>(p, e). AList.update p e) xs m)"
  by (induction xs arbitrary: m) (auto simp: keys_distinct_update)

lemma fold_update_set:
  "keys_distinct m \<Longrightarrow> (p, e) \<in> set (fold (\<lambda>(p, e). AList.update p e) xs m) \<Longrightarrow> (p, e) \<in> set xs \<or> (p, e) \<in> set m"
proof (induction xs arbitrary: m)
  case (Cons x xs)
  obtain q f where x: "x = (q, f)" by force
  have "(p, e) \<in> set xs \<or> (p, e) \<in> set (AList.update q f m)"
    using Cons.IH [of "AList.update q f m"] Cons.prems x by (simp add: keys_distinct_update)
  then show ?case using x Cons.prems(1) by (auto simp: set_update_distinct)
qed simp

lemma fold_update_map_of:
  "map_of (fold (\<lambda>(p, e). AList.update p e) xs m) k = (case map_of (rev xs) k of Some e \<Rightarrow> Some e | None \<Rightarrow> map_of m k)"
  by (induction xs arbitrary: m) (auto simp: update_conv' map_add_def split: option.splits)

lemma add_incoming_ok: "wstore_ok B s \<Longrightarrow> wstore_ok B (add_incoming_swapcoin B c s)"
  by (auto simp: wstore_ok_def add_incoming_swapcoin_def keys_distinct_update set_update_distinct)

lemma add_outgoing_ok: "wstore_ok B s \<Longrightarrow> wstore_ok B (add_outgoing_swapcoin B c s)"
  by (auto simp: wstore_ok_def add_outgoing_swapcoin_def keys_distinct_update set_update_distinct)

lemma remove_incoming_ok: "wstore_ok B s \<Longrightarrow> wstore_ok B (snd (remove_incoming_swapcoin k s))"
  by (auto simp: wstore_ok_def remove_incoming_swapcoin_def keys_distinct_delete AList.delete_eq keys_distinct_filter)

lemma remove_outgoing_ok: "wstore_ok B s \<Longrightarrow> wstore_ok B (remove_outgoing_swapcoin k s)"
  by (auto simp: wstore_ok_def remove_outgoing_swapcoin_def keys_distinct_delete AList.delete_eq keys_distinct_filter)

lemma watchonly_ok:
  "wstore_ok B s \<Longrightarrow> wstore_ok B (add_watchonly_swapcoins i cs s)"
  "wstore_ok B s \<Longrightarrow> wstore_ok B (snd (remove_watchonly_swapcoins i s))"
  by (simp_all add: wstore_ok_def add_watchonly_swapcoins_def remove_watchonly_swapcoins_def
      keys_distinct_update keys_distinct_delete Let_def)

lemma set_other_privkey_ok:
  assumes "wstore_ok B s" "\<And>c. inc_contract_tx (f c) = inc_contract_tx c"
  shows "wstore_ok B (find_incoming_swapcoin_mut k f s)"
proof (cases "map_of (ws_incoming s) k")
  case (Some c)
  then have "k = b_txid B (inc_contract_tx c)"
    using assms(1) map_of_SomeD [OF Some] by (auto simp: wstore_ok_def)
  then show ?thesis
    using assms Some
    by (auto simp: wstore_ok_def find_incoming_swapcoin_mut_def keys_distinct_update set_update_distinct)
qed (use assms in \<open>simp add: find_incoming_swapcoin_mut_def\<close>)

lemma new_utxo_entries_from:
  assumes "new_utxo_entries B env s us = Inr r" "(p, u, i) \<in> set r"
  shows "u \<in> set us \<and> p = ut_outpoint u \<and> p \<notin> set (map fst (ws_utxo_cache s)) \<and> classify_utxo B env s u = Inr (Some i)"
proof -
  define E where "E x \<longleftrightarrow> (case x of (p, u, i) \<Rightarrow> u \<in> set us \<and> p = ut_outpoint u
    \<and> p \<notin> set (map fst (ws_utxo_cache s)) \<and> classify_utxo B env s u = Inr (Some i))" for x
  have "list_all E r"
  proof (rule res_fold_invariant [OF assms(1) [unfolded new_utxo_entries_def], where P = "list_all E"])
    fix acc u acc'
    assume "u \<in> set us" "list_all E acc"
      "(if ut_outpoint u \<in> set (map fst (ws_utxo_cache s)) then Inr acc
        else res_bind (classify_utxo B env s u) (\<lambda>info.
          Inr (case info of Some i \<Rightarrow> acc @ [(ut_outpoint u, u, i)] | None \<Rightarrow> acc))) = Inr acc'"
    then show "list_all E acc'"
      by (cases "classify_utxo B env s u") (auto simp: E_def split: if_splits option.splits)
  qed simp
  then show ?thesis using assms(2) by (auto simp: list_all_iff E_def)
qed

lemma retain_ok: "wstore_ok B s \<Longrightarrow> wstore_ok B (retain_utxos us s)"
  by (auto simp: wstore_ok_def retain_utxos_def keys_distinct_filter)

lemma insert_utxos_ok:
  assumes "wstore_ok B s" "\<And>p u i. (p, u, i) \<in> set es \<Longrightarrow> p = ut_outpoint u"
  shows "wstore_ok B (insert_utxos es s)"
proof -
  have k: "keys_distinct (ws_utxo_cache s)" and p: "\<forall>(p, u, i) \<in> set (ws_utxo_cache s). p = ut_outpoint u"
    using assms(1) by (simp_all add: wstore_ok_def)
  have "\<forall>(p, u, i) \<in> set (fold (\<lambda>(p, e). AList.update p e) es (ws_utxo_cache s)). p = ut_outpoint u"
    using fold_update_set [OF k, of _ _ es] assms(2) p by blast
  then show ?thesis
    using assms(1) fold_update_keys_distinct [OF k, of es] by (simp add: wstore_ok_def insert_utxos_def)
qed

lemma update_utxo_cache_ok:
  assumes "wstore_ok B s"
  shows "wstore_ok B (snd (update_utxo_cache B env us s))"
proof (cases "new_utxo_entries B env (retain_utxos us s) us")
  case (Inl e)
  then show ?thesis using retain_ok [OF assms] by (simp add: update_utxo_cache_def)
next
  case (Inr es)
  have "wstore_ok B (insert_utxos es (retain_utxos us s))"
    by (rule insert_utxos_ok [OF retain_ok [OF assms]]) (use new_utxo_entries_from [OF Inr] in blast)
  then show ?thesis using Inr by (simp add: update_utxo_cache_def)
qed

section \<open>Properties\<close>

text \<open>
  Every operation that changes the wallet store keeps its invariant: distinct keys in every
  map, every swap coin filed under the txid of its own contract transaction, every cached output
  filed under its own outpoint.
\<close>

lemma wallet_ops_keep_store_ok:
  assumes "wstore_ok B s"
  shows "wstore_ok B (add_incoming_swapcoin B ic s) \<and> wstore_ok B (add_outgoing_swapcoin B oc s)
    \<and> wstore_ok B (snd (remove_incoming_swapcoin k s)) \<and> wstore_ok B (remove_outgoing_swapcoin k s)
    \<and> wstore_ok B (add_watchonly_swapcoins i ws s) \<and> wstore_ok B (snd (remove_watchonly_swapcoins i s))
    \<and> wstore_ok B (find_incoming_swapcoin_mut k (inc_set_other_privkey pk) s)
    \<and> wstore_ok B (snd (update_utxo_cache B env us s)) \<and> wstore_ok B (snd (refresh_offer_maxsize_cache s))"
proof -
  have "wstore_ok B (find_incoming_swapcoin_mut k (inc_set_other_privkey pk) s)"
    by (rule set_other_privkey_ok [OF assms]) (simp add: inc_set_other_privkey_def)
  moreover have "wstore_ok B (snd (refresh_offer_maxsize_cache s))"
    using assms by (simp add: refresh_offer_maxsize_cache_def wstore_ok_def split: sum.splits)
  ultimately show ?thesis
    by (intro conjI add_incoming_ok add_outgoing_ok remove_incoming_ok remove_outgoing_ok watchonly_ok
        update_utxo_cache_ok assms)
qed

definition empty_store :: wallet_store where
  "empty_store = \<lparr>ws_incoming = [], ws_outgoing = [], ws_watchonly = [], ws_prevout_to_contract = [], ws_swept = [],
     ws_fidelity_bond = [], ws_offer_maxsize = 0, ws_external_index = 0, ws_internal_index = 0,
     ws_last_synced_height = None, ws_wallet_birthday = None, ws_utxo_cache = []\<rparr>"

definition empty_wallet :: wallet where
  "empty_wallet = \<lparr>w_store = empty_store, w_disk = None, w_disk_ok = True, w_locked_utxos = []\<rparr>"

lemma empty_store_ok: "wstore_ok B empty_store"
  by (simp add: wstore_ok_def empty_store_def keys_distinct_def)

lemma wallet_ops_keep_store_ok_witness:
  "wstore_ok sample_lib (add_incoming_swapcoin sample_lib sample_coin empty_store)"
  by (rule wallet_ops_keep_store_ok [OF empty_store_ok, THEN conjunct1])

lemma cache_prevout_eq:
  "cache_prevout_to_contract bs w =
    (if \<forall>b \<in> set bs. may_bind (ws_prevout_to_contract (w_store w)) b
     then save_to_disk (w\<lparr>w_store := (w_store w)\<lparr>ws_prevout_to_contract :=
       fold (\<lambda>(p, c). AList.update p c) bs (ws_prevout_to_contract (w_store w))\<rparr>\<rparr>)
     else (Inl (WGeneral ''Refusing to rebind funding prevout to a different contract''), w))"
  by (simp add: cache_prevout_to_contract_def act_bind_def act_get_def act_lift_def act_upd_def res_all_ensure)

lemma save_to_disk_store [simp]: "w_store (snd (save_to_disk w)) = w_store w"
  by (simp add: save_to_disk_def)

text \<open>
  A funding outpoint's binding never changes once it is cached: whatever batch of bindings is
  offered later, accepted or refused, the outpoint stays bound to the same contract script, and
  proof-of-funding verification accepts that script for it and no other.
\<close>

lemma prevout_binding_immutable:
  assumes "map_of (ws_prevout_to_contract (w_store w)) p = Some c"
    and "cache_prevout_to_contract bs w = (r, w')"
  shows "map_of (ws_prevout_to_contract (w_store w')) p = Some c
    \<and> (ensure_prevout_matches_cached_contract p c' (w_store w') = Inr () \<longleftrightarrow> c' = c)"
proof -
  have "map_of (ws_prevout_to_contract (w_store w')) p = Some c"
  proof (cases "\<forall>b \<in> set bs. may_bind (ws_prevout_to_contract (w_store w)) b")
    case True
    then have "w_store w' = (w_store w)\<lparr>ws_prevout_to_contract :=
        fold (\<lambda>(p, c). AList.update p c) bs (ws_prevout_to_contract (w_store w))\<rparr>"
      using assms(2) by (auto simp: cache_prevout_eq save_to_disk_def split: if_splits)
    moreover have "map_of (rev bs) p = Some d \<Longrightarrow> d = c" for d
      using True assms(1) map_of_SomeD [of "rev bs" p d] by (force simp: may_bind_def)
    ultimately show ?thesis
      using assms(1) by (auto simp: fold_update_map_of split: option.splits)
  next
    case False
    then have "w' = w" using assms(2) unfolding cache_prevout_eq if_not_P [OF False] by simp
    then show ?thesis using assms(1) by simp
  qed
  then show ?thesis by (auto simp: ensure_prevout_matches_cached_contract_def)
qed

lemma prevout_binding_immutable_witness:
  "map_of (ws_prevout_to_contract (w_store (snd (cache_prevout_to_contract [(\<lparr>op_txid = [1], op_vout = 0\<rparr>, [9])]
      (empty_wallet\<lparr>w_store := empty_store\<lparr>ws_prevout_to_contract := [(\<lparr>op_txid = [1], op_vout = 0\<rparr>, [7])]\<rparr>\<rparr>)))))
     \<lparr>op_txid = [1], op_vout = 0\<rparr> = Some [7]"
  using prevout_binding_immutable [of
      "empty_wallet\<lparr>w_store := empty_store\<lparr>ws_prevout_to_contract := [(\<lparr>op_txid = [1], op_vout = 0\<rparr>, [7])]\<rparr>\<rparr>"
      "\<lparr>op_txid = [1], op_vout = 0\<rparr>" "[7]" "[(\<lparr>op_txid = [1], op_vout = 0\<rparr>, [9])]"]
  by (simp add: prod_eq_iff)

text \<open>
  The refusal to rebind looks only at bindings cached before the call: one batch that binds a
  fresh outpoint to two different contracts is accepted, and the later one stays.
\<close>

lemma prevout_rebind_within_batch:
  assumes "w_disk_ok w" "map_of (ws_prevout_to_contract (w_store w)) p = None"
  shows "fst (cache_prevout_to_contract [(p, c1), (p, c2)] w) = Inr ()
    \<and> map_of (ws_prevout_to_contract (w_store (snd (cache_prevout_to_contract [(p, c1), (p, c2)] w)))) p = Some c2"
  using assms by (simp add: cache_prevout_eq may_bind_def save_to_disk_def update_conv')

lemma prevout_rebind_within_batch_witness:
  "fst (cache_prevout_to_contract [(\<lparr>op_txid = [1], op_vout = 0\<rparr>, [7]), (\<lparr>op_txid = [1], op_vout = 0\<rparr>, [9])] empty_wallet) = Inr ()"
  using prevout_rebind_within_batch [of empty_wallet "\<lparr>op_txid = [1], op_vout = 0\<rparr>" "[7]" "[9]"]
  by (simp add: empty_wallet_def empty_store_def)

lemma sum_utxo_amounts_Inr_iff:
  "sum_utxo_amounts us = Inr t \<longleftrightarrow> t = sum_list (map (\<lambda>x. ut_amount (fst x)) us) \<and> t \<le> uint_max 64"
proof -
  have "res_fold (\<lambda>sum (u, _). ok_or (checked_add 64 sum (ut_amount u)) WPanic) a us = Inr t \<longleftrightarrow>
      t = a + sum_list (map (\<lambda>x. ut_amount (fst x)) us) \<and> t \<le> uint_max 64" if "a \<le> uint_max 64" for a
    using that
  proof (induction us arbitrary: a)
    case (Cons x us)
    obtain u i where x: "x = (u, i)" by force
    show ?case
    proof (cases "a + ut_amount u \<le> uint_max 64")
      case True
      then show ?thesis using Cons.IH [OF True] by (simp add: x checked_add_def ac_simps del: uint_max_values)
    next
      case False
      then show ?thesis by (auto simp: x checked_add_def simp del: uint_max_values)
    qed
  qed auto
  from this [of 0] show ?thesis by (simp add: sum_utxo_amounts_def)
qed

lemma sum_list_filter_disjoint:
  fixes f :: "'a \<Rightarrow> nat"
  assumes "\<And>x. \<not> (P x \<and> Q x)" "\<And>x. \<not> (P x \<and> R x)" "\<And>x. \<not> (P x \<and> S x)" "\<And>x. \<not> (Q x \<and> R x)"
    "\<And>x. \<not> (Q x \<and> S x)" "\<And>x. \<not> (R x \<and> S x)"
  shows "sum_list (map f (filter P xs)) + sum_list (map f (filter Q xs)) + sum_list (map f (filter R xs))
    + sum_list (map f (filter S xs)) \<le> sum_list (map f xs)"
proof (induction xs)
  case (Cons x xs)
  then show ?case using assms [of x] by auto
qed simp

text \<open>
  The balances of the wallet are the exact sums over the outputs of each category: spendable is
  regular plus swept coins, and no output is counted in two categories, so the four categories
  together never exceed what the cache holds.
\<close>

lemma balances_partition:
  assumes "get_balances s = Inr b"
  shows "bal_spendable b = bal_regular b + bal_swap b
    \<and> bal_regular b = sum_list (map (\<lambda>x. ut_amount (fst x)) (list_descriptor_utxo_spend_info s))
    \<and> bal_regular b + bal_swap b + bal_contract b + bal_fidelity b
        \<le> sum_list (map (\<lambda>x. ut_amount (fst x)) (list_all_utxo_spend_info s))"
proof -
  let ?sum = "\<lambda>us. sum_list (map (\<lambda>x. ut_amount (fst x)) us)"
  have b: "bal_regular b = ?sum (list_descriptor_utxo_spend_info s)"
    "bal_swap b = ?sum (list_swept_incoming_swap_utxos s)"
    "bal_contract b = ?sum (list_live_timelock_contract_spend_info s)"
    "bal_fidelity b = ?sum (list_fidelity_spend_info s)" "bal_spendable b = bal_regular b + bal_swap b"
    using assms by (auto simp: get_balances_def res_simps sum_utxo_amounts_Inr_iff checked_add_Some_iff)
  have "?sum (list_descriptor_utxo_spend_info s) + ?sum (list_swept_incoming_swap_utxos s)
      + ?sum (list_live_timelock_contract_spend_info s) + ?sum (list_fidelity_spend_info s)
      \<le> ?sum (list_all_utxo_spend_info s)"
    unfolding list_descriptor_utxo_spend_info_def list_swept_incoming_swap_utxos_def
      list_live_timelock_contract_spend_info_def list_fidelity_spend_info_def
    by (rule sum_list_filter_disjoint) (auto split: utxo_spend_info.splits)
  then show ?thesis using b by simp
qed

lemma balances_partition_witness:
  "\<exists>b. get_balances empty_store = Inr b \<and> bal_spendable b = 0"
proof -
  have "get_balances empty_store = Inr \<lparr>bal_regular = 0, bal_swap = 0, bal_contract = 0, bal_fidelity = 0, bal_spendable = 0\<rparr>"
    by (simp add: get_balances_def sum_utxo_amounts_def list_all_utxo_spend_info_def list_descriptor_utxo_spend_info_def
        list_live_timelock_contract_spend_info_def list_swept_incoming_swap_utxos_def list_fidelity_spend_info_def
        empty_store_def checked_add_def)
  then show ?thesis using balances_partition by force
qed

text \<open>
  Refreshing the UTXO cache from the backend's list drops every outpoint the backend no longer
  reports, keeps the recorded entry of every outpoint it had, and adds an outpoint exactly with the
  classification of an output of the list.
\<close>

lemma update_utxo_cache_functional:
  assumes "update_utxo_cache B env us s = (Inr (), s')"
  shows "(p \<notin> ut_outpoint ` set us \<longrightarrow> map_of (ws_utxo_cache s') p = None)
    \<and> (p \<in> ut_outpoint ` set us \<and> map_of (ws_utxo_cache s) p = Some e \<longrightarrow> map_of (ws_utxo_cache s') p = Some e)
    \<and> (map_of (ws_utxo_cache s) p = None \<and> map_of (ws_utxo_cache s') p = Some (u, i) \<longrightarrow>
         u \<in> set us \<and> p = ut_outpoint u \<and> classify_utxo B env (retain_utxos us s) u = Inr (Some i))"
proof -
  obtain es where es: "new_utxo_entries B env (retain_utxos us s) us = Inr es"
    and s': "s' = insert_utxos es (retain_utxos us s)"
    using assms by (auto simp: update_utxo_cache_def Let_def split: sum.splits)
  have m: "map_of (ws_utxo_cache s') p = (case map_of (rev es) p of Some e \<Rightarrow> Some e
      | None \<Rightarrow> map_of (ws_utxo_cache (retain_utxos us s)) p)" for p
    by (simp add: s' insert_utxos_def fold_update_map_of)
  have r: "map_of (ws_utxo_cache (retain_utxos us s)) p
      = (if p \<in> ut_outpoint ` set us then map_of (ws_utxo_cache s) p else None)" for p
    by (simp add: retain_utxos_def map_of_filter_keys)
  have n: "map_of (ws_utxo_cache (retain_utxos us s)) p = None \<and> u \<in> set us \<and> p = ut_outpoint u
      \<and> classify_utxo B env (retain_utxos us s) u = Inr (Some i)" if "map_of (rev es) p = Some (u, i)" for p u i
    using new_utxo_entries_from [OF es] map_of_SomeD [OF that] by (simp add: map_of_eq_None_iff)
  have 1: "map_of (ws_utxo_cache s') p = None" if "p \<notin> ut_outpoint ` set us"
  proof (cases "map_of (rev es) p")
    case None
    then show ?thesis using m [of p] r [of p] that by simp
  next
    case (Some x)
    then have "map_of (rev es) p = Some (fst x, snd x)" by simp
    from n [OF this] have "p \<in> ut_outpoint ` set us" by blast
    then show ?thesis using that by simp
  qed
  have 2: "map_of (ws_utxo_cache s') p = Some e"
    if p: "p \<in> ut_outpoint ` set us" and e: "map_of (ws_utxo_cache s) p = Some e"
  proof (cases "map_of (rev es) p")
    case None
    then show ?thesis using m [of p] r [of p] p e by simp
  next
    case (Some x)
    then have "map_of (rev es) p = Some (fst x, snd x)" by simp
    from n [OF this] have "map_of (ws_utxo_cache (retain_utxos us s)) p = None" by blast
    then show ?thesis using r [of p] p e by simp
  qed
  have 3: "u \<in> set us \<and> p = ut_outpoint u \<and> classify_utxo B env (retain_utxos us s) u = Inr (Some i)"
    if "map_of (ws_utxo_cache s) p = None" "map_of (ws_utxo_cache s') p = Some (u, i)"
  proof (cases "map_of (rev es) p")
    case None
    then show ?thesis using m [of p] r [of p] that by (simp split: if_splits)
  next
    case (Some x)
    then show ?thesis using n [of p u i] m [of p] that(2) by simp
  qed
  from 1 2 3 show ?thesis by blast
qed

lemma update_utxo_cache_functional_witness:
  "map_of (ws_utxo_cache (snd (update_utxo_cache sample_lib
     \<lparr>we_hd_origin = (\<lambda>_. None), we_account_fingerprint = (\<lambda>_. Inl WIO)\<rparr> [] empty_store))) \<lparr>op_txid = [1], op_vout = 0\<rparr> = None"
proof -
  let ?env = "\<lparr>we_hd_origin = (\<lambda>_. None), we_account_fingerprint = (\<lambda>_. Inl WIO)\<rparr>"
  have "update_utxo_cache sample_lib ?env [] empty_store = (Inr (), snd (update_utxo_cache sample_lib ?env [] empty_store))"
    by (simp add: update_utxo_cache_def new_utxo_entries_def)
  then show ?thesis
    using update_utxo_cache_functional [of sample_lib ?env "[]" empty_store] by simp
qed

end
