(* ===== verification/MakerTypes.thy ===== *)
theory MakerTypes
  imports WalletStore
begin

text \<open>
  The maker's connection state and the \<open>Maker\<close> trait of \<open>maker/handlers.rs\<close>. A handler runs on
  a pair of the maker \<open>'m\<close> and the connection state; the trait is a record of operations on
  \<open>'m\<close> that every handler takes as an argument. \<open>Instant::now()\<close> is the argument \<open>now\<close>.
\<close>

section \<open>Constants and deadlines\<close>

definition MIN_CONTRACT_REACTION_TIME :: nat where "MIN_CONTRACT_REACTION_TIME = 10"
definition MAX_CONCURRENT_SWAPS :: nat where "MAX_CONCURRENT_SWAPS = 30"
definition REFUND_LOCKTIME_STEP :: nat where "REFUND_LOCKTIME_STEP = 20"

definition offset_meets_reaction_time :: "nat \<Rightarrow> bool" where
  "offset_meets_reaction_time refund_locktime_offset \<longleftrightarrow> refund_locktime_offset \<ge> MIN_CONTRACT_REACTION_TIME"

definition incoming_within_swap_amount :: "amount \<Rightarrow> amount \<Rightarrow> bool" where
  "incoming_within_swap_amount total_incoming swap_amount \<longleftrightarrow> total_incoming \<le> swap_amount"

definition past_refund_deadline :: "protocol_version \<Rightarrow> nat \<Rightarrow> nat option \<Rightarrow> nat \<Rightarrow> bool" where
  "past_refund_deadline protocol timelock funding_confirmation_height current_height =
     (case (case protocol of
          Taproot \<Rightarrow> Some timelock
        | Legacy \<Rightarrow> (case funding_confirmation_height of
            Some height \<Rightarrow> Some (saturating_add 32 height timelock)
          | None \<Rightarrow> None)) of
        None \<Rightarrow> False
      | Some incoming_deadline \<Rightarrow>
          saturating_add 32 incoming_deadline REFUND_LOCKTIME_STEP
            < saturating_add 32 current_height MIN_CONTRACT_REACTION_TIME)"

section \<open>Connection state\<close>

datatype swap_phase =
    AwaitingHello | AwaitingOfferRequest | AwaitingSwapDetails | AwaitingContractData
  | AwaitingSignaturesOrPreimage | AwaitingPrivateKeyHandover | Completed

record conn =
  cs_protocol :: protocol_version
  cs_phase :: swap_phase
  cs_swap_id :: "swap_id option"
  cs_swap_amount :: amount
  cs_tx_count :: nat
  cs_timelock :: nat
  cs_refund_locktime_offset :: nat
  cs_incoming :: "incoming_swapcoin list"
  cs_outgoing :: "outgoing_swapcoin list"
  cs_pending_funding_txes :: "transaction list"
  cs_contract_feerate :: f64
  cs_service_fee_sats :: nat
  cs_funding_broadcast :: bool
  cs_reserve_utxo :: "outpoint list"
  cs_last_activity :: nat
  cs_swap_start_time :: nat

definition conn_default :: "nat \<Rightarrow> conn" where
  "conn_default now = \<lparr>cs_protocol = Legacy, cs_phase = AwaitingHello, cs_swap_id = None, cs_swap_amount = 0,
     cs_tx_count = 0, cs_timelock = 0, cs_refund_locktime_offset = 0, cs_incoming = [], cs_outgoing = [],
     cs_pending_funding_txes = [], cs_contract_feerate = 0, cs_service_fee_sats = 0, cs_funding_broadcast = False,
     cs_reserve_utxo = [], cs_last_activity = now, cs_swap_start_time = now\<rparr>"

definition conn_new :: "nat \<Rightarrow> protocol_version \<Rightarrow> conn" where
  "conn_new now protocol = (conn_default now)\<lparr>cs_protocol := protocol\<rparr>"

definition touch :: "nat \<Rightarrow> conn \<Rightarrow> conn" where
  "touch now c = c\<lparr>cs_last_activity := now\<rparr>"

text \<open>Times are in milliseconds; \<open>as_secs\<close> rounds down.\<close>

definition is_timed_out :: "nat \<Rightarrow> conn \<Rightarrow> nat \<Rightarrow> bool" where
  "is_timed_out now c timeout_secs \<longleftrightarrow> (now - cs_last_activity c) div 1000 > timeout_secs"

definition expect_phase :: "swap_phase list \<Rightarrow> conn \<Rightarrow> maker_error + unit" where
  "expect_phase expected c = (if cs_phase c \<in> set expected then Inr ()
     else Inl (MGeneral ''Unexpected message in phase''))"

definition check_swap_id :: "swap_id \<Rightarrow> conn \<Rightarrow> maker_error + unit" where
  "check_swap_id msg_swap_id c = (case cs_swap_id c of
     Some expected \<Rightarrow> if expected \<noteq> msg_swap_id then Inl (MGeneral ''Swap ID mismatch'') else Inr ()
   | None \<Rightarrow> Inr ())"

section \<open>The Maker trait\<close>

record maker_config =
  mc_base_fee :: nat
  mc_amount_relative_fee_pct :: f64
  mc_time_relative_fee_pct :: f64
  mc_min_swap_amount :: nat
  mc_max_swap_amount :: nat
  mc_required_confirms :: nat
  mc_supported_protocols :: "protocol_version list"

record recovery_outcome =
  ro_resolved :: "(txid \<times> txid) list"
  ro_discarded :: "txid list"

record 'm maker_ops =
  mk_is_watchtower_alive :: "'m \<Rightarrow> bool"
  mk_get_tweakable_keypair :: "('m, maker_error, seckey \<times> public_key \<times> bytes) act"
  mk_get_fidelity_proof :: "('m, maker_error, fidelity_proof) act"
  mk_get_config :: "'m \<Rightarrow> maker_config"
  mk_validate_swap_parameters :: "swap_details \<Rightarrow> ('m, maker_error, nat) act"
  mk_calculate_swap_fee :: "amount \<Rightarrow> nat \<Rightarrow> 'm \<Rightarrow> amount"
  mk_create_funding_transaction :: "amount \<Rightarrow> script \<Rightarrow> outpoint list option \<Rightarrow> ('m, maker_error, transaction \<times> nat) act"
  mk_broadcast_transaction :: "transaction \<Rightarrow> ('m, maker_error, txid) act"
  mk_is_transaction_known :: "txid \<Rightarrow> 'm \<Rightarrow> bool"
  mk_save_incoming_swapcoin :: "incoming_swapcoin \<Rightarrow> ('m, maker_error, unit) act"
  mk_save_outgoing_swapcoin :: "outgoing_swapcoin \<Rightarrow> ('m, maker_error, unit) act"
  mk_register_watch_outpoint :: "outpoint \<Rightarrow> script \<Rightarrow> ('m, maker_error, unit) act"
  mk_unwatch_outpoint :: "outpoint \<Rightarrow> script \<Rightarrow> 'm \<Rightarrow> 'm"
  mk_sync_and_save_wallet :: "('m, maker_error, unit) act"
  mk_get_raw_transaction :: "txid \<Rightarrow> ('m, maker_error, transaction) act"
  mk_sweep_incoming_swapcoins :: "incoming_swapcoin list \<Rightarrow> ('m, maker_error, recovery_outcome) act"
  mk_store_connection_state :: "swap_id \<Rightarrow> conn \<Rightarrow> bool \<Rightarrow> ('m, maker_error, unit) act"
  mk_get_connection_state :: "swap_id \<Rightarrow> ('m, maker_error, conn option) act"
  mk_remove_connection_state :: "swap_id \<Rightarrow> ('m, maker_error, unit) act"
  mk_collect_excluded_utxos :: "swap_id \<Rightarrow> ('m, maker_error, outpoint list) act"
  mk_get_current_height :: "('m, maker_error, nat) act"
  mk_swap_past_refund_deadline :: "swap_id \<Rightarrow> ('m, maker_error, bool) act"
  mk_wait_for_tx_on_chain :: "txid \<Rightarrow> nat \<Rightarrow> ('m, maker_error, unit) act"
  mk_verify_and_sign_sender_contract_txs ::
    "contract_tx_info_for_sender list \<Rightarrow> bytes \<Rightarrow> nat \<Rightarrow> ('m, maker_error, ecdsa_sig list) act"
  mk_verify_proof_of_funding :: "proof_of_funding \<Rightarrow> ('m, maker_error, bytes) act"
  mk_initialize_openswap ::
    "amount \<Rightarrow> public_key list \<Rightarrow> public_key list \<Rightarrow> bytes \<Rightarrow> nat \<Rightarrow> f64 \<Rightarrow> outpoint list option
     \<Rightarrow> ('m, maker_error, transaction list \<times> outgoing_swapcoin list \<times> amount) act"
  mk_find_outgoing_swapcoin :: "script \<Rightarrow> 'm \<Rightarrow> outgoing_swapcoin option"

section \<open>Handler computations\<close>

type_synonym ('m, 'a) hact = "('m \<times> conn, maker_error, 'a) act"

definition on_m :: "('m, maker_error, 'a) act \<Rightarrow> ('m, 'a) hact" where
  "on_m f = (\<lambda>(m, c). case f m of (r, m') \<Rightarrow> (r, (m', c)))"

definition get_m :: "('m \<Rightarrow> 'a) \<Rightarrow> ('m, 'a) hact" where
  "get_m f = (\<lambda>(m, c). (Inr (f m), (m, c)))"

definition get_c :: "(conn \<Rightarrow> 'a) \<Rightarrow> ('m, 'a) hact" where
  "get_c f = (\<lambda>(m, c). (Inr (f c), (m, c)))"

definition set_c :: "(conn \<Rightarrow> conn) \<Rightarrow> ('m, unit) hact" where
  "set_c f = (\<lambda>(m, c). (Inr (), (m, f c)))"

definition on_c :: "(conn \<Rightarrow> maker_error + 'a) \<Rightarrow> ('m, 'a) hact" where
  "on_c f = (\<lambda>(m, c). (f c, (m, c)))"

definition ensure_watchtower_alive :: "'m maker_ops \<Rightarrow> ('m, unit) hact" where
  "ensure_watchtower_alive M = act_bind (get_m (mk_is_watchtower_alive M)) (\<lambda>alive.
     act_ensure alive (MGeneral ''watchtower is down, refusing to commit funds''))"

text \<open>Conversions of the question-mark operator; a panic stays a panic.\<close>

definition perr :: "(protocol_error \<Rightarrow> maker_error) \<Rightarrow> protocol_error \<Rightarrow> maker_error" where
  "perr f e = (if e = PPanic then MPanic else f e)"

definition werr :: "(wallet_error \<Rightarrow> maker_error) \<Rightarrow> wallet_error \<Rightarrow> maker_error" where
  "werr f e = (if e \<in> {WPanic, WProtocol PPanic, WFidelity FPanic} then MPanic else f e)"

section \<open>Lemmas\<close>

lemma on_m_iff [act_simps]: "on_m f (m, c) = (r, (m', c')) \<longleftrightarrow> c' = c \<and> f m = (r, m')"
  by (auto simp: on_m_def split: prod.splits)

lemma get_m_iff [act_simps]: "get_m f (m, c) = (r, (m', c')) \<longleftrightarrow> r = Inr (f m) \<and> m' = m \<and> c' = c"
  by (auto simp: get_m_def)

lemma get_c_iff [act_simps]: "get_c f (m, c) = (r, (m', c')) \<longleftrightarrow> r = Inr (f c) \<and> m' = m \<and> c' = c"
  by (auto simp: get_c_def)

lemma set_c_iff [act_simps]: "set_c f (m, c) = (r, (m', c')) \<longleftrightarrow> r = Inr () \<and> m' = m \<and> c' = f c"
  by (auto simp: set_c_def)

lemma on_c_iff [act_simps]: "on_c f (m, c) = (r, (m', c')) \<longleftrightarrow> r = f c \<and> m' = m \<and> c' = c"
  by (auto simp: on_c_def)

lemma expect_phase_Inr_iff [res_simps]: "expect_phase ps c = Inr u \<longleftrightarrow> cs_phase c \<in> set ps"
  by (simp add: expect_phase_def)

lemma check_swap_id_Inr_iff [res_simps]: "check_swap_id i c = Inr u \<longleftrightarrow> cs_swap_id c = None \<or> cs_swap_id c = Some i"
  by (auto simp: check_swap_id_def split: option.splits)

lemma on_m_keeps_conn [hoare_intros]: "act_inv (\<lambda>s. snd s = c) (on_m f)"
  by (auto simp: act_inv_iff on_m_def split: prod.splits)

lemma get_m_inv [hoare_intros]: "act_inv I (get_m f)"
  by (auto simp: act_inv_iff get_m_def)

lemma get_c_inv [hoare_intros]: "act_inv I (get_c f)"
  by (auto simp: act_inv_iff get_c_def)

lemma on_c_inv [hoare_intros]: "act_inv I (on_c f)"
  by (auto simp: act_inv_iff on_c_def)

lemma keeps_connD: "act_inv (\<lambda>s. snd s = c) f \<Longrightarrow> f (m, c) = (r, (m', c')) \<Longrightarrow> c' = c"
  using act_invD [of "\<lambda>s. snd s = c" f "(m, c)"] by simp

lemma saturating_add_le_mono: "a \<le> a' \<Longrightarrow> b \<le> b' \<Longrightarrow> saturating_add w a b \<le> saturating_add w a' b'"
  by (auto simp: saturating_add_def intro: min.mono)

text \<open>
  Once a swap is past its refund deadline it stays so as the chain grows, and before it the
  maker still has at least \<open>MIN_CONTRACT_REACTION_TIME\<close> blocks left: away from the end of the
  32-bit range the test is exactly \<open>deadline + 20 < height + 10\<close>, and a legacy swap whose funding
  height is not recorded is never past it.
\<close>

lemma past_refund_deadline_monotone:
  assumes "h \<le> h'"
  shows "(past_refund_deadline p t f h \<longrightarrow> past_refund_deadline p t f h')
    \<and> \<not> past_refund_deadline Legacy t None h
    \<and> (h + 10 \<le> uint_max 32 \<and> t + 20 \<le> uint_max 32 \<longrightarrow>
        (past_refund_deadline Taproot t f h \<longleftrightarrow> t + 20 < h + 10))"
proof -
  have "saturating_add 32 h MIN_CONTRACT_REACTION_TIME \<le> saturating_add 32 h' MIN_CONTRACT_REACTION_TIME"
    using assms by (intro saturating_add_le_mono) auto
  then show ?thesis
    by (auto simp: past_refund_deadline_def saturating_add_def REFUND_LOCKTIME_STEP_def MIN_CONTRACT_REACTION_TIME_def
        split: protocol_version.splits option.splits simp del: uint_max_values)
qed

lemma past_refund_deadline_monotone_witness:
  "past_refund_deadline Taproot 800000 None 900000"
proof -
  have "past_refund_deadline Taproot 800000 None 800011"
    by (simp add: past_refund_deadline_def saturating_add_def REFUND_LOCKTIME_STEP_def MIN_CONTRACT_REACTION_TIME_def)
  then show ?thesis
    using past_refund_deadline_monotone [of 800011 900000 Taproot 800000 None] by (simp del: uint_max_values)
qed

end
