(* ===== verification/MakerTrace.thy ===== *)
theory MakerTrace
  imports MakerTypes "HOL-Library.Sublist"
begin

text \<open>
  Observing a maker: \<open>traced M\<close> is the maker \<open>M\<close> with a log of the calls that commit it
  (a watch armed, a coin saved, a state stored, a transaction broadcast or seen confirmed). The handlers are
  generic in the trait, so running one on \<open>traced M\<close> shows the order in which it acts on any
  \<open>M\<close>. \<open>emits X f\<close> says that \<open>f\<close> logs exactly \<open>X\<close> when it succeeds and a prefix of \<open>X\<close>
  when it fails; it composes along \<open>act_bind\<close>.
\<close>

section \<open>The log\<close>

datatype event =
    EvWatch outpoint script
  | EvSaveIncoming incoming_swapcoin
  | EvSaveOutgoing outgoing_swapcoin
  | EvStore swap_id conn bool
  | EvBroadcast transaction
  | EvConfirmed txid nat

type_synonym 'm logged = "'m \<times> event list"

definition lift_op :: "('m, 'e, 'a) act \<Rightarrow> ('m logged, 'e, 'a) act" where
  "lift_op f = (\<lambda>(m, l). case f m of (r, m') \<Rightarrow> (r, (m', l)))"

text \<open>A call is logged once it has returned \<open>Ok\<close>; a broadcast is logged when it is attempted.\<close>

definition log_ok :: "event \<Rightarrow> ('m, 'e, 'a) act \<Rightarrow> ('m logged, 'e, 'a) act" where
  "log_ok ev f = (\<lambda>(m, l). case f m of
     (Inl e, m') \<Rightarrow> (Inl e, (m', l)) | (Inr x, m') \<Rightarrow> (Inr x, (m', l @ [ev])))"

definition log_call :: "event \<Rightarrow> ('m, 'e, 'a) act \<Rightarrow> ('m logged, 'e, 'a) act" where
  "log_call ev f = (\<lambda>(m, l). case f m of (r, m') \<Rightarrow> (r, (m', l @ [ev])))"

definition traced :: "'m maker_ops \<Rightarrow> 'm logged maker_ops" where
  "traced M = \<lparr>
     mk_is_watchtower_alive = mk_is_watchtower_alive M \<circ> fst,
     mk_get_tweakable_keypair = lift_op (mk_get_tweakable_keypair M),
     mk_get_fidelity_proof = lift_op (mk_get_fidelity_proof M),
     mk_get_config = mk_get_config M \<circ> fst,
     mk_validate_swap_parameters = lift_op \<circ> mk_validate_swap_parameters M,
     mk_calculate_swap_fee = (\<lambda>a t. mk_calculate_swap_fee M a t \<circ> fst),
     mk_create_funding_transaction = (\<lambda>a s x. lift_op (mk_create_funding_transaction M a s x)),
     mk_broadcast_transaction = (\<lambda>tx. log_call (EvBroadcast tx) (mk_broadcast_transaction M tx)),
     mk_is_transaction_known = (\<lambda>t. mk_is_transaction_known M t \<circ> fst),
     mk_save_incoming_swapcoin = (\<lambda>c. log_ok (EvSaveIncoming c) (mk_save_incoming_swapcoin M c)),
     mk_save_outgoing_swapcoin = (\<lambda>c. log_ok (EvSaveOutgoing c) (mk_save_outgoing_swapcoin M c)),
     mk_register_watch_outpoint = (\<lambda>op s. log_ok (EvWatch op s) (mk_register_watch_outpoint M op s)),
     mk_unwatch_outpoint = (\<lambda>op s (m, l). (mk_unwatch_outpoint M op s m, l)),
     mk_sync_and_save_wallet = lift_op (mk_sync_and_save_wallet M),
     mk_get_raw_transaction = lift_op \<circ> mk_get_raw_transaction M,
     mk_sweep_incoming_swapcoins = lift_op \<circ> mk_sweep_incoming_swapcoins M,
     mk_store_connection_state = (\<lambda>i c b. log_ok (EvStore i c b) (mk_store_connection_state M i c b)),
     mk_get_connection_state = lift_op \<circ> mk_get_connection_state M,
     mk_remove_connection_state = lift_op \<circ> mk_remove_connection_state M,
     mk_collect_excluded_utxos = lift_op \<circ> mk_collect_excluded_utxos M,
     mk_get_current_height = lift_op (mk_get_current_height M),
     mk_swap_past_refund_deadline = lift_op \<circ> mk_swap_past_refund_deadline M,
     mk_wait_for_tx_on_chain = (\<lambda>t n. log_ok (EvConfirmed t n) (mk_wait_for_tx_on_chain M t n)),
     mk_verify_and_sign_sender_contract_txs = (\<lambda>is h l. lift_op (mk_verify_and_sign_sender_contract_txs M is h l)),
     mk_verify_proof_of_funding = lift_op \<circ> mk_verify_proof_of_funding M,
     mk_initialize_openswap = (\<lambda>a ms hs h l r x. lift_op (mk_initialize_openswap M a ms hs h l r x)),
     mk_find_outgoing_swapcoin = (\<lambda>s. mk_find_outgoing_swapcoin M s \<circ> fst)\<rparr>"

section \<open>Emitted events\<close>

definition emits :: "event list \<Rightarrow> ('m logged, 'a) hact \<Rightarrow> bool" where
  "emits X f \<longleftrightarrow> (\<forall>m l c. \<exists>r m' p. f ((m, l), c) = (r, ((m', l @ p), c)) \<and> prefix p X \<and> (is_ok r \<longrightarrow> p = X))"

lemma emitsE:
  assumes "emits X f"
  obtains (ok) x m' where "f ((m, l), c) = (Inr x, ((m', l @ X), c))"
    | (err) e m' p where "f ((m, l), c) = (Inl e, ((m', l @ p), c))" "prefix p X"
proof -
  from assms obtain r m' p where f: "f ((m, l), c) = (r, ((m', l @ p), c))" "prefix p X" "is_ok r \<longrightarrow> p = X"
    unfolding emits_def by blast
  show thesis
  proof (cases r)
    case (Inl e)
    with f show ?thesis by (intro err) auto
  next
    case (Inr x)
    with f show ?thesis by (intro ok) (auto simp: is_ok_def)
  qed
qed

lemma emits_bind:
  assumes "emits X f" and "\<And>x. emits Y (g x)"
  shows "emits (X @ Y) (act_bind f g)"
  unfolding emits_def
proof (intro allI)
  fix m l c
  from assms(1) show "\<exists>r m' p. act_bind f g ((m, l), c) = (r, ((m', l @ p), c)) \<and> prefix p (X @ Y) \<and> (is_ok r \<longrightarrow> p = X @ Y)"
  proof (cases rule: emitsE [of X f m l c])
    case (ok x m')
    from assms(2) [of x] obtain r m'' p where "g x ((m', l @ X), c) = (r, ((m'', (l @ X) @ p), c))"
      "prefix p Y" "is_ok r \<longrightarrow> p = Y" unfolding emits_def by blast
    with ok have "act_bind f g ((m, l), c) = (r, ((m'', l @ X @ p), c)) \<and> prefix (X @ p) (X @ Y) \<and> (is_ok r \<longrightarrow> X @ p = X @ Y)"
      by (simp add: act_bind_def)
    then show ?thesis by blast
  next
    case (err e m' p)
    then have "act_bind f g ((m, l), c) = (Inl e, ((m', l @ p), c)) \<and> prefix p (X @ Y) \<and> (is_ok (Inl e) \<longrightarrow> p = X @ Y)"
      by (simp add: act_bind_def is_ok_def prefix_append)
    then show ?thesis by blast
  qed
qed

lemma emits_bind_Nil: "emits X f \<Longrightarrow> (\<And>x. emits [] (g x)) \<Longrightarrow> emits X (act_bind f g)"
  using emits_bind [of X f "[]" g] by simp

lemma emits_Nil_bind: "emits [] f \<Longrightarrow> (\<And>x. emits Y (g x)) \<Longrightarrow> emits Y (act_bind f g)"
  using emits_bind [of "[]" f Y g] by simp

lemma emits_iter:
  assumes "\<And>x. emits (h x) (f x)"
  shows "emits (concat (map h xs)) (act_iter f xs)"
proof (induction xs)
  case Nil
  then show ?case by (simp add: emits_def act_ret_def)
next
  case (Cons x xs)
  then show ?case using assms by (simp add: emits_bind)
qed

lemma emits_ret: "emits [] (act_ret x)"
  by (simp add: emits_def act_ret_def)

lemma emits_fail: "emits [] (act_fail e)"
  by (simp add: emits_def act_fail_def)

lemma emits_lift: "emits [] (act_lift r)"
  by (simp add: emits_def act_lift_def)

lemma emits_ensure: "emits [] (act_ensure b e)"
  by (simp add: act_ensure_def emits_lift)

lemma emits_get_m: "emits [] (get_m f)"
  by (simp add: emits_def get_m_def)

lemma emits_on_c: "emits [] (on_c f)"
  by (simp add: emits_def on_c_def)

lemma emits_log_ok: "emits [ev] (on_m (log_ok ev f))"
  unfolding emits_def on_m_def log_ok_def
  by (auto split: prod.splits sum.splits simp: is_ok_def)

lemma emits_watch: "emits [EvWatch op s] (on_m (mk_register_watch_outpoint (traced M) op s))"
  by (simp add: traced_def emits_log_ok)

lemma emits_save_incoming: "emits [EvSaveIncoming x] (on_m (mk_save_incoming_swapcoin (traced M) x))"
  by (simp add: traced_def emits_log_ok)

lemma emits_save_outgoing: "emits [EvSaveOutgoing x] (on_m (mk_save_outgoing_swapcoin (traced M) x))"
  by (simp add: traced_def emits_log_ok)

lemma emits_store: "emits [EvStore i x b] (on_m (mk_store_connection_state (traced M) i x b))"
  by (simp add: traced_def emits_log_ok)

lemma emits_watchtower: "emits [] (ensure_watchtower_alive (traced M))"
  unfolding ensure_watchtower_alive_def by (intro emits_Nil_bind emits_get_m emits_ensure)

lemma emits_confirmed: "emits [EvConfirmed t n] (on_m (mk_wait_for_tx_on_chain (traced M) t n))"
  by (simp add: traced_def emits_log_ok)

lemma emits_lift_op: "emits [] (on_m (lift_op f))"
  by (auto simp: emits_def on_m_def lift_op_def split: prod.splits)

lemma concat_map_single: "concat (map (\<lambda>x. [f x]) xs) = map f xs"
  by (induction xs) auto

lemma emits_iter_single:
  assumes "\<And>x. emits [h x] (f x)"
  shows "emits (map h xs) (act_iter f xs)"
  using emits_iter [of "\<lambda>x. [h x]" f xs, OF assms] by (simp only: concat_map_single)

lemmas emits_rules = emits_ret emits_fail emits_lift emits_ensure emits_get_m emits_on_c emits_watch
  emits_save_incoming emits_save_outgoing emits_store emits_watchtower emits_confirmed emits_lift_op

lemma emits_mapM:
  assumes "\<And>x. emits (h x) (f x)"
  shows "emits (concat (map h xs)) (act_mapM f xs)"
proof (induction xs)
  case Nil
  then show ?case by (simp add: emits_ret)
next
  case (Cons x xs)
  then show ?case using assms by (simp add: emits_bind emits_bind_Nil emits_ret)
qed

lemma emits_foldM:
  assumes "\<And>b x. emits [] (f b x)"
  shows "emits [] (act_foldM f b xs)"
  by (induction xs arbitrary: b) (simp_all add: emits_ret emits_Nil_bind assms)

section \<open>A maker for evaluation\<close>

text \<open>A maker whose calls all succeed and change nothing.\<close>

definition idle_bond :: fidelity_bond where
  "idle_bond = \<lparr>fb_outpoint = \<lparr>op_txid = [], op_vout = 0\<rparr>, fb_amount = 0, fb_lock_time = 0, fb_pubkey = compressed_key [],
     fb_conf_height = None, fb_is_spent = False, fb_bond_index = 0, fb_tx = None\<rparr>"

definition idle_maker :: "unit maker_ops" where
  "idle_maker = \<lparr>
     mk_is_watchtower_alive = (\<lambda>_. True),
     mk_get_tweakable_keypair = act_ret ([], compressed_key [], []),
     mk_get_fidelity_proof = act_ret \<lparr>fp_bond = idle_bond, fp_cert_hash = [], fp_cert_sig = []\<rparr>,
     mk_get_config = (\<lambda>_. \<lparr>mc_base_fee = 0, mc_amount_relative_fee_pct = 0, mc_time_relative_fee_pct = 0,
       mc_min_swap_amount = 0, mc_max_swap_amount = 0, mc_required_confirms = 0, mc_supported_protocols = []\<rparr>),
     mk_validate_swap_parameters = (\<lambda>_. act_ret 0),
     mk_calculate_swap_fee = (\<lambda>_ _ _. 0),
     mk_create_funding_transaction = (\<lambda>_ _ _. act_ret (\<lparr>tx_version = 2, tx_lock_time = 0, tx_input = [], tx_output = []\<rparr>, 0)),
     mk_broadcast_transaction = (\<lambda>_. act_ret []),
     mk_is_transaction_known = (\<lambda>_ _. True),
     mk_save_incoming_swapcoin = (\<lambda>_. act_ret ()),
     mk_save_outgoing_swapcoin = (\<lambda>_. act_ret ()),
     mk_register_watch_outpoint = (\<lambda>_ _. act_ret ()),
     mk_unwatch_outpoint = (\<lambda>_ _ m. m),
     mk_sync_and_save_wallet = act_ret (),
     mk_get_raw_transaction = (\<lambda>_. act_ret \<lparr>tx_version = 2, tx_lock_time = 0, tx_input = [], tx_output = []\<rparr>),
     mk_sweep_incoming_swapcoins = (\<lambda>_. act_ret \<lparr>ro_resolved = [], ro_discarded = []\<rparr>),
     mk_store_connection_state = (\<lambda>_ _ _. act_ret ()),
     mk_get_connection_state = (\<lambda>_. act_ret None),
     mk_remove_connection_state = (\<lambda>_. act_ret ()),
     mk_collect_excluded_utxos = (\<lambda>_. act_ret []),
     mk_get_current_height = act_ret 0,
     mk_swap_past_refund_deadline = (\<lambda>_. act_ret False),
     mk_wait_for_tx_on_chain = (\<lambda>_ _. act_ret ()),
     mk_verify_and_sign_sender_contract_txs = (\<lambda>_ _ _. act_ret []),
     mk_verify_proof_of_funding = (\<lambda>_. act_ret []),
     mk_initialize_openswap = (\<lambda>_ _ _ _ _ _ _. act_ret ([], [], 0)),
     mk_find_outgoing_swapcoin = (\<lambda>_ _. None)\<rparr>"

end
