(* ===== verification/MakerLegacy.thy ===== *)
theory MakerLegacy
  imports MakerTrace
begin

text \<open>
  The maker's side of the legacy (ECDSA) swap: \<open>maker/legacy_verification.rs\<close> and
  \<open>maker/legacy_handlers.rs\<close>. Every handler is generic in the \<open>Maker\<close> trait. The lemmas say
  what a handler has checked when it succeeds and in which order it acts: keys are handed over
  only against keys that open every incoming coin, and funding is broadcast only after the
  signatures are verified, the watches armed and the coins saved.
\<close>

section \<open>Verification\<close>

definition sender_contract_ok ::
    "btc \<Rightarrow> public_key \<Rightarrow> bytes \<Rightarrow> nat \<Rightarrow> contract_tx_info_for_sender \<Rightarrow> maker_error + unit" where
  "sender_contract_ok B tweakable_pubkey hashvalue taker_locktime txinfo =
     res_bind (map_err (perr (\<lambda>_. MGeneral ''Sender contract invalid multisig redeemscript''))
       (check_reedemscript_is_multisig B (cis_multisig_redeemscript txinfo))) (\<lambda>_.
     res_bind (map_err (perr (\<lambda>_. MGeneral ''Sender contract multisig doesn't contain maker's pubkey''))
       (check_multisig_has_pubkey B (cis_multisig_redeemscript txinfo) tweakable_pubkey (cis_multisig_nonce txinfo))) (\<lambda>_.
     case (tx_input (cis_senders_contract_tx txinfo), tx_output (cis_senders_contract_tx txinfo)) of
       ([_], [out]) \<Rightarrow>
         res_bind (map_err (\<lambda>_. MGeneral ''Sender contract hashlock key derivation failed'')
           (calculate_pubkey_from_nonce B tweakable_pubkey (cis_hashlock_nonce txinfo))) (\<lambda>hashlock_pubkey.
         map_err (perr (\<lambda>_. MGeneral ''Sender contract output invalid''))
           (is_contract_out_valid B out hashlock_pubkey (cis_timelock_pubkey txinfo) hashvalue taker_locktime 0))
     | _ \<Rightarrow> Inl (MGeneral ''Sender contract tx has invalid structure'')))"

definition verify_req_contract_sigs_for_sender ::
    "btc \<Rightarrow> contract_tx_info_for_sender list \<Rightarrow> public_key \<Rightarrow> bytes \<Rightarrow> nat \<Rightarrow> maker_error + unit" where
  "verify_req_contract_sigs_for_sender B txs_info tweakable_pubkey hashvalue locktime =
     (if txs_info = [] then Inl (MGeneral ''Empty sender contract txs info from taker'')
      else res_bind (ok_or (checked_add 16 locktime REFUND_LOCKTIME_STEP)
          (MGeneral ''Sender contract locktime overflows the refund step'')) (\<lambda>taker_locktime.
        res_all (sender_contract_ok B tweakable_pubkey hashvalue taker_locktime) txs_info))"

definition verify_receiver_sig :: "btc \<Rightarrow> ecdsa_sig \<times> incoming_swapcoin \<Rightarrow> maker_error + unit" where
  "verify_receiver_sig B = (\<lambda>(sig, incoming).
     res_bind (ok_or (inc_other_pubkey incoming)
       (MGeneral ''Incoming swapcoin missing other_pubkey for signature verification'')) (\<lambda>other_pubkey.
     res_bind (ok_or (inc_my_pubkey incoming) (MGeneral ''Incoming swapcoin missing my_pubkey'')) (\<lambda>my_pubkey.
     map_err (\<lambda>_. MGeneral ''Receiver signature verification failed'')
       (verify_contract_tx_sig B (inc_contract_tx incoming) (create_multisig_redeemscript B my_pubkey other_pubkey)
          (inc_funding_amount incoming) other_pubkey (sig_inner sig)))))"

definition verify_sender_sig :: "btc \<Rightarrow> ecdsa_sig \<times> outgoing_swapcoin \<Rightarrow> maker_error + unit" where
  "verify_sender_sig B = (\<lambda>(sig, outgoing).
     res_bind (ok_or (og_other_pubkey outgoing)
       (MGeneral ''Outgoing swapcoin missing other_pubkey for signature verification'')) (\<lambda>other_pubkey.
     res_bind (ok_or (og_my_pubkey outgoing) (MGeneral ''Outgoing swapcoin missing my_pubkey'')) (\<lambda>my_pubkey.
     map_err (\<lambda>_. MGeneral ''Sender signature verification failed'')
       (verify_contract_tx_sig B (og_contract_tx outgoing) (create_multisig_redeemscript B my_pubkey other_pubkey)
          (og_funding_amount outgoing) other_pubkey (sig_inner sig)))))"

definition verify_contract_sigs ::
    "btc \<Rightarrow> ecdsa_sig list \<Rightarrow> ecdsa_sig list \<Rightarrow> incoming_swapcoin list \<Rightarrow> outgoing_swapcoin list \<Rightarrow> maker_error + unit" where
  "verify_contract_sigs B receivers_sigs senders_sigs incoming_swapcoins outgoing_swapcoins =
     res_bind (res_all (verify_receiver_sig B) (zip receivers_sigs incoming_swapcoins)) (\<lambda>_.
     res_all (verify_sender_sig B) (zip senders_sigs outgoing_swapcoins))"

definition privkey_opens :: "btc \<Rightarrow> swap_privkey \<times> incoming_swapcoin \<Rightarrow> maker_error + unit" where
  "privkey_opens B = (\<lambda>(privkey_info, incoming).
     res_bind (ok_or (inc_other_pubkey incoming)
       (MGeneral ''Missing other_pubkey on incoming swapcoin during handover verification'')) (\<lambda>expected_pubkey.
     ensure (compressed_key (b_pubkey_of B (sp_key privkey_info)) = expected_pubkey)
       (MGeneral ''Privkey derives pubkey that doesn't match expected other_pubkey'')))"

definition verify_legacy_privkey_handover ::
    "btc \<Rightarrow> swap_privkey list \<Rightarrow> incoming_swapcoin list \<Rightarrow> maker_error + unit" where
  "verify_legacy_privkey_handover B privkeys incoming_swapcoins =
     (if length privkeys \<noteq> length incoming_swapcoins
      then Inl (MGeneral ''Privkey count doesn't match incoming swapcoin count'')
      else res_all (privkey_opens B) (zip privkeys incoming_swapcoins))"

section \<open>Signing the sender's contracts\<close>

definition process_req_contract_sigs_for_sender ::
    "'m maker_ops \<Rightarrow> req_contract_sigs_for_sender \<Rightarrow> ('m, maker_to_taker_message option) hact" where
  "process_req_contract_sigs_for_sender M req =
     act_seq (on_c (expect_phase [AwaitingContractData, AwaitingSignaturesOrPreimage])) (
     act_seq (on_c (check_swap_id (rcs_id req))) (
     act_bind (get_c cs_timelock) (\<lambda>timelock.
     act_seq (act_ensure (rcs_locktime req = timelock)
       (MGeneral ''Sender contract locktime does not match the negotiated timelock'')) (
     act_bind (on_m (mk_verify_and_sign_sender_contract_txs M (rcs_txs_info req) (rcs_hashvalue req) (rcs_locktime req))) (\<lambda>sigs.
     act_bind (get_c id) (\<lambda>state.
     act_seq (on_m (mk_store_connection_state M (rcs_id req) state False)) (
     act_ret (Some (MtRespContractSigsForSender \<lparr>rsps_id = rcs_id req, rsps_sigs = sigs\<rparr>)))))))))"

section \<open>Proof of funding\<close>

definition maker_find_funding_output_index :: "btc \<Rightarrow> funding_tx_info \<Rightarrow> maker_error + nat" where
  "maker_find_funding_output_index B info =
     res_bind (map_err (\<lambda>_. MGeneral ''Failed to convert redeemscript'')
       (redeemscript_to_scriptpubkey B (fti_multisig_redeemscript info))) (\<lambda>multisig_spk.
     ok_or (position (\<lambda>out. to_spk out = multisig_spk) (tx_output (fti_funding_tx info)))
       (MGeneral ''Funding output doesn't match with multisig redeem script''))"

definition funding_output :: "btc \<Rightarrow> funding_tx_info \<Rightarrow> maker_error + (nat \<times> txout)" where
  "funding_output B info =
     res_bind (maker_find_funding_output_index B info) (\<lambda>i.
     res_bind (ok_or (nth_opt (tx_output (fti_funding_tx info)) i) (MGeneral ''Funding output not found'')) (\<lambda>out.
     Inr (i, out)))"

definition declared_incoming :: "btc \<Rightarrow> proof_of_funding \<Rightarrow> maker_error + amount" where
  "declared_incoming B pof = res_fold (\<lambda>total info.
     res_bind (funding_output B info) (\<lambda>(_, out).
     ok_or (checked_add 64 total (to_value out)) (MGeneral ''Funding output amounts overflow'')))
     0 (pof_confirmed_funding_txes pof)"

definition pof_incoming_coin :: "btc \<Rightarrow> swap_id \<Rightarrow> seckey \<Rightarrow> funding_tx_info \<Rightarrow> maker_error + incoming_swapcoin" where
  "pof_incoming_coin B swap_id tweakable_privkey info =
     res_bind (map_err (perr MProtocol)
       (read_pubkeys_from_multisig_redeemscript B (fti_multisig_redeemscript info))) (\<lambda>(pubkey1, pubkey2).
     res_bind (funding_output B info) (\<lambda>(funding_output_index, funding_output).
     res_bind (ok_or (b_add_tweak B tweakable_privkey (fti_multisig_nonce info)) MSecp) (\<lambda>multisig_privkey.
     let multisig_pubkey = compressed_key (b_pubkey_of B multisig_privkey);
         other_pubkey = (if multisig_pubkey = pubkey1 then pubkey2 else pubkey1) in
     res_bind (ok_or (b_add_tweak B tweakable_privkey (fti_hashlock_nonce info)) MSecp) (\<lambda>hashlock_privkey.
     res_bind (map_err (perr MProtocol) (create_receivers_contract_tx B
         \<lparr>op_txid = b_txid B (fti_funding_tx info), op_vout = funding_output_index\<rparr>
         (to_value funding_output) (fti_contract_redeemscript info))) (\<lambda>receiver_contract_tx.
     Inr ((inc_new_legacy B multisig_privkey other_pubkey receiver_contract_tx (fti_contract_redeemscript info)
       hashlock_privkey (to_value funding_output))\<lparr>inc_swap_id := Some swap_id\<rparr>))))))"

definition pof_incoming_coins :: "btc \<Rightarrow> seckey \<Rightarrow> proof_of_funding \<Rightarrow> maker_error + (incoming_swapcoin list \<times> amount)" where
  "pof_incoming_coins B tweakable_privkey pof = res_fold (\<lambda>(coins, incoming_amount) info.
     res_bind (pof_incoming_coin B (pof_id pof) tweakable_privkey info) (\<lambda>coin.
     res_bind (ok_or (checked_add 64 incoming_amount (inc_funding_amount coin)) MPanic) (\<lambda>total.
     Inr (coins @ [coin], total)))) ([], 0) (pof_confirmed_funding_txes pof)"

definition register_contract_outputs :: "btc \<Rightarrow> 'm maker_ops \<Rightarrow> transaction \<Rightarrow> ('m, unit) hact" where
  "register_contract_outputs B M tx = act_iter (\<lambda>(vout, txout).
     on_m (mk_register_watch_outpoint M \<lparr>op_txid = b_txid B tx, op_vout = vout\<rparr> (to_spk txout)))
     (enumerate 0 (tx_output tx))"

text \<open>\<open>funding_txes[i]\<close>, \<open>next_multisig_nonces[i]\<close> and \<open>next_hashlock_nonces[i]\<close> panic out of range.\<close>

definition pof_sender_info ::
    "btc \<Rightarrow> next_hop_info list \<Rightarrow> transaction list \<Rightarrow> nat \<times> outgoing_swapcoin \<Rightarrow> maker_error + sender_contract_tx_info" where
  "pof_sender_info B next_infos funding_txes = (\<lambda>(i, osc).
     let contract_redeemscript = (case og_contract_redeemscript osc of Some rs \<Rightarrow> rs | None \<Rightarrow> []);
         multisig_redeemscript = (case (og_my_pubkey osc, og_other_pubkey osc) of
           (Some my_pub, Some other_pub) \<Rightarrow> create_multisig_redeemscript B my_pub other_pub
         | _ \<Rightarrow> contract_redeemscript) in
     res_bind (ok_or (nth_opt funding_txes i) MPanic) (\<lambda>funding_tx.
     res_bind (ok_or (nth_opt next_infos i) MPanic) (\<lambda>next_info.
     Inr \<lparr>sct_funding_tx = funding_tx,
       sct_contract_tx = og_contract_tx osc,
       sct_timelock_pubkey = compressed_key (b_pubkey_of B (og_timelock_privkey osc)),
       sct_multisig_redeemscript = multisig_redeemscript,
       sct_contract_redeemscript = contract_redeemscript,
       sct_funding_amount = og_funding_amount osc,
       sct_multisig_nonce = nhi_next_multisig_nonce next_info,
       sct_hashlock_nonce = nhi_next_hashlock_nonce next_info\<rparr>)))"

text \<open>The outpoints \<open>reserve_utxo\<close> is set to: every output of the funding transactions.\<close>

definition funding_output_outpoints :: "btc \<Rightarrow> transaction list \<Rightarrow> outpoint list" where
  "funding_output_outpoints B txs = concat (map (\<lambda>tx.
     map (\<lambda>vout. \<lparr>op_txid = b_txid B tx, op_vout = vout\<rparr>) [0..<length (tx_output tx)]) txs)"

text \<open>\<open>process_proof_of_funding\<close> in the order of the source: checks, incoming coins, outgoing coins.\<close>

definition pof_check :: "btc \<Rightarrow> proof_of_funding \<Rightarrow> conn \<Rightarrow> maker_error + unit" where
  "pof_check B pof c =
     res_bind (expect_phase [AwaitingContractData, AwaitingSignaturesOrPreimage] c) (\<lambda>_.
     res_bind (check_swap_id (pof_id pof) c) (\<lambda>_.
     res_bind (ensure (pof_refund_locktime pof = cs_timelock c)
       (MGeneral ''ProofOfFunding refund locktime does not match the negotiated timelock'')) (\<lambda>_.
     res_bind (ensure (length (pof_confirmed_funding_txes pof) = cs_tx_count c)
       (MGeneral ''ProofOfFunding tx count does not match the negotiated tx count'')) (\<lambda>_.
     res_bind (declared_incoming B pof) (\<lambda>declared.
     ensure (incoming_within_swap_amount declared (cs_swap_amount c))
       (MGeneral ''ProofOfFunding incoming amount exceeds the negotiated swap amount''))))))"

definition pof_incoming :: "btc \<Rightarrow> 'm maker_ops \<Rightarrow> proof_of_funding \<Rightarrow> ('m, amount) hact" where
  "pof_incoming B M pof =
     act_seq (set_c (\<lambda>c. c\<lparr>cs_contract_feerate := pof_contract_feerate pof\<rparr>)) (
     act_bind (on_m (mk_get_tweakable_keypair M)) (\<lambda>(tweakable_privkey, _, _).
     act_bind (act_lift (pof_incoming_coins B tweakable_privkey pof)) (\<lambda>(incoming_swapcoins, incoming_amount).
     act_seq (set_c (\<lambda>c. c\<lparr>cs_incoming := incoming_swapcoins\<rparr>)) (
     act_seq (act_iter (\<lambda>incoming. register_contract_outputs B M (inc_contract_tx incoming)) incoming_swapcoins) (
     act_ret incoming_amount)))))"

definition pof_outgoing_amount :: "btc \<Rightarrow> proof_of_funding \<Rightarrow> amount \<Rightarrow> amount \<Rightarrow> maker_error + amount" where
  "pof_outgoing_amount B pof incoming_amount swap_fee =
     res_bind (ok_or (estimate_funding_tx_fee_sats B) MPanic) (\<lambda>fee.
     let mining_fee = wrapping_mul 64 fee (length (pof_next_openswap_info pof)) in
     ok_or (case checked_sub incoming_amount swap_fee of
         None \<Rightarrow> None | Some amt \<Rightarrow> checked_sub amt mining_fee)
       (MGeneral ''Swap fee exceeds incoming amount''))"

definition pof_outgoing :: "btc \<Rightarrow> 'm maker_ops \<Rightarrow> proof_of_funding \<Rightarrow> bytes \<Rightarrow> amount
    \<Rightarrow> ('m, sender_contract_tx_info list) hact" where
  "pof_outgoing B M pof hashvalue incoming_amount =
     act_bind (get_m (mk_calculate_swap_fee M incoming_amount (pof_refund_locktime pof))) (\<lambda>swap_fee.
     act_seq (set_c (\<lambda>c. c\<lparr>cs_service_fee_sats := swap_fee\<rparr>)) (
     act_bind (act_lift (pof_outgoing_amount B pof incoming_amount swap_fee)) (\<lambda>outgoing_amount.
     act_seq (on_m (mk_sync_and_save_wallet M)) (
     act_bind (on_m (mk_collect_excluded_utxos M (pof_id pof))) (\<lambda>excluded_utxos.
     act_bind (on_m (mk_initialize_openswap M outgoing_amount
         (map nhi_next_multisig_pubkey (pof_next_openswap_info pof))
         (map nhi_next_hashlock_pubkey (pof_next_openswap_info pof))
         hashvalue (pof_refund_locktime pof) (pof_contract_feerate pof) (Some excluded_utxos)))
       (\<lambda>(funding_txes, outgoing, _).
     let outgoing_swapcoins = map (\<lambda>og. og\<lparr>og_swap_id := Some (pof_id pof)\<rparr>) outgoing in
     act_seq (set_c (\<lambda>c. c\<lparr>cs_reserve_utxo := funding_output_outpoints B funding_txes,
       cs_outgoing := outgoing_swapcoins, cs_pending_funding_txes := funding_txes\<rparr>)) (
     act_lift (res_map (pof_sender_info B (pof_next_openswap_info pof) funding_txes)
       (enumerate 0 outgoing_swapcoins)))))))))"

definition process_proof_of_funding ::
    "btc \<Rightarrow> 'm maker_ops \<Rightarrow> proof_of_funding \<Rightarrow> ('m, maker_to_taker_message option) hact" where
  "process_proof_of_funding B M pof =
     act_seq (on_c (pof_check B pof)) (
     act_bind (on_m (mk_verify_proof_of_funding M pof)) (\<lambda>hashvalue.
     act_bind (pof_incoming B M pof) (\<lambda>incoming_amount.
     act_bind (pof_outgoing B M pof hashvalue incoming_amount) (\<lambda>senders_contract_txs_info.
     act_bind (get_c (\<lambda>c. map inc_contract_tx (cs_incoming c))) (\<lambda>receivers_contract_txs.
     act_seq (set_c (\<lambda>c. c\<lparr>cs_phase := AwaitingSignaturesOrPreimage\<rparr>)) (
     act_bind (get_c id) (\<lambda>state.
     act_seq (on_m (mk_store_connection_state M (pof_id pof) state False)) (
     act_ret (Some (MtReqContractSigsAsRecvrAndSender
       \<lparr>rrs_receivers_contract_txs = receivers_contract_txs,
        rrs_senders_contract_txs_info = senders_contract_txs_info\<rparr>))))))))))"

section \<open>Contract signatures and the funding broadcast\<close>

text \<open>\<open>iter().zip(iter_mut())\<close>: the coins past the shorter list are left as they are.\<close>

fun zip_update :: "('a \<Rightarrow> 'c \<Rightarrow> 'c) \<Rightarrow> 'a list \<Rightarrow> 'c list \<Rightarrow> 'c list" where
  "zip_update f (x # xs) (c # cs) = f x c # zip_update f xs cs"
| "zip_update f [] cs = cs"
| "zip_update f xs [] = []"

definition already_broadcast_error :: "maker_error \<Rightarrow> bool" where
  "already_broadcast_error e = (case e of
     MWallet (WRpc (Some (code, message))) \<Rightarrow>
       code = - 27 \<or> (let msg = ascii_lower message in
         str_contains ''already in block chain'' msg \<or> str_contains ''already in mempool'' msg
         \<or> str_contains ''already in utxo set'' msg \<or> str_contains ''txn-already-in-mempool'' msg)
   | _ \<Rightarrow> False)"

definition broadcast_funding_tx :: "btc \<Rightarrow> 'm maker_ops \<Rightarrow> transaction \<Rightarrow> ('m, unit) hact" where
  "broadcast_funding_tx B M funding_tx =
     act_try (on_m (mk_broadcast_transaction M funding_tx)) (\<lambda>r. case r of
       Inr txid \<Rightarrow> act_ret ()
     | Inl e \<Rightarrow>
         if already_broadcast_error e then act_ret ()
         else act_bind (get_m (mk_is_transaction_known M (b_txid B funding_tx))) (\<lambda>known.
           if known then act_ret () else act_fail e))"

definition attach_inc_sig :: "ecdsa_sig \<Rightarrow> incoming_swapcoin \<Rightarrow> incoming_swapcoin" where
  "attach_inc_sig sig coin = coin\<lparr>inc_others_contract_sig := Some sig\<rparr>"

definition attach_og_sig :: "ecdsa_sig \<Rightarrow> outgoing_swapcoin \<Rightarrow> outgoing_swapcoin" where
  "attach_og_sig sig coin = coin\<lparr>og_others_contract_sig := Some sig\<rparr>"

definition resp_sigs_check :: "btc \<Rightarrow> resp_contract_sigs_for_recvr_and_sender \<Rightarrow> conn \<Rightarrow> maker_error + unit" where
  "resp_sigs_check B resp c =
     res_bind (expect_phase [AwaitingSignaturesOrPreimage] c) (\<lambda>_.
     res_bind (check_swap_id (rsr_id resp) c) (\<lambda>_.
     res_bind (ensure (length (rsr_receivers_sigs resp) = length (cs_incoming c))
       (MGeneral ''Invalid number of receiver signatures'')) (\<lambda>_.
     res_bind (ensure (length (rsr_senders_sigs resp) = length (cs_outgoing c))
       (MGeneral ''Invalid number of sender signatures'')) (\<lambda>_.
     verify_contract_sigs B (rsr_receivers_sigs resp) (rsr_senders_sigs resp) (cs_incoming c) (cs_outgoing c)))))"

text \<open>Watches, the watchtower check, the wallet records and the broadcast, in this order.\<close>

definition commit_funding :: "btc \<Rightarrow> 'm maker_ops \<Rightarrow> conn \<Rightarrow> ('m, unit) hact" where
  "commit_funding B M c =
     act_seq (act_iter (\<lambda>outgoing. register_contract_outputs B M (og_contract_tx outgoing)) (cs_outgoing c)) (
     act_seq (ensure_watchtower_alive M) (
     act_seq (act_iter (\<lambda>incoming. on_m (mk_save_incoming_swapcoin M incoming)) (cs_incoming c)) (
     act_seq (act_iter (\<lambda>outgoing. on_m (mk_save_outgoing_swapcoin M outgoing)) (cs_outgoing c)) (
     act_iter (broadcast_funding_tx B M) (cs_pending_funding_txes c)))))"

definition process_resp_contract_sigs_for_recvr_and_sender ::
    "btc \<Rightarrow> 'm maker_ops \<Rightarrow> resp_contract_sigs_for_recvr_and_sender \<Rightarrow> ('m, maker_to_taker_message option) hact" where
  "process_resp_contract_sigs_for_recvr_and_sender B M resp =
     act_seq (on_c (resp_sigs_check B resp)) (
     act_seq (set_c (\<lambda>c. c\<lparr>
       cs_incoming := zip_update attach_inc_sig (rsr_receivers_sigs resp) (cs_incoming c),
       cs_outgoing := zip_update attach_og_sig (rsr_senders_sigs resp) (cs_outgoing c)\<rparr>)) (
     act_bind (get_c id) (\<lambda>state.
     act_seq (commit_funding B M state) (
     act_seq (set_c (\<lambda>c. c\<lparr>cs_pending_funding_txes := [], cs_funding_broadcast := True,
       cs_phase := AwaitingPrivateKeyHandover\<rparr>)) (
     act_bind (get_c id) (\<lambda>state.
     act_seq (on_m (mk_store_connection_state M (rsr_id resp) state False)) (
     act_ret None)))))))"

section \<open>Signing the receiver's contracts\<close>

definition sign_receiver_contract :: "btc \<Rightarrow> 'm maker_ops \<Rightarrow> contract_tx_info_for_recvr \<Rightarrow> ('m, ecdsa_sig) hact" where
  "sign_receiver_contract B M txinfo = (case (tx_input (cir_contract_tx txinfo), tx_output (cir_contract_tx txinfo)) of
     ([inp], [_]) \<Rightarrow>
       act_bind (get_m (mk_find_outgoing_swapcoin M (cir_multisig_redeemscript txinfo))) (\<lambda>found. case found of
         None \<Rightarrow> act_fail (MGeneral ''Could not find matching outgoing swapcoin'')
       | Some outgoing \<Rightarrow>
         act_seq (act_ensure (case og_funding_tx outgoing of
             Some funding_tx \<Rightarrow> op_txid (ti_prev inp) = b_txid B funding_tx
           | None \<Rightarrow> True) (MGeneral ''Receiver contract tx spends from an unexpected transaction'')) (
         case og_my_privkey outgoing of
           None \<Rightarrow> act_fail (MGeneral ''No private key in outgoing swapcoin'')
         | Some privkey \<Rightarrow> act_lift (map_err (\<lambda>_. MGeneral ''Failed to sign receiver contract tx'')
             (sign_contract_tx B (cir_contract_tx txinfo) (cir_multisig_redeemscript txinfo)
               (og_funding_amount outgoing) privkey))))
   | _ \<Rightarrow> act_fail (MGeneral ''Receiver contract tx has invalid structure''))"

definition process_req_contract_sigs_for_recvr ::
    "btc \<Rightarrow> 'm maker_ops \<Rightarrow> req_contract_sigs_for_recvr \<Rightarrow> ('m, maker_to_taker_message option) hact" where
  "process_req_contract_sigs_for_recvr B M req =
     act_seq (on_c (expect_phase [AwaitingPrivateKeyHandover])) (
     act_seq (on_c (check_swap_id (rcr_id req))) (
     act_bind (act_mapM (sign_receiver_contract B M) (rcr_txs req)) (\<lambda>sigs.
     act_ret (Some (MtRespContractSigsForRecvr \<lparr>rspr_id = rcr_id req, rspr_sigs = sigs\<rparr>)))))"

section \<open>Private key handover\<close>

definition outgoing_handover_key :: "outgoing_swapcoin \<Rightarrow> maker_error + swap_privkey" where
  "outgoing_handover_key outgoing =
     res_bind (ok_or (og_my_privkey outgoing) (MGeneral ''No private key in outgoing swapcoin'')) (\<lambda>privkey.
     Inr \<lparr>sp_identifier = [], sp_key = privkey\<rparr>)"

definition store_handover_key :: "swap_privkey \<Rightarrow> incoming_swapcoin \<Rightarrow> incoming_swapcoin" where
  "store_handover_key privkey incoming = incoming\<lparr>inc_other_privkey := Some (sp_key privkey)\<rparr>"

definition process_legacy_handover ::
    "btc \<Rightarrow> 'm maker_ops \<Rightarrow> private_key_handover \<Rightarrow> ('m, maker_to_taker_message option) hact" where
  "process_legacy_handover B M handover =
     act_seq (on_c (expect_phase [AwaitingPrivateKeyHandover])) (
     act_seq (on_c (check_swap_id (ph_id handover))) (
     act_bind (get_c id) (\<lambda>state.
     act_seq (act_ensure (cs_outgoing state \<noteq> []) (MGeneral ''No outgoing swapcoin found'')) (
     act_seq (act_lift (verify_legacy_privkey_handover B (ph_privkeys handover) (cs_incoming state))) (
     act_bind (act_lift (res_map outgoing_handover_key (cs_outgoing state))) (\<lambda>privkeys.
     let incoming_swapcoins = zip_update store_handover_key (ph_privkeys handover) (cs_incoming state) in
     act_seq (set_c (\<lambda>c. c\<lparr>cs_incoming := incoming_swapcoins\<rparr>)) (
     act_seq (act_iter (\<lambda>incoming. on_m (mk_save_incoming_swapcoin M incoming)) incoming_swapcoins) (
     act_seq (set_c (\<lambda>c. c\<lparr>cs_phase := Completed\<rparr>)) (
     act_ret (Some (MtLegacyPrivateKeyHandover \<lparr>ph_id = ph_id handover, ph_privkeys = privkeys\<rparr>)))))))))))"

definition handle_legacy_message ::
    "btc \<Rightarrow> 'm maker_ops \<Rightarrow> legacy_taker_message \<Rightarrow> ('m, maker_to_taker_message option) hact" where
  "handle_legacy_message B M message = (case message of
     LReqContractSigsForSender req \<Rightarrow> process_req_contract_sigs_for_sender M req
   | LProofOfFunding pof \<Rightarrow> process_proof_of_funding B M pof
   | LRespContractSigsForRecvrAndSender resp \<Rightarrow> process_resp_contract_sigs_for_recvr_and_sender B M resp
   | LReqContractSigsForRecvr req \<Rightarrow> process_req_contract_sigs_for_recvr B M req
   | LPrivateKeyHandover handover \<Rightarrow> process_legacy_handover B M handover)"

section \<open>What the checks establish\<close>

lemma res_all_zip_iff:
  assumes "\<And>x. (f x = Inr ()) = P x" and "length xs = length ys"
  shows "res_all f (zip xs ys) = Inr () \<longleftrightarrow> (\<forall>i<length xs. P (xs ! i, ys ! i))"
proof -
  have "res_all f (zip xs ys) = Inr () \<longleftrightarrow> (\<forall>z\<in>set (zip xs ys). P z)"
    using assms(1) by (simp add: res_all_Inr_iff)
  also have "\<dots> \<longleftrightarrow> (\<forall>i<length xs. P (xs ! i, ys ! i))"
    using assms(2) by (auto simp: set_zip)
  finally show ?thesis .
qed

lemma length_zip_update [simp]: "length (zip_update f xs cs) = length cs"
  by (induction f xs cs rule: zip_update.induct) auto

lemma nth_zip_update:
  "i < length xs \<Longrightarrow> i < length cs \<Longrightarrow> zip_update f xs cs ! i = f (xs ! i) (cs ! i)"
  by (induction f xs cs arbitrary: i rule: zip_update.induct) (auto simp: nth_Cons split: nat.splits)

lemma zip_update_eq_map2: "length xs = length cs \<Longrightarrow> zip_update f xs cs = map2 f xs cs"
  by (induction f xs cs rule: zip_update.induct) auto

lemma privkey_opens_iff:
  "privkey_opens B (k, coin) = Inr () \<longleftrightarrow> inc_other_pubkey coin = Some (compressed_key (b_pubkey_of B (sp_key k)))"
  by (auto simp: privkey_opens_def res_simps)

lemma handover_verified_iff:
  "verify_legacy_privkey_handover B ks coins = Inr () \<longleftrightarrow> length ks = length coins \<and>
     (\<forall>i<length coins. inc_other_pubkey (coins ! i) = Some (compressed_key (b_pubkey_of B (sp_key (ks ! i)))))"
  using res_all_zip_iff [of "privkey_opens B"
      "\<lambda>(k, coin). inc_other_pubkey coin = Some (compressed_key (b_pubkey_of B (sp_key k)))" ks coins]
  by (auto simp: verify_legacy_privkey_handover_def privkey_opens_iff)

lemma outgoing_keys_iff:
  "res_map outgoing_handover_key coins = Inr ks \<longleftrightarrow>
     map og_my_privkey coins = map (Some \<circ> sp_key) ks \<and> (\<forall>k\<in>set ks. sp_identifier k = [])"
proof (induction coins arbitrary: ks)
  case Nil
  then show ?case by auto
next
  case (Cons c coins)
  then show ?case
    by (cases ks) (auto simp: outgoing_handover_key_def res_simps)
qed

section \<open>Order of the funding broadcast\<close>

definition watch_events :: "btc \<Rightarrow> transaction \<Rightarrow> event list" where
  "watch_events B tx = map (\<lambda>(vout, out). EvWatch \<lparr>op_txid = b_txid B tx, op_vout = vout\<rparr> (to_spk out))
     (enumerate 0 (tx_output tx))"

definition commit_events :: "btc \<Rightarrow> conn \<Rightarrow> event list" where
  "commit_events B c = concat (map (watch_events B \<circ> og_contract_tx) (cs_outgoing c))
     @ map EvSaveIncoming (cs_incoming c) @ map EvSaveOutgoing (cs_outgoing c)
     @ map EvBroadcast (cs_pending_funding_txes c)"

lemma emits_register: "emits (watch_events B tx) (register_contract_outputs B (traced M) tx)"
  unfolding register_contract_outputs_def watch_events_def
  by (rule emits_iter_single) (simp add: emits_watch split_def)

lemma emits_broadcast: "emits [EvBroadcast tx] (broadcast_funding_tx B (traced M) tx)"
  unfolding emits_def
proof (intro allI)
  fix m l c
  show "\<exists>r m' p. broadcast_funding_tx B (traced M) tx ((m, l), c) = (r, ((m', l @ p), c)) \<and> prefix p [EvBroadcast tx]
      \<and> (is_ok r \<longrightarrow> p = [EvBroadcast tx])"
    by (cases "mk_broadcast_transaction M tx m"; cases "fst (mk_broadcast_transaction M tx m)")
      (auto simp: broadcast_funding_tx_def act_try_def on_m_def log_call_def traced_def get_m_def act_bind_def
        act_ret_def act_fail_def)
qed

lemma emits_commit: "emits (commit_events B c) (commit_funding B (traced M) c)"
  unfolding commit_funding_def commit_events_def comp_def
  by (intro emits_bind emits_Nil_bind [OF emits_watchtower] emits_iter emits_iter_single emits_register
      emits_save_incoming emits_save_outgoing emits_broadcast)

text \<open>The connection with the peer's signatures attached, and with the broadcast recorded.\<close>

definition with_sigs :: "resp_contract_sigs_for_recvr_and_sender \<Rightarrow> conn \<Rightarrow> conn" where
  "with_sigs resp c = c\<lparr>cs_incoming := zip_update attach_inc_sig (rsr_receivers_sigs resp) (cs_incoming c),
     cs_outgoing := zip_update attach_og_sig (rsr_senders_sigs resp) (cs_outgoing c)\<rparr>"

definition after_broadcast :: "conn \<Rightarrow> conn" where
  "after_broadcast c = c\<lparr>cs_pending_funding_txes := [], cs_funding_broadcast := True, cs_phase := AwaitingPrivateKeyHandover\<rparr>"

lemma process_resp_at:
  "process_resp_contract_sigs_for_recvr_and_sender B M resp (m, c) = (case resp_sigs_check B resp c of
     Inl e \<Rightarrow> (Inl e, (m, c))
   | Inr _ \<Rightarrow> act_seq (commit_funding B M (with_sigs resp c)) (
       act_seq (set_c after_broadcast) (act_bind (get_c id) (\<lambda>state.
       act_seq (on_m (mk_store_connection_state M (rsr_id resp) state False)) (act_ret None)))) (m, with_sigs resp c))"
  by (simp add: process_resp_contract_sigs_for_recvr_and_sender_def act_bind_def on_c_def set_c_def get_c_def
      with_sigs_def after_broadcast_def [abs_def] split: sum.splits)

text \<open>
  C3. The maker broadcasts its legacy funding only when everything it needs to recover is in place.
  Whatever the trait's calls return, the sequence of committing calls the handler of
  \<open>RespContractSigsForRecvrAndSender\<close> makes is an initial part of: arm a watch on every output of
  every outgoing contract, save every incoming and every outgoing coin with the peer's signatures,
  broadcast the pending funding transactions, store the connection state. It makes none of these
  calls unless the phase, the swap id and all signatures were checked, and it reports success, with the
  phase moved to \<open>AwaitingPrivateKeyHandover\<close>, only when it has made all of them.
\<close>

theorem funding_broadcast_comes_last:
  assumes run: "process_resp_contract_sigs_for_recvr_and_sender B (traced M) resp ((m, []), c) = (r, ((m', evs), c'))"
  shows "prefix evs (commit_events B (with_sigs resp c)
        @ [EvStore (rsr_id resp) (after_broadcast (with_sigs resp c)) False])
    \<and> (evs \<noteq> [] \<longrightarrow> resp_sigs_check B resp c = Inr ())
    \<and> (is_ok r \<longrightarrow> c' = after_broadcast (with_sigs resp c) \<and> resp_sigs_check B resp c = Inr ()
        \<and> evs = commit_events B (with_sigs resp c) @ [EvStore (rsr_id resp) c' False])"
proof (cases "resp_sigs_check B resp c")
  case (Inl e)
  with run show ?thesis by (auto simp: process_resp_at is_ok_def)
next
  case (Inr u)
  let ?c = "with_sigs resp c"
  from emits_commit [of B ?c M] show ?thesis
  proof (cases rule: emitsE [where m = m and l = "[]" and c = ?c])
    case (ok x m1)
    have "emits [EvStore (rsr_id resp) (after_broadcast ?c) False]
        (on_m (mk_store_connection_state (traced M) (rsr_id resp) (after_broadcast ?c) False))"
      by (rule emits_store)
    then show ?thesis
    proof (cases rule: emitsE [where m = m1 and l = "commit_events B ?c" and c = "after_broadcast ?c"])
      case ok2: (ok y m2)
      with run Inr ok show ?thesis
        by (auto simp: process_resp_at act_bind_def set_c_def get_c_def act_ret_def is_ok_def)
    next
      case (err e m2 p)
      with run Inr ok show ?thesis
        by (auto simp: process_resp_at act_bind_def set_c_def get_c_def act_ret_def is_ok_def prefix_Cons)
    qed
  next
    case (err e m1 p)
    with run Inr show ?thesis
      by (auto simp: process_resp_at act_bind_def is_ok_def prefix_append)
  qed
qed

definition sample_tx :: transaction where
  "sample_tx = \<lparr>tx_version = 2, tx_lock_time = 0, tx_input = [], tx_output = [\<lparr>to_value = 5, to_spk = []\<rparr>]\<rparr>"

definition sample_pending :: conn where
  "sample_pending = (conn_default 0)\<lparr>cs_phase := AwaitingSignaturesOrPreimage, cs_pending_funding_txes := [sample_tx]\<rparr>"

definition sample_resp :: resp_contract_sigs_for_recvr_and_sender where
  "sample_resp = \<lparr>rsr_id = ''s'', rsr_receivers_sigs = [], rsr_senders_sigs = []\<rparr>"

theorem funding_broadcast_comes_last_witness:
  "snd (fst (snd (process_resp_contract_sigs_for_recvr_and_sender sample_lib (traced idle_maker) sample_resp (((), []), sample_pending))))
     = [EvBroadcast sample_tx, EvStore ''s'' (after_broadcast sample_pending) False]"
proof -
  let ?out = "process_resp_contract_sigs_for_recvr_and_sender sample_lib (traced idle_maker) sample_resp (((), []), sample_pending)"
  obtain r m evs c where out: "?out = (r, ((m, evs), c))" by (metis surj_pair)
  have "is_ok (fst ?out)"
    by (simp add: process_resp_at resp_sigs_check_def sample_resp_def sample_pending_def conn_default_def expect_phase_def
        check_swap_id_def verify_contract_sigs_def res_all_def commit_funding_def ensure_watchtower_alive_def traced_def
        idle_maker_def act_bind_def act_ret_def on_m_def log_ok_def log_call_def get_m_def get_c_def set_c_def act_ensure_def
        act_lift_def broadcast_funding_tx_def act_try_def with_sigs_def is_ok_def)
  moreover have "with_sigs sample_resp sample_pending = sample_pending"
    by (simp add: with_sigs_def sample_resp_def sample_pending_def conn_default_def)
  moreover have "commit_events sample_lib sample_pending = [EvBroadcast sample_tx]"
    by (simp add: commit_events_def sample_pending_def conn_default_def)
  ultimately show ?thesis
    using funding_broadcast_comes_last [OF out] out by (simp add: sample_resp_def)
qed

section \<open>Key handover\<close>

lemma emits_save_all: "emits (map EvSaveIncoming cs) (act_iter (\<lambda>x. on_m (mk_save_incoming_swapcoin (traced M) x)) cs)"
  by (rule emits_iter_single) (rule emits_save_incoming)

text \<open>
  What the two handover handlers have in common: a check that yields the keys to give up, and then
  storing the received keys, saving the coins, and replying. \<open>check\<close> accepts exactly when every
  received key opens the coin at its position.
\<close>

locale key_handover =
  fixes process :: "btc \<Rightarrow> 'm logged maker_ops \<Rightarrow> private_key_handover \<Rightarrow> ('m logged, maker_to_taker_message option) hact"
    and check :: "btc \<Rightarrow> private_key_handover \<Rightarrow> conn \<Rightarrow> maker_error + swap_privkey list"
    and reply :: "private_key_handover \<Rightarrow> maker_to_taker_message"
  assumes process_at: "process B M h (m, c) = (case check B h c of
     Inl e \<Rightarrow> (Inl e, (m, c))
   | Inr ks \<Rightarrow> let coins = zip_update store_handover_key (ph_privkeys h) (cs_incoming c) in
       act_seq (act_iter (\<lambda>x. on_m (mk_save_incoming_swapcoin M x)) coins) (
       act_seq (set_c (\<lambda>c. c\<lparr>cs_phase := Completed\<rparr>)) (
       act_ret (Some (reply \<lparr>ph_id = ph_id h, ph_privkeys = ks\<rparr>)))) (m, c\<lparr>cs_incoming := coins\<rparr>))"
    and check_iff: "check B h c = Inr ks \<longleftrightarrow> cs_phase c = AwaitingPrivateKeyHandover
     \<and> (cs_swap_id c = None \<or> cs_swap_id c = Some (ph_id h)) \<and> cs_outgoing c \<noteq> []
     \<and> length (ph_privkeys h) = length (cs_incoming c)
     \<and> (\<forall>i<length (cs_incoming c). inc_other_pubkey (cs_incoming c ! i)
          = Some (compressed_key (b_pubkey_of B (sp_key (ph_privkeys h ! i)))))
     \<and> map og_my_privkey (cs_outgoing c) = map (Some \<circ> sp_key) ks \<and> (\<forall>k\<in>set ks. sp_identifier k = [])"
begin

lemma exchanges_keys:
  assumes run: "process B (traced M) h ((m, []), c) = (r, ((m', evs), c'))"
  defines "coins \<equiv> map2 store_handover_key (ph_privkeys h) (cs_incoming c)"
  shows "case r of
      Inl e \<Rightarrow> cs_phase c' = cs_phase c \<and> prefix evs (map EvSaveIncoming coins)
    | Inr rep \<Rightarrow> cs_phase c = AwaitingPrivateKeyHandover
        \<and> length (ph_privkeys h) = length (cs_incoming c)
        \<and> (\<forall>i<length (cs_incoming c). inc_other_pubkey (cs_incoming c ! i)
             = Some (compressed_key (b_pubkey_of B (sp_key (ph_privkeys h ! i)))))
        \<and> c' = c\<lparr>cs_incoming := coins, cs_phase := Completed\<rparr>
        \<and> evs = map EvSaveIncoming coins
        \<and> (\<exists>ks. rep = Some (reply \<lparr>ph_id = ph_id h, ph_privkeys = ks\<rparr>)
             \<and> map (Some \<circ> sp_key) ks = map og_my_privkey (cs_outgoing c) \<and> ks \<noteq> [])"
proof (cases "check B h c")
  case (Inl e)
  with run show ?thesis by (auto simp: process_at)
next
  case (Inr ks)
  note chk = Inr [unfolded check_iff]
  then have coins: "zip_update store_handover_key (ph_privkeys h) (cs_incoming c) = coins"
    unfolding coins_def by (intro zip_update_eq_map2) auto
  from chk have "ks \<noteq> []" by auto
  from emits_save_all [of coins M] show ?thesis
  proof (cases rule: emitsE [where m = m and l = "[]" and c = "c\<lparr>cs_incoming := coins\<rparr>"])
    case (ok x m1)
    with run Inr coins have "r = Inr (Some (reply \<lparr>ph_id = ph_id h, ph_privkeys = ks\<rparr>))"
      "evs = map EvSaveIncoming coins" "c' = c\<lparr>cs_incoming := coins, cs_phase := Completed\<rparr>"
      by (auto simp: process_at act_bind_def set_c_def act_ret_def)
    with chk \<open>ks \<noteq> []\<close> show ?thesis by auto
  next
    case (err e m1 p)
    with run Inr coins show ?thesis
      by (auto simp: process_at act_bind_def)
  qed
qed

end

definition handover_check :: "btc \<Rightarrow> private_key_handover \<Rightarrow> conn \<Rightarrow> maker_error + swap_privkey list" where
  "handover_check B h c =
     res_bind (expect_phase [AwaitingPrivateKeyHandover] c) (\<lambda>_.
     res_bind (check_swap_id (ph_id h) c) (\<lambda>_.
     res_bind (ensure (cs_outgoing c \<noteq> []) (MGeneral ''No outgoing swapcoin found'')) (\<lambda>_.
     res_bind (verify_legacy_privkey_handover B (ph_privkeys h) (cs_incoming c)) (\<lambda>_.
     res_map outgoing_handover_key (cs_outgoing c)))))"

lemma process_legacy_handover_at:
  "process_legacy_handover B M h (m, c) = (case handover_check B h c of
     Inl e \<Rightarrow> (Inl e, (m, c))
   | Inr ks \<Rightarrow> let coins = zip_update store_handover_key (ph_privkeys h) (cs_incoming c) in
       act_seq (act_iter (\<lambda>x. on_m (mk_save_incoming_swapcoin M x)) coins) (
       act_seq (set_c (\<lambda>c. c\<lparr>cs_phase := Completed\<rparr>)) (
       act_ret (Some (MtLegacyPrivateKeyHandover \<lparr>ph_id = ph_id h, ph_privkeys = ks\<rparr>))))
         (m, c\<lparr>cs_incoming := coins\<rparr>))"
  by (simp add: process_legacy_handover_def handover_check_def act_bind_def on_c_def set_c_def get_c_def act_ensure_def
      act_lift_def res_bind_def Let_def split: sum.splits)

lemma handover_check_iff:
  "handover_check B h c = Inr ks \<longleftrightarrow> cs_phase c = AwaitingPrivateKeyHandover
     \<and> (cs_swap_id c = None \<or> cs_swap_id c = Some (ph_id h)) \<and> cs_outgoing c \<noteq> []
     \<and> length (ph_privkeys h) = length (cs_incoming c)
     \<and> (\<forall>i<length (cs_incoming c). inc_other_pubkey (cs_incoming c ! i)
          = Some (compressed_key (b_pubkey_of B (sp_key (ph_privkeys h ! i)))))
     \<and> map og_my_privkey (cs_outgoing c) = map (Some \<circ> sp_key) ks \<and> (\<forall>k\<in>set ks. sp_identifier k = [])"
  by (auto simp: handover_check_def res_simps outgoing_keys_iff handover_verified_iff)

interpretation legacy_handover: key_handover process_legacy_handover handover_check MtLegacyPrivateKeyHandover
  by unfold_locales (rule process_legacy_handover_at, rule handover_check_iff)

text \<open>
  C11. The maker gives up its outgoing keys only against keys that open all of its incoming coins. If
  \<open>process_legacy_handover\<close> replies, the connection was awaiting the handover, every received key
  derives the counterparty key of the coin at its position, the coins with these keys were saved to the
  wallet before the reply, the reply carries exactly the private keys of the outgoing coins, and
  the swap is marked completed. If it fails, there is no reply, the phase is unchanged and what was
  saved is an initial part of those coins.
\<close>

theorem legacy_handover_exchanges_keys:
  assumes run: "process_legacy_handover B (traced M) h ((m, []), c) = (r, ((m', evs), c'))"
  defines "coins \<equiv> map2 store_handover_key (ph_privkeys h) (cs_incoming c)"
  shows "case r of
      Inl e \<Rightarrow> cs_phase c' = cs_phase c \<and> prefix evs (map EvSaveIncoming coins)
    | Inr reply \<Rightarrow> cs_phase c = AwaitingPrivateKeyHandover
        \<and> length (ph_privkeys h) = length (cs_incoming c)
        \<and> (\<forall>i<length (cs_incoming c). inc_other_pubkey (cs_incoming c ! i)
             = Some (compressed_key (b_pubkey_of B (sp_key (ph_privkeys h ! i)))))
        \<and> c' = c\<lparr>cs_incoming := coins, cs_phase := Completed\<rparr>
        \<and> evs = map EvSaveIncoming coins
        \<and> (\<exists>ks. reply = Some (MtLegacyPrivateKeyHandover \<lparr>ph_id = ph_id h, ph_privkeys = ks\<rparr>)
             \<and> map (Some \<circ> sp_key) ks = map og_my_privkey (cs_outgoing c) \<and> ks \<noteq> [])"
  unfolding coins_def by (rule legacy_handover.exchanges_keys [OF run])

definition sample_handover :: private_key_handover where
  "sample_handover = \<lparr>ph_id = ''s'', ph_privkeys = [\<lparr>sp_identifier = [], sp_key = [7]\<rparr>]\<rparr>"

definition sample_in_coin :: incoming_swapcoin where
  "sample_in_coin = inc_new_legacy sample_lib [1] (compressed_key (b_pubkey_of sample_lib [7])) sample_tx [] [2] 5"

definition sample_out_coin :: outgoing_swapcoin where
  "sample_out_coin = og_new_legacy sample_lib [9] (compressed_key [3]) sample_tx [] [4] 5"

definition sample_funded :: conn where
  "sample_funded = (conn_default 0)\<lparr>cs_phase := AwaitingPrivateKeyHandover, cs_swap_id := Some ''s'',
     cs_incoming := [sample_in_coin], cs_outgoing := [sample_out_coin]\<rparr>"

theorem legacy_handover_exchanges_keys_witness:
  "snd (snd (process_legacy_handover sample_lib (traced idle_maker) sample_handover (((), []), sample_funded)))
     = sample_funded\<lparr>cs_incoming := [sample_in_coin\<lparr>inc_other_privkey := Some [7]\<rparr>], cs_phase := Completed\<rparr>"
proof -
  let ?out = "process_legacy_handover sample_lib (traced idle_maker) sample_handover (((), []), sample_funded)"
  obtain r m evs c where out: "?out = (r, ((m, evs), c))" by (metis surj_pair)
  have "handover_check sample_lib sample_handover sample_funded = Inr [\<lparr>sp_identifier = [], sp_key = [9]\<rparr>]"
    by (simp add: handover_check_iff sample_funded_def sample_handover_def conn_default_def sample_in_coin_def sample_out_coin_def
        inc_new_legacy_def og_new_legacy_def Let_def)
  then have "is_ok (fst ?out)"
    by (simp add: process_legacy_handover_at sample_handover_def sample_funded_def conn_default_def traced_def
        idle_maker_def act_bind_def act_ret_def on_m_def log_ok_def set_c_def is_ok_def)
  then obtain reply where "r = Inr reply" using out by (cases r) (auto simp: is_ok_def)
  then show ?thesis
    using legacy_handover_exchanges_keys [OF out] out
    by (simp add: sample_handover_def sample_funded_def conn_default_def store_handover_key_def)
qed

section \<open>Amounts of a proof of funding\<close>

definition funding_value :: "btc \<Rightarrow> funding_tx_info \<Rightarrow> amount" where
  "funding_value B info = (case funding_output B info of Inr (_, out) \<Rightarrow> to_value out | Inl _ \<Rightarrow> 0)"

lemma declared_incoming_sum:
  assumes "declared_incoming B pof = Inr d"
  shows "d = sum_list (map (funding_value B) (pof_confirmed_funding_txes pof))"
proof -
  define f where "f = (\<lambda>total info. res_bind (funding_output B info) (\<lambda>(_, out).
     ok_or (checked_add 64 total (to_value out)) (MGeneral ''Funding output amounts overflow'')))"
  have "res_fold f a xs = Inr d \<Longrightarrow> d = a + sum_list (map (funding_value B) xs)" for a xs
  proof (induction xs arbitrary: a)
    case (Cons x xs)
    then obtain i out where out: "funding_output B x = Inr (i, out)" by (auto simp: res_simps f_def)
    with Cons.prems have "res_fold f (a + to_value out) xs = Inr d"
      by (auto simp: res_simps f_def checked_add_def split: if_splits)
    from Cons.IH [OF this] out show ?case by (simp add: funding_value_def)
  qed simp
  from this [of 0] assms show ?thesis unfolding declared_incoming_def f_def [symmetric] by simp
qed

lemma pof_incoming_coin_props:
  assumes "pof_incoming_coin B i k info = Inr coin"
  shows "inc_funding_amount coin = funding_value B info \<and> inc_swap_id coin = Some i
    \<and> inc_contract_redeemscript coin = Some (fti_contract_redeemscript info)"
  using assms by (auto simp: pof_incoming_coin_def res_simps funding_value_def inc_new_legacy_def Let_def)

lemma pof_incoming_coins_props:
  assumes "pof_incoming_coins B k pof = Inr (coins, tot)"
  shows "map inc_funding_amount coins = map (funding_value B) (pof_confirmed_funding_txes pof)
    \<and> tot = sum_list (map inc_funding_amount coins) \<and> (\<forall>coin\<in>set coins. inc_swap_id coin = Some (pof_id pof))"
proof -
  define f where "f = (\<lambda>(coins, incoming_amount) info.
     res_bind (pof_incoming_coin B (pof_id pof) k info) (\<lambda>coin.
     res_bind (ok_or (checked_add 64 incoming_amount (inc_funding_amount coin)) MPanic) (\<lambda>total.
     Inr (coins @ [coin], total))))"
  have "res_fold f (cs, a) xs = Inr (coins, tot) \<Longrightarrow>
      \<exists>new. coins = cs @ new \<and> map inc_funding_amount new = map (funding_value B) xs
        \<and> tot = a + sum_list (map inc_funding_amount new) \<and> (\<forall>coin\<in>set new. inc_swap_id coin = Some (pof_id pof))" for cs a xs
  proof (induction xs arbitrary: cs a)
    case (Cons x xs)
    then obtain coin t where coin: "pof_incoming_coin B (pof_id pof) k x = Inr coin"
      and t: "checked_add 64 a (inc_funding_amount coin) = Some t" and rest: "res_fold f (cs @ [coin], t) xs = Inr (coins, tot)"
      by (auto simp: f_def res_simps)
    from Cons.IH [OF rest] obtain new where "coins = (cs @ [coin]) @ new" "map inc_funding_amount new = map (funding_value B) xs"
      "tot = t + sum_list (map inc_funding_amount new)" "\<forall>coin\<in>set new. inc_swap_id coin = Some (pof_id pof)" by blast
    with pof_incoming_coin_props [OF coin] t show ?case
      by (intro exI [of _ "coin # new"]) (auto simp: checked_add_def split: if_splits)
  qed simp
  from this [of "[]" 0 "pof_confirmed_funding_txes pof"] assms show ?thesis
    unfolding pof_incoming_coins_def f_def [symmetric] by simp
qed

lemma register_keeps_conn: "act_inv (\<lambda>s. snd s = c) (register_contract_outputs B M tx)"
  unfolding register_contract_outputs_def split_def by (intro hoare_intros)

lemma pof_outgoing_props:
  assumes "pof_outgoing B M pof hashvalue incoming (m, c) = (Inr infos, (m', c'))"
  obtains fee mining excluded m2 funding outgoing fees m3 where
    "fee = mk_calculate_swap_fee M incoming (pof_refund_locktime pof) m"
    "estimate_funding_tx_fee_sats B = Some mining"
    "fee + wrapping_mul 64 mining (length (pof_next_openswap_info pof)) \<le> incoming"
    "mk_initialize_openswap M (incoming - fee - wrapping_mul 64 mining (length (pof_next_openswap_info pof)))
        (map nhi_next_multisig_pubkey (pof_next_openswap_info pof))
        (map nhi_next_hashlock_pubkey (pof_next_openswap_info pof))
        hashvalue (pof_refund_locktime pof) (pof_contract_feerate pof) (Some excluded) m2 = (Inr (funding, outgoing, fees), m3)"
    "c' = c\<lparr>cs_service_fee_sats := fee, cs_reserve_utxo := funding_output_outpoints B funding,
       cs_outgoing := map (\<lambda>og. og\<lparr>og_swap_id := Some (pof_id pof)\<rparr>) outgoing, cs_pending_funding_txes := funding\<rparr>"
proof -
  let ?fee = "mk_calculate_swap_fee M incoming (pof_refund_locktime pof) m"
  from assms obtain amt excluded m2 funding outgoing fees m3 where
    amt: "pof_outgoing_amount B pof incoming ?fee = Inr amt" and
    init: "mk_initialize_openswap M amt (map nhi_next_multisig_pubkey (pof_next_openswap_info pof))
        (map nhi_next_hashlock_pubkey (pof_next_openswap_info pof))
        hashvalue (pof_refund_locktime pof) (pof_contract_feerate pof) (Some excluded) m2 = (Inr (funding, outgoing, fees), m3)" and
    c': "c' = c\<lparr>cs_service_fee_sats := ?fee, cs_reserve_utxo := funding_output_outpoints B funding,
       cs_outgoing := map (\<lambda>og. og\<lparr>og_swap_id := Some (pof_id pof)\<rparr>) outgoing, cs_pending_funding_txes := funding\<rparr>"
    unfolding pof_outgoing_def Let_def by (auto simp: act_simps dest!: sym [of "Inr _"])
  from amt obtain mining where "estimate_funding_tx_fee_sats B = Some mining"
    "?fee + wrapping_mul 64 mining (length (pof_next_openswap_info pof)) \<le> incoming"
    "amt = incoming - ?fee - wrapping_mul 64 mining (length (pof_next_openswap_info pof))"
    by (auto simp: pof_outgoing_amount_def res_simps Let_def checked_sub_def split: if_splits option.splits)
  with init c' show thesis by (intro that) auto
qed

text \<open>
  C23. The maker never commits more than it was promised and priced. When \<open>process_proof_of_funding\<close>
  replies, the proof named the negotiated locktime and number of contracts, the incoming coins built from
  it are worth together at most the negotiated swap amount, and the amount handed to
  \<open>initialize_openswap\<close> is that sum less the swap fee and less the mining fee of one funding
  transaction per next-hop entry; the fee recorded for the report is the one charged.
\<close>

theorem proof_of_funding_amounts:
  assumes "process_proof_of_funding B M pof (m, c) = (Inr reply, (m', c'))"
  shows "\<exists>incoming fee mining m1 hashvalue excluded m2 funding outgoing fees m3.
      sum_list (map inc_funding_amount (cs_incoming c')) = incoming
    \<and> incoming \<le> cs_swap_amount c
    \<and> length (cs_incoming c') = cs_tx_count c \<and> pof_refund_locktime pof = cs_timelock c
    \<and> fee = mk_calculate_swap_fee M incoming (cs_timelock c) m1 \<and> cs_service_fee_sats c' = fee
    \<and> estimate_funding_tx_fee_sats B = Some mining
    \<and> fee + wrapping_mul 64 mining (length (pof_next_openswap_info pof)) \<le> incoming
    \<and> mk_initialize_openswap M (incoming - fee - wrapping_mul 64 mining (length (pof_next_openswap_info pof)))
        (map nhi_next_multisig_pubkey (pof_next_openswap_info pof))
        (map nhi_next_hashlock_pubkey (pof_next_openswap_info pof))
        hashvalue (cs_timelock c) (pof_contract_feerate pof) (Some excluded) m2 = (Inr (funding, outgoing, fees), m3)
    \<and> cs_pending_funding_txes c' = funding \<and> cs_phase c' = AwaitingSignaturesOrPreimage
    \<and> (\<forall>coin\<in>set (cs_incoming c'). inc_swap_id coin = Some (pof_id pof))"
proof -
  from assms obtain hashvalue ma incoming mb cb infos mc cc where
    chk: "pof_check B pof c = Inr ()" and
    ver: "mk_verify_proof_of_funding M pof m = (Inr hashvalue, ma)" and
    inc: "pof_incoming B M pof (ma, c) = (Inr incoming, (mb, cb))" and
    out: "pof_outgoing B M pof hashvalue incoming (mb, cb) = (Inr infos, (mc, cc))" and
    c': "c' = cc\<lparr>cs_phase := AwaitingSignaturesOrPreimage\<rparr>"
    by (auto simp: process_proof_of_funding_def act_simps)
  from inc obtain coins k where
    coins: "pof_incoming_coins B k pof = Inr (coins, incoming)" and
    cb: "cb = c\<lparr>cs_contract_feerate := pof_contract_feerate pof, cs_incoming := coins\<rparr>"
    by (auto simp: pof_incoming_def act_simps dest!: keeps_connD [rotated] dest: sym intro!: hoare_intros register_keeps_conn)
  from chk obtain d where "declared_incoming B pof = Inr d" and d: "d \<le> cs_swap_amount c"
    and len: "length (pof_confirmed_funding_txes pof) = cs_tx_count c" and lock: "pof_refund_locktime pof = cs_timelock c"
    by (auto simp: pof_check_def res_simps incoming_within_swap_amount_def)
  note decl = declared_incoming_sum [OF this(1)]
  have cs: "map inc_funding_amount coins = map (funding_value B) (pof_confirmed_funding_txes pof)"
    "incoming = sum_list (map inc_funding_amount coins)" "\<forall>coin\<in>set coins. inc_swap_id coin = Some (pof_id pof)"
    using pof_incoming_coins_props [OF coins] by blast+
  with decl d have sum: "sum_list (map inc_funding_amount coins) = incoming" "incoming \<le> cs_swap_amount c" by auto
  from cs(1) len have "length coins = cs_tx_count c" by (metis length_map)
  note facts = this sum cs(3) c' cb lock
  from out show ?thesis
  proof (rule pof_outgoing_props)
    fix fee mining excluded m2 funding outgoing fees m3
    assume *: "fee = mk_calculate_swap_fee M incoming (pof_refund_locktime pof) mb"
      "estimate_funding_tx_fee_sats B = Some mining"
      "fee + wrapping_mul 64 mining (length (pof_next_openswap_info pof)) \<le> incoming"
      "mk_initialize_openswap M (incoming - fee - wrapping_mul 64 mining (length (pof_next_openswap_info pof)))
        (map nhi_next_multisig_pubkey (pof_next_openswap_info pof))
        (map nhi_next_hashlock_pubkey (pof_next_openswap_info pof))
        hashvalue (pof_refund_locktime pof) (pof_contract_feerate pof) (Some excluded) m2 = (Inr (funding, outgoing, fees), m3)"
      "cc = cb\<lparr>cs_service_fee_sats := fee, cs_reserve_utxo := funding_output_outpoints B funding,
         cs_outgoing := map (\<lambda>og. og\<lparr>og_swap_id := Some (pof_id pof)\<rparr>) outgoing, cs_pending_funding_txes := funding\<rparr>"
    show ?thesis
      by (rule exI [of _ incoming], rule exI [of _ fee], rule exI [of _ mining], rule exI [of _ mb],
          rule exI [of _ hashvalue], rule exI [of _ excluded], rule exI [of _ m2], rule exI [of _ funding],
          rule exI [of _ outgoing], rule exI [of _ fees], rule exI [of _ m3])
        (use facts * in simp)
  qed
qed

definition sample_fti :: funding_tx_info where
  "sample_fti = (let rs = create_multisig_redeemscript sample_lib (compressed_key (2 # replicate 32 9)) (compressed_key (2 # replicate 32 7)) in
     \<lparr>fti_funding_tx = \<lparr>tx_version = 2, tx_lock_time = 0, tx_input = [],
        tx_output = [\<lparr>to_value = 100000, to_spk = push_int_c 0 @ push_slice_c (fit 32 rs)\<rparr>]\<rparr>,
      fti_multisig_redeemscript = rs, fti_multisig_nonce = [], fti_contract_redeemscript = [], fti_hashlock_nonce = []\<rparr>)"

definition sample_pof :: proof_of_funding where
  "sample_pof = \<lparr>pof_id = ''s'', pof_confirmed_funding_txes = [sample_fti],
     pof_next_openswap_info = [\<lparr>nhi_next_multisig_pubkey = compressed_key [], nhi_next_hashlock_pubkey = compressed_key [],
       nhi_next_multisig_nonce = [], nhi_next_hashlock_nonce = []\<rparr>], pof_refund_locktime = 20, pof_contract_feerate = 2\<rparr>"

definition sample_negotiated :: conn where
  "sample_negotiated = (conn_default 0)\<lparr>cs_phase := AwaitingContractData, cs_swap_id := Some ''s'', cs_tx_count := 1,
     cs_swap_amount := 100000, cs_timelock := 20\<rparr>"

lemma sample_funding_output: "\<exists>out. funding_output sample_lib sample_fti = Inr (0, out) \<and> to_value out = 100000"
  by (simp add: funding_output_def maker_find_funding_output_index_def redeemscript_to_scriptpubkey_def sample_fti_def Let_def
      position_def nth_opt_def) (simp add: sample_lib_def fit_def)

lemma sample_receivers_contract_tx: "\<exists>tx. create_receivers_contract_tx sample_lib inp 100000 rs = Inr tx"
  by (auto simp: create_receivers_contract_tx_def create_contract_tx_Inr_iff redeemscript_to_scriptpubkey_def calculate_fee_sats_def
      get_min_fee_rate_def MIN_FEE_RATE_def CONTRACT_TX_VSIZE_def sample_lib_def fit_def)

lemma sample_incoming_coin: "\<exists>coin. pof_incoming_coin sample_lib ''s'' [] sample_fti = Inr coin \<and> inc_funding_amount coin = 100000"
proof -
  obtain out where out: "funding_output sample_lib sample_fti = Inr (0, out)" "to_value out = 100000"
    using sample_funding_output by blast
  have "\<exists>p. read_pubkeys_from_multisig_redeemscript sample_lib (fti_multisig_redeemscript sample_fti) = Inr p"
    using read_pubkeys_created [OF sample_script.script_lib_axioms sample_good_key sample_good_key]
    by (simp add: sample_fti_def Let_def)
  then obtain k1 k2 where keys: "read_pubkeys_from_multisig_redeemscript sample_lib (fti_multisig_redeemscript sample_fti) = Inr (k1, k2)"
    by (metis surj_pair)
  obtain tx where tx: "create_receivers_contract_tx sample_lib \<lparr>op_txid = b_txid sample_lib (fti_funding_tx sample_fti), op_vout = 0\<rparr>
      100000 (fti_contract_redeemscript sample_fti) = Inr tx"
    using sample_receivers_contract_tx by blast
  from out keys tx show ?thesis
    by (simp add: pof_incoming_coin_def map_err_def Let_def inc_new_legacy_def)
qed

lemma act_iter_ret: "(\<And>x. f x = act_ret ()) \<Longrightarrow> act_iter f xs = act_ret ()"
  by (induction xs) auto

lemma on_m_ret: "on_m (act_ret x) = act_ret x"
  by (simp add: on_m_def act_ret_def fun_eq_iff)

lemma register_idle: "register_contract_outputs B idle_maker tx = act_ret ()"
  by (simp add: register_contract_outputs_def act_iter_ret idle_maker_def on_m_ret split_def)

theorem proof_of_funding_amounts_witness:
  "\<exists>reply m c. process_proof_of_funding sample_lib idle_maker sample_pof ((), sample_negotiated) = (Inr reply, (m, c))
     \<and> sum_list (map inc_funding_amount (cs_incoming c)) \<le> 100000 \<and> length (cs_incoming c) = 1"
proof -
  obtain coin where coin: "pof_incoming_coin sample_lib ''s'' [] sample_fti = Inr coin" "inc_funding_amount coin = 100000"
    using sample_incoming_coin by blast
  have coins: "pof_incoming_coins sample_lib [] sample_pof = Inr ([coin], 100000)"
    by (simp add: pof_incoming_coins_def sample_pof_def coin checked_add_def)
  have chk: "pof_check sample_lib sample_pof sample_negotiated = Inr ()"
    using sample_funding_output by (auto simp: pof_check_def sample_pof_def sample_negotiated_def conn_default_def
        expect_phase_def check_swap_id_def declared_incoming_def checked_add_def incoming_within_swap_amount_def)
  have amt: "\<exists>a. pof_outgoing_amount sample_lib sample_pof 100000 0 = Inr a"
    by (simp add: pof_outgoing_amount_def estimate_funding_tx_fee_sats_def calculate_fee_sats_def get_min_fee_rate_def
        MIN_FEE_RATE_def sample_pof_def checked_sub_def wrapping_mul_def)
  have keys: "on_m (mk_get_tweakable_keypair idle_maker) = act_ret ([], compressed_key [], [])"
    by (simp add: idle_maker_def on_m_ret)
  obtain c1 where inc: "pof_incoming sample_lib idle_maker sample_pof ((), sample_negotiated) = (Inr 100000, ((), c1))"
    by (simp add: pof_incoming_def keys coins register_idle act_iter_ret act_bind_def act_lift_def set_c_def act_ret_def)
  obtain infos c2 where out: "pof_outgoing sample_lib idle_maker sample_pof [] 100000 ((), c1) = (Inr infos, ((), c2))"
    using amt by (auto simp: pof_outgoing_def idle_maker_def on_m_ret get_m_def act_bind_def act_lift_def set_c_def act_ret_def on_m_def)
  have idle: "on_m (mk_verify_proof_of_funding idle_maker sample_pof) = act_ret []"
    "on_m (mk_store_connection_state idle_maker i c b) = act_ret ()" for i c b
    by (simp_all add: idle_maker_def on_m_ret)
  obtain reply c where run: "process_proof_of_funding sample_lib idle_maker sample_pof ((), sample_negotiated) = (Inr reply, ((), c))"
    by (simp add: process_proof_of_funding_def act_bind_def on_c_def act_ret_def get_c_def set_c_def chk inc out idle)
  have "sum_list (map inc_funding_amount (cs_incoming c)) \<le> 100000 \<and> length (cs_incoming c) = 1"
    using proof_of_funding_amounts [OF run] by (auto simp: sample_negotiated_def)
  with run show ?thesis by blast
qed

section \<open>The sighash type of a peer's signature\<close>

lemma verify_receiver_sig_type: "verify_receiver_sig B (s\<lparr>sig_type := t\<rparr>, coin) = verify_receiver_sig B (s, coin)"
  by (simp add: verify_receiver_sig_def)

lemma verify_sender_sig_type: "verify_sender_sig B (s\<lparr>sig_type := t\<rparr>, coin) = verify_sender_sig B (s, coin)"
  by (simp add: verify_sender_sig_def)

lemma res_all_zip_map: "(\<And>x y. f (g x, y) = f (x, y)) \<Longrightarrow> res_all f (zip (map g xs) ys) = res_all f (zip xs ys)"
proof (induction xs arbitrary: ys)
  case (Cons x xs)
  then show ?case by (cases ys) (simp_all add: res_all_def res_bind_def)
qed simp

text \<open>
  \<open>verify_contract_sigs\<close> does not look at the sighash type that comes with a signature: changing
  it on every signature leaves the verdict unchanged. The type is nevertheless kept with the coin, and
  \<open>create_signed_contract_tx\<close> writes it as the last byte of the peer's witness item, so a peer
  can make the maker store a contract transaction whose peer signature commits to another sighash
  type than the one that was verified.
\<close>

lemma peer_sighash_type_unchecked:
  assumes "og_protocol coin = Legacy" and "tx_input (og_contract_tx coin) \<noteq> []"
    and "og_create_signed_contract_tx B (attach_og_sig (s\<lparr>sig_type := t\<rparr>) coin) = Inr tx"
  shows "verify_contract_sigs B (map (\<lambda>s. s\<lparr>sig_type := t\<rparr>) rs) (map (\<lambda>s. s\<lparr>sig_type := t\<rparr>) ss) incs ogs
       = verify_contract_sigs B rs ss incs ogs
    \<and> b_der B (sig_inner s) @ [of_nat t] \<in> set (ti_witness (tx_input tx ! 0))"
proof -
  have "verify_contract_sigs B (map (\<lambda>s. s\<lparr>sig_type := t\<rparr>) rs) (map (\<lambda>s. s\<lparr>sig_type := t\<rparr>) ss) incs ogs
       = verify_contract_sigs B rs ss incs ogs"
    by (simp add: verify_contract_sigs_def res_all_zip_map verify_receiver_sig_type verify_sender_sig_type)
  moreover from assms(2) obtain i rest where "tx_input (og_contract_tx coin) = i # rest" by (cases "tx_input (og_contract_tx coin)") auto
  with assms have "b_der B (sig_inner s) @ [of_nat t] \<in> set (ti_witness (tx_input tx ! 0))"
    by (auto simp: og_create_signed_contract_tx_def attach_og_sig_def res_simps Let_def map_input0_def
        apply_two_signatures_to_2of2_multisig_spend_def sig_to_vec_def split: if_splits)
  ultimately show ?thesis by blast
qed

lemma peer_sighash_type_unchecked_witness:
  "\<exists>tx. og_create_signed_contract_tx sample_lib (attach_og_sig \<lparr>sig_inner = [7], sig_type = 3\<rparr>
       (sample_out_coin\<lparr>og_contract_tx := sample_tx\<lparr>tx_input := [\<lparr>ti_prev = \<lparr>op_txid = [], op_vout = 0\<rparr>, ti_sequence = 0,
          ti_witness = [], ti_script_sig = []\<rparr>]\<rparr>\<rparr>)) = Inr tx
     \<and> [7, 3] \<in> set (ti_witness (tx_input tx ! 0))"
proof -
  let ?i = "\<lparr>ti_prev = \<lparr>op_txid = [], op_vout = 0\<rparr>, ti_sequence = 0, ti_witness = [], ti_script_sig = []\<rparr>"
  let ?coin = "sample_out_coin\<lparr>og_contract_tx := sample_tx\<lparr>tx_input := [?i]\<rparr>\<rparr>"
  let ?s = "\<lparr>sig_inner = [7], sig_type = 1\<rparr>"
  obtain tx where tx: "og_create_signed_contract_tx sample_lib (attach_og_sig (?s\<lparr>sig_type := 3\<rparr>) ?coin) = Inr tx"
    by (simp add: og_create_signed_contract_tx_def attach_og_sig_def sample_out_coin_def og_new_legacy_def Let_def
        sign_contract_tx_def) (simp add: sample_lib_def)
  have "og_protocol ?coin = Legacy" "tx_input (og_contract_tx ?coin) \<noteq> []"
    by (simp_all add: sample_out_coin_def og_new_legacy_def)
  from peer_sighash_type_unchecked [OF this tx] tx show ?thesis by (auto simp: sample_lib_def)
qed

end
