(* ===== verification/MakerTaproot.thy ===== *)
theory MakerTaproot
  imports MakerLegacy
begin

text \<open>
  The maker's side of the taproot (MuSig2) swap: \<open>maker/taproot_verification.rs\<close> and
  \<open>maker/taproot_handlers.rs\<close>. The two fresh keys drawn for outgoing contract \<open>i\<close> are the
  argument \<open>rng i\<close>. \<open>TaprootBuilder::add_leaf\<close> twice and \<open>finalize\<close> are the one call
  \<open>b_taproot\<close>. The lemmas say what accepted contract data guarantees, that the fee is split
  without losing a satoshi, and in which order the maker commits.
\<close>

section \<open>Verification\<close>

fun hashlock_template_ok :: "instr list \<Rightarrow> bool" where
  "hashlock_template_ok [Op a, PushBytes hash, Op b, PushBytes pubkey, Op c] =
     (a = 0xa8 \<and> b = 0x88 \<and> c = 0xac \<and> length hash = 32 \<and> length pubkey = 32)"
| "hashlock_template_ok _ = False"

fun timelock_template_ok :: "instr list \<Rightarrow> bool" where
  "timelock_template_ok [_, Op a, Op b, PushBytes pubkey, Op c] =
     (a = 0xb1 \<and> b = 0x75 \<and> c = 0xac \<and> length pubkey = 32)"
| "timelock_template_ok _ = False"

text \<open>\<open>Class::PushNum\<close> is \<open>OP_PUSHNUM_NEG1\<close> (0x4f) and \<open>OP_1\<close> (0x51) to \<open>OP_16\<close> (0x60).\<close>

definition timelock_value :: "instr \<Rightarrow> maker_error + nat" where
  "timelock_value first = (case first of
     PushBytes bytes \<Rightarrow>
       if bytes = [] then Inl (MGeneral ''Taproot timelock script has empty locktime'')
       else if length bytes \<le> 4 then Inr (le_value bytes)
       else Inl (MGeneral ''Taproot timelock has unexpected byte length'')
   | Op opcode \<Rightarrow>
       if opcode = 0x4f then Inl (MGeneral ''Taproot timelock value is non-positive'')
       else if 0x51 \<le> unat opcode \<and> unat opcode \<le> 0x60 then Inr (unat opcode - 0x50)
       else Inl (MGeneral ''Taproot timelock script doesn't start with a locktime''))"

definition check_timelock_script :: "btc \<Rightarrow> script \<Rightarrow> nat \<Rightarrow> maker_error + unit" where
  "check_timelock_script B timelock_script expected_taker_locktime =
     res_bind (ok_or (those (b_instructions B timelock_script))
       (MGeneral ''Taproot timelock script parse error'')) (\<lambda>timelock_instructions.
     res_bind (ensure (length timelock_instructions = 5)
       (MGeneral ''Taproot timelock script has wrong number of instructions, expected 5'')) (\<lambda>_.
     res_bind (ensure (timelock_template_ok timelock_instructions)
       (MGeneral ''Taproot timelock script has unexpected template'')) (\<lambda>_.
     res_bind (case timelock_instructions of
         first # _ \<Rightarrow> timelock_value first
       | [] \<Rightarrow> Inl (MGeneral ''Taproot timelock script is empty'')) (\<lambda>maker_locktime_val.
     res_bind (ensure (maker_locktime_val \<noteq> 0) (MGeneral ''Taproot timelock value is zero'')) (\<lambda>_.
     ensure (maker_locktime_val = expected_taker_locktime)
       (MGeneral ''Taproot timelock value does not match expected taker locktime''))))))"

text \<open>\<open>sort_by_key\<close> on two keys by their serialization; the sort is stable.\<close>

definition ordered_pair :: "public_key \<Rightarrow> public_key \<Rightarrow> public_key \<times> public_key" where
  "ordered_pair a b = (if pk_inner b < pk_inner a then (b, a) else (a, b))"

definition aggregate_ordered :: "btc \<Rightarrow> public_key \<Rightarrow> public_key \<Rightarrow> protocol_error + xonly" where
  "aggregate_ordered B a b = (let (p, q) = ordered_pair a b in get_aggregated_pubkey_compat B (pk_inner p) (pk_inner q))"

definition taproot_contract_ok ::
    "btc \<Rightarrow> taproot_contract_data \<Rightarrow> public_key \<Rightarrow> nat \<Rightarrow> nat \<times> transaction \<Rightarrow> maker_error + unit" where
  "taproot_contract_ok B d maker_pubkey expected_taker_locktime = (\<lambda>(i, tx).
     res_bind (ok_or (nth_opt (tcd_timelock_scripts d) i) MPanic) (\<lambda>timelock_script.
     res_bind (ok_or (nth_opt (tcd_pubkeys d) i) MPanic) (\<lambda>pubkey.
     res_bind (map_err (\<lambda>_. MGeneral ''Taproot internal key aggregation failed'')
       (aggregate_ordered B pubkey maker_pubkey)) (\<lambda>expected_internal_key.
     res_bind (ok_or (nth_opt (tcd_internal_keys d) i) MPanic) (\<lambda>internal_key.
     res_bind (ensure (internal_key = expected_internal_key)
       (MGeneral ''Taproot internal key does not match the expected MuSig2 aggregate'')) (\<lambda>_.
     res_bind (check_timelock_script B timelock_script expected_taker_locktime) (\<lambda>_.
     res_bind (ok_or (b_taproot B (tcd_hashlock_script d) timelock_script internal_key)
       (MGeneral ''Taproot tree finalization failed'')) (\<lambda>(merkle_root, expected_tap_tweak).
     res_bind (map_err (perr MProtocol) (tap_tweak_scalar B d i)) (\<lambda>tap_tweak.
     res_bind (ensure (tap_tweak = expected_tap_tweak)
       (MGeneral ''Taproot tap tweak does not match internal key and script tree'')) (\<lambda>_.
     res_bind (ensure (tx_input tx \<noteq> []) (MGeneral ''Taproot contract tx has no inputs'')) (\<lambda>_.
     case tx_output tx of
       [] \<Rightarrow> Inl (MGeneral ''Taproot contract tx has no outputs'')
     | out # _ \<Rightarrow>
       res_bind (ok_or (nth_opt (tcd_amounts d) i) MPanic) (\<lambda>amount.
       res_bind (ensure (amount = to_value out)
         (MGeneral ''Taproot contract tx amount does not match output value'')) (\<lambda>_.
       ensure (to_spk out = b_p2tr B internal_key merkle_root)
         (MGeneral ''Taproot contract tx output scriptpubkey does not match expected P2TR address''))))))))))))))"

definition verify_taproot_contract_data ::
    "btc \<Rightarrow> taproot_contract_data \<Rightarrow> public_key \<Rightarrow> nat \<Rightarrow> maker_error + unit" where
  "verify_taproot_contract_data B d maker_pubkey maker_timelock =
     res_bind (ensure (tcd_contract_txs d \<noteq> [])
       (MGeneral ''Taker sent empty Taproot contract data (no contract txs)'')) (\<lambda>_.
     res_bind (ensure (length (tcd_contract_txs d) = length (tcd_amounts d))
       (MGeneral ''Taproot contract_txs count doesn't match amounts count'')) (\<lambda>_.
     res_bind (map_err (perr (\<lambda>_. MGeneral ''Taproot hashlock script is invalid''))
       (extract_hash_from_hashlock B (tcd_hashlock_script d))) (\<lambda>_.
     res_bind (ok_or (those (b_instructions B (tcd_hashlock_script d)))
       (MGeneral ''Taproot hashlock script parse error'')) (\<lambda>hashlock_instructions.
     res_bind (ensure (length hashlock_instructions = 5)
       (MGeneral ''Taproot hashlock script has wrong number of instructions, expected 5'')) (\<lambda>_.
     res_bind (ensure (hashlock_template_ok hashlock_instructions)
       (MGeneral ''Taproot hashlock script has unexpected template'')) (\<lambda>_.
     let n = length (tcd_contract_txs d) in
     res_bind (ensure (length (tcd_timelock_scripts d) = n \<and> length (tcd_internal_keys d) = n
         \<and> length (tcd_tap_tweaks d) = n \<and> length (tcd_pubkeys d) = n)
       (MGeneral ''Taproot per-contract vectors have inconsistent lengths'')) (\<lambda>_.
     res_bind (ensure (distinct (map (b_txid B) (tcd_contract_txs d)))
       (MGeneral ''Duplicate Taproot contract outpoint'')) (\<lambda>_.
     res_all (taproot_contract_ok B d maker_pubkey (maker_timelock + REFUND_LOCKTIME_STEP))
       (enumerate 0 (tcd_contract_txs d))))))))))"

definition verify_taproot_privkey_handover ::
    "btc \<Rightarrow> swap_privkey list \<Rightarrow> incoming_swapcoin list \<Rightarrow> maker_error + unit" where
  "verify_taproot_privkey_handover B privkeys incoming_swapcoins =
     (if length privkeys \<noteq> length incoming_swapcoins
      then Inl (MGeneral ''Taproot privkey count doesn't match incoming swapcoin count'')
      else res_all (\<lambda>(privkey_info, incoming).
        res_bind (ok_or (inc_other_pubkey incoming)
          (MGeneral ''Missing other_pubkey on incoming swapcoin during Taproot handover verification'')) (\<lambda>expected_pubkey.
        ensure (compressed_key (b_pubkey_of B (sp_key privkey_info)) = expected_pubkey)
          (MGeneral ''Taproot privkey derives pubkey that doesn't match expected other_pubkey'')))
        (zip privkeys incoming_swapcoins))"

section \<open>Checks of the contract data\<close>

definition check_sweep_margin :: "'m maker_ops \<Rightarrow> nat \<Rightarrow> ('m, unit) hact" where
  "check_sweep_margin M timelock =
     act_bind (on_m (mk_get_current_height M)) (\<lambda>current_height.
     act_ensure (\<not> saturating_add 32 timelock REFUND_LOCKTIME_STEP
         < saturating_add 32 current_height MIN_CONTRACT_REACTION_TIME)
       (MGeneral ''Taproot contract data arrived too late to sweep safely''))"

definition tap_total_incoming :: "amount list \<Rightarrow> maker_error + amount" where
  "tap_total_incoming amounts = res_fold (\<lambda>total_incoming amount.
     ok_or (checked_add 64 total_incoming amount) (MGeneral ''Taproot contract amounts overflow'')) 0 amounts"

text \<open>The part of \<open>process_taproot_contract\<close> up to the first sweep margin check: the tweakable key pair, the hashlock key and the incoming total.\<close>

definition tap_check ::
    "btc \<Rightarrow> 'm maker_ops \<Rightarrow> taproot_contract_data \<Rightarrow> ('m, seckey \<times> public_key \<times> seckey \<times> amount) hact" where
  "tap_check B M d =
     act_seq (on_c (expect_phase [AwaitingContractData])) (
     act_seq (on_c (check_swap_id (tcd_id d))) (
     act_bind (on_m (mk_get_tweakable_keypair M)) (\<lambda>(tweakable_privkey, tweakable_pubkey, _).
     act_bind (act_lift (ok_or (tcd_hashlock_nonce d)
       (MGeneral ''Missing hashlock_nonce in TaprootContractData''))) (\<lambda>hashlock_nonce.
     act_bind (act_lift (ok_or (b_add_tweak B tweakable_privkey hashlock_nonce)
       (MGeneral ''Hashlock key derivation failed''))) (\<lambda>hashlock_privkey.
     act_seq (act_lift (map_err (perr (\<lambda>_. MGeneral ''Hashlock pubkey mismatch''))
       (check_taproot_hashlock_has_pubkey B (tcd_hashlock_script d) tweakable_pubkey hashlock_nonce))) (
     act_bind (get_c id) (\<lambda>state.
     act_seq (act_lift (verify_taproot_contract_data B d tweakable_pubkey (cs_timelock state))) (
     act_seq (act_ensure (length (tcd_contract_txs d) = cs_tx_count state)
       (MGeneral ''Taproot contract count does not match the negotiated tx count'')) (
     act_bind (act_lift (tap_total_incoming (tcd_amounts d))) (\<lambda>total_incoming.
     act_seq (act_ensure (incoming_within_swap_amount total_incoming (cs_swap_amount state))
       (MGeneral ''Taproot incoming amount exceeds the negotiated swap amount'')) (
     act_seq (check_sweep_margin M (cs_timelock state)) (
     act_ret (tweakable_privkey, tweakable_pubkey, hashlock_privkey, total_incoming)))))))))))))"

section \<open>Incoming coins\<close>

definition tap_incoming_coin ::
    "btc \<Rightarrow> taproot_contract_data \<Rightarrow> seckey \<Rightarrow> seckey \<Rightarrow> transaction \<Rightarrow> nat \<Rightarrow> maker_error + incoming_swapcoin" where
  "tap_incoming_coin B d tweakable_privkey hashlock_privkey incoming_contract_tx j =
     res_bind (ok_or (nth_opt (tcd_amounts d) j) MPanic) (\<lambda>incoming_funding_amount.
     let other_pubkey = (case nth_opt (tcd_pubkeys d) j of Some k \<Rightarrow> k | None \<Rightarrow> tcd_next_hop_point d) in
     res_bind (ok_or (nth_opt (tcd_timelock_scripts d) j) MPanic) (\<lambda>timelock_script.
     res_bind (ok_or (nth_opt (tcd_internal_keys d) j) MPanic) (\<lambda>internal_key.
     res_bind (map_err (perr MProtocol) (tap_tweak_scalar B d j)) (\<lambda>tap_tweak.
     Inr ((inc_new_taproot hashlock_privkey (tcd_hashlock_script d) timelock_script incoming_contract_tx incoming_funding_amount)
       \<lparr>inc_swap_id := Some (tcd_id d), inc_my_privkey := Some tweakable_privkey,
        inc_my_pubkey := Some (compressed_key (b_pubkey_of B tweakable_privkey)),
        inc_other_pubkey := Some other_pubkey, inc_internal_key := Some internal_key, inc_tap_tweak := Some tap_tweak\<rparr>)))))"

definition tap_confirm_incoming ::
    "btc \<Rightarrow> 'm maker_ops \<Rightarrow> taproot_contract_data \<Rightarrow> seckey \<Rightarrow> seckey \<Rightarrow> nat \<Rightarrow> nat \<Rightarrow> nat \<times> transaction
     \<Rightarrow> ('m, incoming_swapcoin) hact" where
  "tap_confirm_incoming B M d tweakable_privkey hashlock_privkey timelock required_confirms = (\<lambda>(j, tx).
     act_seq (on_m (mk_wait_for_tx_on_chain M (b_txid B tx) required_confirms)) (
     act_seq (check_sweep_margin M timelock) (
     act_lift (tap_incoming_coin B d tweakable_privkey hashlock_privkey tx j))))"

section \<open>Splitting the fee\<close>

text \<open>
  \<open>max_by_key\<close> returns the last of several maxima. The subtractions on \<open>u64\<close> and the sum
  are written as checked operations; the lemmas below show that the first two never fail.
\<close>

definition last_max_index :: "nat list \<Rightarrow> nat" where
  "last_max_index xs = fold (\<lambda>i best. if xs ! best \<le> xs ! i then i else best) [0..<length xs] 0"

definition fee_share :: "amount \<Rightarrow> amount \<Rightarrow> amount \<Rightarrow> maker_error + amount" where
  "fee_share fee total_sat amt =
     (if total_sat = 0 then Inl MPanic
      else ok_or (checked_sub amt (fee * amt div total_sat mod 2 ^ 64)) MPanic)"

definition split_fee :: "amount list \<Rightarrow> amount \<Rightarrow> amount \<Rightarrow> amount \<Rightarrow> maker_error + amount list" where
  "split_fee amounts total_incoming fee outgoing_total =
     res_bind (res_map (fee_share fee total_incoming) amounts) (\<lambda>outgoing_amounts.
     res_bind (ok_or (checked_sub (sum_list outgoing_amounts) outgoing_total) MPanic) (\<lambda>remainder.
     if remainder > 0 then
       let max_idx = last_max_index outgoing_amounts in
       res_bind (ok_or (nth_opt outgoing_amounts max_idx) MPanic) (\<lambda>m.
       res_bind (ok_or (checked_sub m remainder) MPanic) (\<lambda>m'.
       Inr (outgoing_amounts[max_idx := m'])))
     else Inr outgoing_amounts))"

definition tap_outgoing_amounts ::
    "btc \<Rightarrow> amount list \<Rightarrow> nat \<Rightarrow> amount \<Rightarrow> amount \<Rightarrow> maker_error + amount list" where
  "tap_outgoing_amounts B amounts n total_incoming swap_fee =
     res_bind (ok_or (estimate_funding_tx_fee_sats B) MPanic) (\<lambda>est.
     res_bind (ok_or (checked_add 64 swap_fee (wrapping_mul 64 est n)) MPanic) (\<lambda>fee.
     res_bind (ok_or (checked_sub total_incoming fee) (MGeneral ''Fee exceeds incoming amount'')) (\<lambda>outgoing_total.
     split_fee amounts total_incoming fee outgoing_total)))"

section \<open>Outgoing contracts\<close>

definition tap_next_hashlock :: "btc \<Rightarrow> taproot_contract_data \<Rightarrow> maker_error + script" where
  "tap_next_hashlock B d =
     res_bind (map_err (perr (\<lambda>_. MGeneral ''Invalid hashlock script''))
       (extract_hash_from_hashlock B (tcd_hashlock_script d))) (\<lambda>hash.
     res_bind (case tcd_next_hashlock_nonce d of
         Some nonce \<Rightarrow> map_err (\<lambda>_. MGeneral ''Next hop key derivation'')
           (calculate_pubkey_from_nonce B (tcd_next_hop_point d) nonce)
       | None \<Rightarrow> Inr (tcd_next_hop_point d)) (\<lambda>next_hop_hashlock_pubkey.
     Inr (create_hashlock_script B hash (b_xonly B (pk_inner next_hop_hashlock_pubkey)))))"

record tap_outgoing =
  tp_coin :: outgoing_swapcoin
  tp_outpoint :: outpoint
  tp_pubkey :: public_key
  tp_internal_key :: xonly
  tp_tap_tweak :: bytes
  tp_timelock_script :: script

text \<open>The keys and scripts of one outgoing contract: \<open>(privkey, timelock_script, internal_key, spk, tap_tweak)\<close>.\<close>

definition tap_outgoing_keys ::
    "btc \<Rightarrow> taproot_contract_data \<Rightarrow> script \<Rightarrow> nat \<Rightarrow> seckey \<Rightarrow> seckey \<times> seckey
     \<Rightarrow> maker_error + (seckey \<times> script \<times> xonly \<times> script \<times> bytes)" where
  "tap_outgoing_keys B d hashlock_script timelock tweakable_privkey = (\<lambda>(outgoing_nonce, timelock_privkey).
     res_bind (ok_or (b_add_tweak B tweakable_privkey outgoing_nonce)
       (MGeneral ''Outgoing key derivation failed'')) (\<lambda>outgoing_privkey.
     let outgoing_pubkey = compressed_key (b_pubkey_of B outgoing_privkey);
         timelock_xonly = b_xonly B (b_pubkey_of B timelock_privkey) in
     res_bind (ensure (timelock < LOCK_TIME_THRESHOLD) (MGeneral ''Invalid locktime height'')) (\<lambda>_.
     let timelock_script = create_timelock_script B timelock timelock_xonly in
     res_bind (map_err (\<lambda>_. MGeneral ''Failed to create aggregated pubkey'')
       (aggregate_ordered B outgoing_pubkey (tcd_next_hop_point d))) (\<lambda>internal_key.
     res_bind (ok_or (b_taproot B hashlock_script timelock_script internal_key)
       (MGeneral ''Failed to finalize taproot'')) (\<lambda>(merkle_root, tap_tweak).
     Inr (outgoing_privkey, timelock_script, internal_key, b_p2tr B internal_key merkle_root, tap_tweak))))))"

text \<open>
  One round of the loop over the outgoing amounts. The accumulator holds \<open>spent_inputs\<close> and the
  contracts built so far; \<open>contract_tx.output[output_pos]\<close> panics out of range.
\<close>

definition tap_fund_contract ::
    "btc \<Rightarrow> 'm maker_ops \<Rightarrow> (nat \<Rightarrow> seckey \<times> seckey) \<Rightarrow> taproot_contract_data \<Rightarrow> script \<Rightarrow> nat \<Rightarrow> seckey \<Rightarrow> outpoint list
     \<Rightarrow> outpoint list \<times> tap_outgoing list \<Rightarrow> nat \<times> amount \<Rightarrow> ('m, outpoint list \<times> tap_outgoing list) hact" where
  "tap_fund_contract B M rng d hashlock_script timelock tweakable_privkey base_excluded = (\<lambda>(spent_inputs, built) (i, outgoing_amount).
     act_bind (act_lift (tap_outgoing_keys B d hashlock_script timelock tweakable_privkey (rng i)))
       (\<lambda>(outgoing_privkey, timelock_script, internal_key, spk, tap_tweak).
     act_bind (on_m (mk_create_funding_transaction M outgoing_amount spk (Some (base_excluded @ spent_inputs))))
       (\<lambda>(contract_tx, output_pos).
     act_bind (act_lift (ok_or (nth_opt (tx_output contract_tx) output_pos) MPanic)) (\<lambda>out.
     let outgoing_pubkey = compressed_key (b_pubkey_of B outgoing_privkey);
         coin = og_set_taproot_params outgoing_privkey outgoing_pubkey (tcd_next_hop_point d) internal_key tap_tweak
           ((og_new_taproot (snd (rng i)) hashlock_script timelock_script contract_tx (to_value out))
             \<lparr>og_swap_id := Some (tcd_id d)\<rparr>) in
     act_ret (spent_inputs @ map ti_prev (tx_input contract_tx),
       built @ [\<lparr>tp_coin = coin, tp_outpoint = \<lparr>op_txid = b_txid B contract_tx, op_vout = output_pos\<rparr>,
         tp_pubkey = outgoing_pubkey, tp_internal_key = internal_key, tp_tap_tweak = tap_tweak,
         tp_timelock_script = timelock_script\<rparr>])))))"

section \<open>Commitment and reply\<close>

definition tap_commit :: "btc \<Rightarrow> 'm maker_ops \<Rightarrow> incoming_swapcoin list \<Rightarrow> tap_outgoing list \<Rightarrow> ('m, unit) hact" where
  "tap_commit B M incoming built =
     act_seq (act_iter (\<lambda>t.
       act_bind (act_lift (ok_or (nth_opt (tx_output (og_contract_tx (tp_coin t))) (op_vout (tp_outpoint t))) MPanic)) (\<lambda>out.
       on_m (mk_register_watch_outpoint M (tp_outpoint t) (to_spk out)))) built) (
     act_seq (ensure_watchtower_alive M) (
     act_seq (act_iter (\<lambda>c. on_m (mk_save_incoming_swapcoin M c)) incoming) (
     act_seq (act_iter (\<lambda>t. on_m (mk_save_outgoing_swapcoin M (tp_coin t))) built) (
     act_iter (\<lambda>t. broadcast_funding_tx B M (og_contract_tx (tp_coin t))) built))))"

definition tap_response :: "taproot_contract_data \<Rightarrow> public_key \<Rightarrow> script \<Rightarrow> tap_outgoing list \<Rightarrow> taproot_contract_data" where
  "tap_response d tweakable_pubkey hashlock_script built =
     \<lparr>tcd_id = tcd_id d, tcd_pubkeys = map tp_pubkey built, tcd_next_hop_point = tweakable_pubkey,
      tcd_internal_keys = map tp_internal_key built, tcd_tap_tweaks = map tp_tap_tweak built,
      tcd_hashlock_script = hashlock_script, tcd_timelock_scripts = map tp_timelock_script built,
      tcd_contract_txs = map (og_contract_tx \<circ> tp_coin) built, tcd_amounts = map (og_funding_amount \<circ> tp_coin) built,
      tcd_hashlock_nonce = None, tcd_next_hashlock_nonce = None\<rparr>"

text \<open>From the accepted data to the outgoing contracts: everything before the first commitment.\<close>

definition tap_prepare ::
    "btc \<Rightarrow> 'm maker_ops \<Rightarrow> (nat \<Rightarrow> seckey \<times> seckey) \<Rightarrow> taproot_contract_data
     \<Rightarrow> ('m, public_key \<times> script \<times> incoming_swapcoin list \<times> tap_outgoing list) hact" where
  "tap_prepare B M rng d =
     act_bind (tap_check B M d) (\<lambda>(tweakable_privkey, tweakable_pubkey, hashlock_privkey, total_incoming).
     act_bind (get_c id) (\<lambda>state.
     act_bind (get_m (\<lambda>m. mc_required_confirms (mk_get_config M m))) (\<lambda>required_confirms.
     act_bind (act_mapM (tap_confirm_incoming B M d tweakable_privkey hashlock_privkey (cs_timelock state) required_confirms)
       (enumerate 0 (tcd_contract_txs d))) (\<lambda>incoming_swapcoins.
     act_bind (get_m (mk_calculate_swap_fee M total_incoming (cs_refund_locktime_offset state))) (\<lambda>swap_fee.
     act_seq (set_c (\<lambda>c. c\<lparr>cs_service_fee_sats := swap_fee\<rparr>)) (
     act_bind (act_lift (tap_outgoing_amounts B (tcd_amounts d) (length (tcd_contract_txs d)) total_incoming swap_fee))
       (\<lambda>outgoing_amounts.
     act_bind (act_lift (tap_next_hashlock B d)) (\<lambda>hashlock_script.
     act_bind (on_m (mk_collect_excluded_utxos M (tcd_id d))) (\<lambda>base_excluded.
     act_bind (act_foldM (tap_fund_contract B M rng d hashlock_script (cs_timelock state) tweakable_privkey base_excluded)
       ([], []) (enumerate 0 outgoing_amounts)) (\<lambda>(_, built).
     act_ret (tweakable_pubkey, hashlock_script, incoming_swapcoins, built)))))))))))"

definition process_taproot_contract ::
    "btc \<Rightarrow> 'm maker_ops \<Rightarrow> (nat \<Rightarrow> seckey \<times> seckey) \<Rightarrow> taproot_contract_data \<Rightarrow> ('m, maker_to_taker_message option) hact" where
  "process_taproot_contract B M rng d =
     act_bind (tap_prepare B M rng d) (\<lambda>(tweakable_pubkey, hashlock_script, incoming_swapcoins, built).
     act_seq (set_c (\<lambda>c. c\<lparr>cs_reserve_utxo := map tp_outpoint built, cs_incoming := incoming_swapcoins,
       cs_outgoing := map tp_coin built\<rparr>)) (
     act_seq (tap_commit B M incoming_swapcoins built) (
     act_seq (set_c (\<lambda>c. c\<lparr>cs_funding_broadcast := True, cs_phase := AwaitingPrivateKeyHandover\<rparr>)) (
     act_bind (get_c id) (\<lambda>state.
     act_seq (on_m (mk_store_connection_state M (tcd_id d) state False)) (
     act_ret (Some (MtTaprootContractData (tap_response d tweakable_pubkey hashlock_script built)))))))))"

definition process_taproot_handover ::
    "btc \<Rightarrow> 'm maker_ops \<Rightarrow> private_key_handover \<Rightarrow> ('m, maker_to_taker_message option) hact" where
  "process_taproot_handover B M handover =
     act_seq (on_c (expect_phase [AwaitingPrivateKeyHandover])) (
     act_seq (on_c (check_swap_id (ph_id handover))) (
     act_bind (get_c id) (\<lambda>state.
     act_seq (act_lift (verify_taproot_privkey_handover B (ph_privkeys handover) (cs_incoming state))) (
     act_seq (act_ensure (cs_outgoing state \<noteq> []) (MGeneral ''No outgoing swapcoin found'')) (
     act_bind (act_lift (res_map outgoing_handover_key (cs_outgoing state))) (\<lambda>privkeys.
     let incoming_swapcoins = zip_update store_handover_key (ph_privkeys handover) (cs_incoming state) in
     act_seq (set_c (\<lambda>c. c\<lparr>cs_incoming := incoming_swapcoins\<rparr>)) (
     act_seq (act_iter (\<lambda>incoming. on_m (mk_save_incoming_swapcoin M incoming)) incoming_swapcoins) (
     act_seq (set_c (\<lambda>c. c\<lparr>cs_phase := Completed\<rparr>)) (
     act_ret (Some (MtTaprootPrivateKeyHandover \<lparr>ph_id = ph_id handover, ph_privkeys = privkeys\<rparr>)))))))))))"

definition handle_taproot_message ::
    "btc \<Rightarrow> 'm maker_ops \<Rightarrow> (nat \<Rightarrow> seckey \<times> seckey) \<Rightarrow> taproot_taker_message \<Rightarrow> ('m, maker_to_taker_message option) hact" where
  "handle_taproot_message B M rng message = (case message of
     TContractData d \<Rightarrow> process_taproot_contract B M rng d
   | TPrivateKeyHandover handover \<Rightarrow> process_taproot_handover B M handover)"

section \<open>Handover\<close>

definition tap_handover_check :: "btc \<Rightarrow> private_key_handover \<Rightarrow> conn \<Rightarrow> maker_error + swap_privkey list" where
  "tap_handover_check B h c =
     res_bind (expect_phase [AwaitingPrivateKeyHandover] c) (\<lambda>_.
     res_bind (check_swap_id (ph_id h) c) (\<lambda>_.
     res_bind (verify_taproot_privkey_handover B (ph_privkeys h) (cs_incoming c)) (\<lambda>_.
     res_bind (ensure (cs_outgoing c \<noteq> []) (MGeneral ''No outgoing swapcoin found'')) (\<lambda>_.
     res_map outgoing_handover_key (cs_outgoing c)))))"

lemma taproot_handover_verified_iff:
  "verify_taproot_privkey_handover B ks coins = Inr () \<longleftrightarrow> length ks = length coins \<and>
     (\<forall>i<length coins. inc_other_pubkey (coins ! i) = Some (compressed_key (b_pubkey_of B (sp_key (ks ! i)))))"
proof (cases "length ks = length coins")
  case True
  let ?f = "\<lambda>(privkey_info, incoming).
        res_bind (ok_or (inc_other_pubkey incoming)
          (MGeneral ''Missing other_pubkey on incoming swapcoin during Taproot handover verification'')) (\<lambda>expected_pubkey.
        ensure (compressed_key (b_pubkey_of B (sp_key privkey_info)) = expected_pubkey)
          (MGeneral ''Taproot privkey derives pubkey that doesn't match expected other_pubkey''))"
  let ?P = "\<lambda>(k, coin). inc_other_pubkey coin = Some (compressed_key (b_pubkey_of B (sp_key k)))"
  have "(?f x = Inr ()) = ?P x" for x by (auto simp: res_simps split: prod.splits)
  from res_all_zip_iff [of ?f ?P, OF this True] True show ?thesis
    by (simp add: verify_taproot_privkey_handover_def)
qed (simp add: verify_taproot_privkey_handover_def)

lemma process_taproot_handover_at:
  "process_taproot_handover B M h (m, c) = (case tap_handover_check B h c of
     Inl e \<Rightarrow> (Inl e, (m, c))
   | Inr ks \<Rightarrow> let coins = zip_update store_handover_key (ph_privkeys h) (cs_incoming c) in
       act_seq (act_iter (\<lambda>x. on_m (mk_save_incoming_swapcoin M x)) coins) (
       act_seq (set_c (\<lambda>c. c\<lparr>cs_phase := Completed\<rparr>)) (
       act_ret (Some (MtTaprootPrivateKeyHandover \<lparr>ph_id = ph_id h, ph_privkeys = ks\<rparr>))))
         (m, c\<lparr>cs_incoming := coins\<rparr>))"
  by (simp add: process_taproot_handover_def tap_handover_check_def act_bind_def on_c_def set_c_def get_c_def act_ensure_def
      act_lift_def res_bind_def Let_def split: sum.splits)

interpretation taproot_handover: key_handover process_taproot_handover tap_handover_check MtTaprootPrivateKeyHandover
proof
  show "tap_handover_check B h c = Inr ks \<longleftrightarrow> cs_phase c = AwaitingPrivateKeyHandover
     \<and> (cs_swap_id c = None \<or> cs_swap_id c = Some (ph_id h)) \<and> cs_outgoing c \<noteq> []
     \<and> length (ph_privkeys h) = length (cs_incoming c)
     \<and> (\<forall>i<length (cs_incoming c). inc_other_pubkey (cs_incoming c ! i)
          = Some (compressed_key (b_pubkey_of B (sp_key (ph_privkeys h ! i)))))
     \<and> map og_my_privkey (cs_outgoing c) = map (Some \<circ> sp_key) ks \<and> (\<forall>k\<in>set ks. sp_identifier k = [])" for B h c ks
    by (auto simp: tap_handover_check_def res_simps outgoing_keys_iff taproot_handover_verified_iff)
qed (rule process_taproot_handover_at)

section \<open>Accepted contract data\<close>

lemma those_eq_Some_iff: "those xs = Some ys \<longleftrightarrow> xs = map Some ys"
proof (induction xs arbitrary: ys)
  case (Cons x xs)
  then show ?case by (cases x; cases ys) auto
qed auto

text \<open>What a verified contract is: its key, its tree, its tweak and the output that pays to them.\<close>

definition verified_contract :: "btc \<Rightarrow> taproot_contract_data \<Rightarrow> public_key \<Rightarrow> nat \<Rightarrow> nat \<Rightarrow> bool" where
  "verified_contract B d maker_pubkey locktime i \<longleftrightarrow>
     aggregate_ordered B (tcd_pubkeys d ! i) maker_pubkey = Inr (tcd_internal_keys d ! i)
     \<and> (\<exists>first pubkey. b_instructions B (tcd_timelock_scripts d ! i)
           = map Some [first, Op 0xb1, Op 0x75, PushBytes pubkey, Op 0xac]
         \<and> length pubkey = 32 \<and> timelock_value first = Inr locktime)
     \<and> (\<exists>merkle_root out outs.
         b_taproot B (tcd_hashlock_script d) (tcd_timelock_scripts d ! i) (tcd_internal_keys d ! i)
           = Some (merkle_root, tcd_tap_tweaks d ! i)
         \<and> tx_output (tcd_contract_txs d ! i) = out # outs \<and> to_value out = tcd_amounts d ! i
         \<and> to_spk out = b_p2tr B (tcd_internal_keys d ! i) merkle_root)"

lemma check_timelock_script_iff:
  "check_timelock_script B s t = Inr () \<longleftrightarrow> t \<noteq> 0 \<and> (\<exists>first pubkey.
     b_instructions B s = map Some [first, Op 0xb1, Op 0x75, PushBytes pubkey, Op 0xac]
     \<and> length pubkey = 32 \<and> timelock_value first = Inr t)" (is "?L \<longleftrightarrow> ?R")
proof
  assume ?L
  then obtain instrs where is5: "b_instructions B s = map Some instrs" "timelock_template_ok instrs"
    and v: "(case instrs of first # _ \<Rightarrow> timelock_value first
       | [] \<Rightarrow> Inl (MGeneral ''Taproot timelock script is empty'')) = Inr t" and "t \<noteq> 0"
    by (auto simp: check_timelock_script_def res_simps those_eq_Some_iff)
  from is5(2) obtain first pubkey where "instrs = [first, Op 0xb1, Op 0x75, PushBytes pubkey, Op 0xac]" "length pubkey = 32"
    by (auto elim: timelock_template_ok.elims)
  with is5(1) v \<open>t \<noteq> 0\<close> show ?R by simp
next
  assume ?R
  then show ?L by (auto simp: check_timelock_script_def)
qed

lemma taproot_contract_ok_verified:
  assumes "taproot_contract_ok B d k t (i, tcd_contract_txs d ! i) = Inr ()"
    and "i < length (tcd_contract_txs d)" "length (tcd_tap_tweaks d) = length (tcd_contract_txs d)"
  shows "verified_contract B d k t i"
proof -
  have nth: "nth_opt xs j = Some x \<Longrightarrow> x = xs ! j" for xs :: "'x list" and j x
    by (simp add: nth_opt_def split: if_splits)
  obtain ts pk ik merkle_root tweak where
    ts: "nth_opt (tcd_timelock_scripts d) i = Some ts" and pk: "nth_opt (tcd_pubkeys d) i = Some pk"
    and ik: "nth_opt (tcd_internal_keys d) i = Some ik" and agg: "aggregate_ordered B pk k = Inr ik"
    and lock: "check_timelock_script B ts t = Inr ()"
    and tree: "b_taproot B (tcd_hashlock_script d) ts ik = Some (merkle_root, tweak)"
    and tweak: "tap_tweak_scalar B d i = Inr tweak"
    and out: "(case tx_output (tcd_contract_txs d ! i) of
       [] \<Rightarrow> Inl (MGeneral ''Taproot contract tx has no outputs'')
     | out # _ \<Rightarrow>
       res_bind (ok_or (nth_opt (tcd_amounts d) i) MPanic) (\<lambda>amount.
       res_bind (ensure (amount = to_value out)
         (MGeneral ''Taproot contract tx amount does not match output value'')) (\<lambda>_.
       ensure (to_spk out = b_p2tr B ik merkle_root)
         (MGeneral ''Taproot contract tx output scriptpubkey does not match expected P2TR address'')))) = Inr ()"
    using assms(1) unfolding taproot_contract_ok_def prod.case
    by (elim res_bind_Inr_iff [THEN iffD1, elim_format] exE conjE) (auto simp: res_simps)
  from tweak have "tweak = tcd_tap_tweaks d ! i"
    by (auto simp: tap_tweak_scalar_def scalar_try_from_def res_simps dest!: nth split: if_splits)
  moreover from out obtain o1 outs where "tx_output (tcd_contract_txs d ! i) = o1 # outs" "to_value o1 = tcd_amounts d ! i"
    "to_spk o1 = b_p2tr B ik merkle_root"
    by (cases "tx_output (tcd_contract_txs d ! i)") (auto simp: res_simps dest!: nth)
  ultimately show ?thesis
    using agg lock tree nth [OF ts] nth [OF pk] nth [OF ik] by (simp add: verified_contract_def check_timelock_script_iff)
qed

text \<open>
  C4. Contract data the maker accepts is worth what it claims: there is at least one contract, no two
  contracts are the same transaction, all lists have one entry per contract, and for each contract the
  internal key is the MuSig2 aggregate of the taker's and the maker's key, the timelock leaf locks
  until exactly \<open>REFUND_LOCKTIME_STEP\<close> blocks after the maker's own timelock, the tap tweak
  is that of the two-leaf tree, and the first output pays the claimed amount to that tree.
\<close>

theorem accepted_contract_data:
  assumes "verify_taproot_contract_data B d k timelock = Inr ()"
  shows "tcd_contract_txs d \<noteq> [] \<and> distinct (map (b_txid B) (tcd_contract_txs d))
    \<and> length (tcd_amounts d) = length (tcd_contract_txs d) \<and> length (tcd_pubkeys d) = length (tcd_contract_txs d)
    \<and> (\<exists>hash pubkey. b_instructions B (tcd_hashlock_script d)
          = map Some [Op 0xa8, PushBytes hash, Op 0x88, PushBytes pubkey, Op 0xac] \<and> length hash = 32 \<and> length pubkey = 32)
    \<and> (\<forall>i<length (tcd_contract_txs d). verified_contract B d k (timelock + 20) i)"
proof -
  from assms obtain instrs where *: "tcd_contract_txs d \<noteq> []" "length (tcd_contract_txs d) = length (tcd_amounts d)"
    "b_instructions B (tcd_hashlock_script d) = map Some instrs" "hashlock_template_ok instrs"
    "length (tcd_tap_tweaks d) = length (tcd_contract_txs d)" "length (tcd_pubkeys d) = length (tcd_contract_txs d)"
    "distinct (map (b_txid B) (tcd_contract_txs d))"
    "\<forall>x\<in>set (enumerate 0 (tcd_contract_txs d)). taproot_contract_ok B d k (timelock + REFUND_LOCKTIME_STEP) x = Inr ()"
    by (auto simp: verify_taproot_contract_data_def res_simps Let_def those_eq_Some_iff)
  from *(4) obtain hash pubkey where "instrs = [Op 0xa8, PushBytes hash, Op 0x88, PushBytes pubkey, Op 0xac]" "length hash = 32" "length pubkey = 32"
    by (auto elim: hashlock_template_ok.elims)
  moreover have "verified_contract B d k (timelock + 20) i" if "i < length (tcd_contract_txs d)" for i
    using *(8) that *(5) by (intro taproot_contract_ok_verified) (auto simp: in_set_enumerate_eq REFUND_LOCKTIME_STEP_def)
  ultimately show ?thesis using * by simp
qed

section \<open>Honest contract data\<close>

lemma lock_time_instructions:
  assumes B: "script_lib B" and n: "n < 2 ^ 31"
  shows "b_instructions B (b_push_lock_time B n @ s) = Some (int_instr n) # b_instructions B s"
proof (cases "n < 65536")
  case True
  then show ?thesis by (simp add: script_lib.push_lock_time [OF B] script_lib.instructions_push_int [OF B])
next
  case False
  then have "length (script_num n) \<le> 75" using script_num_length_4 [OF n] by simp
  with False show ?thesis
    by (simp add: script_lib.push_lock_time [OF B] script_lib.push_int_large [OF B]
        script_lib.instructions_push_slice [OF B] int_instr_def)
qed

lemma timelock_value_int_instr:
  assumes "0 < n" "n < 2 ^ 31"
  shows "timelock_value (int_instr n) = Inr n"
proof (cases "n \<le> 16")
  case True
  then have u: "unat (of_nat (80 + n) :: byte) = 80 + n" by (intro unat_byte) simp
  moreover have "(of_nat (80 + n) :: byte) \<noteq> 0x4f"
  proof
    assume "(of_nat (80 + n) :: byte) = 0x4f"
    then have "unat (of_nat (80 + n) :: byte) = 79" by (simp only: unat_numeral) simp
    with u show False by linarith
  qed
  ultimately show ?thesis using assms True by (simp add: timelock_value_def int_instr_def)
next
  case False
  then have "script_num n \<noteq> []" using assms le_value_script_num [of n] by auto
  with False assms show ?thesis
    using script_num_length_4 [OF assms(2)] by (simp add: timelock_value_def int_instr_def le_value_script_num)
qed

lemma check_created_timelock_script:
  assumes "script_lib B" "0 < t" "t < 2 ^ 31" "length p = 32"
  shows "check_timelock_script B (create_timelock_script B t p) t = Inr ()"
proof -
  have "b_instructions B (create_timelock_script B t p) = map Some [int_instr t, Op 0xb1, Op 0x75, PushBytes p, Op 0xac]"
    using assms by (simp add: create_timelock_script_def lock_time_instructions script_lib.instructions_op
        script_lib.instructions_nil script_lib.instructions_push_slice)
  with timelock_value_int_instr [OF assms(2,3)] assms(2,4) show ?thesis unfolding check_timelock_script_iff by blast
qed

text \<open>Contract data as a taker that follows the protocol builds it for a maker with key \<open>k\<close> and timelock \<open>t\<close>.\<close>

definition honest_contract_data :: "btc \<Rightarrow> taproot_contract_data \<Rightarrow> public_key \<Rightarrow> nat \<Rightarrow> bool" where
  "honest_contract_data B d k t \<longleftrightarrow>
     (let n = length (tcd_contract_txs d) in
      n \<noteq> 0 \<and> length (tcd_amounts d) = n \<and> length (tcd_timelock_scripts d) = n \<and> length (tcd_internal_keys d) = n
      \<and> length (tcd_tap_tweaks d) = n \<and> length (tcd_pubkeys d) = n \<and> distinct (map (b_txid B) (tcd_contract_txs d))
      \<and> (\<exists>hash pk. length hash = 32 \<and> length pk = 32 \<and> tcd_hashlock_script d = create_hashlock_script B hash pk)
      \<and> (\<forall>i<n. \<exists>p merkle_root inp inps out outs. length p = 32
          \<and> tcd_timelock_scripts d ! i = create_timelock_script B (t + REFUND_LOCKTIME_STEP) p
          \<and> aggregate_ordered B (tcd_pubkeys d ! i) k = Inr (tcd_internal_keys d ! i)
          \<and> b_taproot B (tcd_hashlock_script d) (tcd_timelock_scripts d ! i) (tcd_internal_keys d ! i)
              = Some (merkle_root, tcd_tap_tweaks d ! i)
          \<and> length (tcd_tap_tweaks d ! i) = 32 \<and> b_scalar_ok B (tcd_tap_tweaks d ! i)
          \<and> tx_input (tcd_contract_txs d ! i) = inp # inps \<and> tx_output (tcd_contract_txs d ! i) = out # outs
          \<and> to_value out = tcd_amounts d ! i \<and> to_spk out = b_p2tr B (tcd_internal_keys d ! i) merkle_root))"

lemma honest_contract_ok:
  assumes B: "script_lib B" and t: "t + 20 < 2 ^ 31" and h: "honest_contract_data B d k t"
    and i: "i < length (tcd_contract_txs d)"
  shows "taproot_contract_ok B d k (t + REFUND_LOCKTIME_STEP) (i, tcd_contract_txs d ! i) = Inr ()"
proof -
  from h i obtain p merkle_root inp inps out outs where *: "length p = 32"
    "tcd_timelock_scripts d ! i = create_timelock_script B (t + REFUND_LOCKTIME_STEP) p"
    "aggregate_ordered B (tcd_pubkeys d ! i) k = Inr (tcd_internal_keys d ! i)"
    "b_taproot B (tcd_hashlock_script d) (tcd_timelock_scripts d ! i) (tcd_internal_keys d ! i) = Some (merkle_root, tcd_tap_tweaks d ! i)"
    "length (tcd_tap_tweaks d ! i) = 32" "b_scalar_ok B (tcd_tap_tweaks d ! i)"
    "tx_input (tcd_contract_txs d ! i) = inp # inps" "tx_output (tcd_contract_txs d ! i) = out # outs"
    "to_value out = tcd_amounts d ! i" "to_spk out = b_p2tr B (tcd_internal_keys d ! i) merkle_root"
    unfolding honest_contract_data_def Let_def by blast
  have len: "length (tcd_amounts d) = length (tcd_contract_txs d)" "length (tcd_timelock_scripts d) = length (tcd_contract_txs d)"
    "length (tcd_internal_keys d) = length (tcd_contract_txs d)" "length (tcd_tap_tweaks d) = length (tcd_contract_txs d)"
    "length (tcd_pubkeys d) = length (tcd_contract_txs d)"
    using h by (simp_all add: honest_contract_data_def Let_def)
  have "check_timelock_script B (tcd_timelock_scripts d ! i) (t + REFUND_LOCKTIME_STEP) = Inr ()"
    unfolding *(2) using t *(1) by (intro check_created_timelock_script B) (auto simp: REFUND_LOCKTIME_STEP_def)
  moreover have "tap_tweak_scalar B d i = Inr (tcd_tap_tweaks d ! i)"
    using *(5,6) len i by (simp add: tap_tweak_scalar_def scalar_try_from_def nth_opt_def)
  ultimately show ?thesis
    using * len i by (simp add: taproot_contract_ok_def nth_opt_def map_err_def)
qed

lemma honest_verified:
  assumes B: "script_lib B" and t: "t + 20 < 2 ^ 31" and h: "honest_contract_data B d k t"
  shows "verify_taproot_contract_data B d k t = Inr ()"
proof -
  from h obtain hash pk where hs: "length hash = 32" "length pk = 32" "tcd_hashlock_script d = create_hashlock_script B hash pk"
    unfolding honest_contract_data_def Let_def by blast
  note instrs = taproot_hashlock_instructions [OF B hs(1,2)]
  have "res_all (taproot_contract_ok B d k (t + REFUND_LOCKTIME_STEP)) (enumerate 0 (tcd_contract_txs d)) = Inr ()"
    using honest_contract_ok [OF B t h] by (auto simp: res_all_Inr_iff in_set_enumerate_eq)
  then show ?thesis
    using h hs by (auto simp: verify_taproot_contract_data_def honest_contract_data_def Let_def instrs
        extract_hash_from_hashlock_def nth_opt_def map_err_def)
qed


text \<open>Data for one contract of 100000 satoshis in \<open>sample_lib\<close>, for a maker with key 5 and timelock 100.\<close>

definition sample_maker_key :: public_key where
  "sample_maker_key = compressed_key (2 # replicate 32 5)"

definition sample_hs :: script where
  "sample_hs = create_hashlock_script sample_lib (replicate 32 1) (replicate 32 6)"

definition sample_ts :: script where
  "sample_ts = create_timelock_script sample_lib 120 (replicate 32 4)"

definition sample_ik :: xonly where
  "sample_ik = get_aggregated_pubkey sample_lib (2 # replicate 32 5) (2 # replicate 32 7)"

definition sample_tcd :: taproot_contract_data where
  "sample_tcd =
     \<lparr>tcd_id = ''s'', tcd_pubkeys = [compressed_key (2 # replicate 32 7)], tcd_next_hop_point = compressed_key (2 # replicate 32 8),
      tcd_internal_keys = [sample_ik], tcd_tap_tweaks = [fit 32 (sample_ik @ sample_hs @ sample_ts)],
      tcd_hashlock_script = sample_hs, tcd_timelock_scripts = [sample_ts],
      tcd_contract_txs = [\<lparr>tx_version = 2, tx_lock_time = 0,
        tx_input = [\<lparr>ti_prev = \<lparr>op_txid = [], op_vout = 0\<rparr>, ti_sequence = 0, ti_witness = [], ti_script_sig = []\<rparr>],
        tx_output = [\<lparr>to_value = 100000, to_spk = b_p2tr sample_lib sample_ik (fit 32 (sample_hs @ sample_ts))\<rparr>]\<rparr>],
      tcd_amounts = [100000], tcd_hashlock_nonce = Some (replicate 32 3), tcd_next_hashlock_nonce = None\<rparr>"

lemma sample_aggregate:
  "aggregate_ordered sample_lib (compressed_key (2 # replicate 32 7)) sample_maker_key
     = Inr sample_ik"
proof -
  have "(2::byte) # replicate 32 5 < 2 # replicate 32 7" "\<not> (2::byte) # replicate 32 7 < 2 # replicate 32 5" by code_simp+
  moreover have "length (get_aggregated_pubkey sample_lib p q) = min (length (tl p)) (min (length (tl q)) 32)" for p q
    by (simp add: get_aggregated_pubkey_def sample_lib_def xor_bytes_def ac_simps)
  then have "b_xonly_from_slice sample_lib (get_aggregated_pubkey sample_lib (2 # replicate 32 5) (2 # replicate 32 7))
      = Some (get_aggregated_pubkey sample_lib (2 # replicate 32 5) (2 # replicate 32 7))"
    by (simp add: sample_lib_def)
  ultimately show ?thesis
    by (simp add: aggregate_ordered_def ordered_pair_def sample_maker_key_def get_aggregated_pubkey_compat_def
        sample_from_slice_def sample_ik_def)
qed

lemma sample_tcd_honest: "honest_contract_data sample_lib sample_tcd sample_maker_key 100"
proof -
  have tree: "b_taproot sample_lib h t k = Some (fit 32 (h @ t), fit 32 (k @ h @ t))" "b_scalar_ok sample_lib x" for h t k x
    by (simp_all add: sample_lib_def)
  have fit: "length (fit 32 x) = 32" for x by (simp add: fit_def)
  have ts: "\<exists>p. length p = 32 \<and> sample_ts = create_timelock_script sample_lib 120 p"
    by (rule exI [of _ "replicate 32 4"]) (simp add: sample_ts_def)
  have hs: "\<exists>hash pk. length hash = 32 \<and> length pk = 32 \<and> sample_hs = create_hashlock_script sample_lib hash pk"
    by (rule exI [of _ "replicate 32 1"], rule exI [of _ "replicate 32 6"]) (simp add: sample_hs_def)
  from sample_aggregate tree fit ts hs show ?thesis
    unfolding honest_contract_data_def Let_def by (simp add: sample_tcd_def REFUND_LOCKTIME_STEP_def)
qed

lemma sample_tcd_verified: "verify_taproot_contract_data sample_lib sample_tcd sample_maker_key 100 = Inr ()"
  by (rule honest_verified [OF sample_script.script_lib_axioms _ sample_tcd_honest]) simp


theorem accepted_contract_data_witness:
  "verified_contract sample_lib sample_tcd sample_maker_key 120 0"
  using accepted_contract_data [OF sample_tcd_verified] by (simp add: sample_tcd_def)

section \<open>The fee split\<close>

lemma last_max_index_prefix:
  fixes xs :: "nat list"
  defines "best \<equiv> \<lambda>k. fold (\<lambda>i best. if xs ! best \<le> xs ! i then i else best) [0..<k] 0"
  assumes "0 < k"
  shows "best k < k \<and> (\<forall>j<k. xs ! j \<le> xs ! best k)"
  using assms(2)
proof (induction k)
  case (Suc k)
  have step: "best (Suc k) = (if xs ! best k \<le> xs ! k then k else best k)" by (simp add: best_def)
  show ?case
  proof (cases k)
    case 0
    then show ?thesis by (simp add: best_def)
  next
    case (Suc k')
    with Suc.IH have "best k < k" "\<forall>j<k. xs ! j \<le> xs ! best k" by auto
    then show ?thesis unfolding step by (auto simp: less_Suc_eq intro: order_trans less_imp_le)
  qed
qed simp

lemma last_max_index_max:
  assumes "xs \<noteq> []"
  shows "last_max_index xs < length xs \<and> (\<forall>j<length xs. xs ! j \<le> xs ! last_max_index xs)"
  using last_max_index_prefix [of "length xs" xs] assms by (simp add: last_max_index_def)

lemma floor_shares_le: "0 < (t::nat) \<Longrightarrow> sum_list (map (\<lambda>a. fee * a div t) xs) * t \<le> fee * sum_list xs"
  by (induction xs) (auto simp: algebra_simps intro: add_mono div_times_less_eq_dividend)

lemma floor_shares_gt:
  assumes "0 < (t::nat)" "xs \<noteq> []"
  shows "fee * sum_list xs < (sum_list (map (\<lambda>a. fee * a div t) xs) + length xs) * t"
  using assms(2)
proof (induction xs rule: list_nonempty_induct)
  case (single x)
  then show ?case using assms(1) dividend_less_div_times [of t "fee * x"] by (simp add: algebra_simps)
next
  case (cons x xs)
  then show ?case using assms(1) dividend_less_div_times [of t "fee * x"] by (simp add: algebra_simps)
qed

lemma sum_list_diff_nat:
  "(\<And>x. x \<in> set xs \<Longrightarrow> f x \<le> (x::nat)) \<Longrightarrow> sum_list (map (\<lambda>x. x - f x) xs) + sum_list (map f xs) = sum_list xs"
proof (induction xs)
  case (Cons a xs)
  from Cons.prems [of a] have "f a \<le> a" by simp
  with Cons.IH [OF Cons.prems] show ?case by simp
qed simp

lemma res_map_all: "(\<And>x. x \<in> set xs \<Longrightarrow> f x = Inr (g x)) \<Longrightarrow> res_map f xs = Inr (map g xs)"
  by (induction xs) auto

lemma fee_share_eq:
  assumes "a \<le> t" "t < 2 ^ 64" "fee \<le> t" "0 < t"
  shows "fee_share fee t a = Inr (a - fee * a div t)"
proof -
  have "fee * a div t \<le> t * a div t" using assms(3) by (intro div_le_mono mult_le_mono1)
  then have le: "fee * a div t \<le> a" using assms(4) by simp
  then have "fee * a div t < 2 ^ 64" using assms(1,2) by linarith
  then have "fee * a div t mod 2 ^ 64 = fee * a div t" by (rule mod_less)
  with le assms(4) show ?thesis unfolding fee_share_def checked_sub_def by (simp only: if_True) simp
qed

lemma fee_shares:
  assumes "sum_list amounts < 2 ^ 64" "fee \<le> sum_list amounts" "0 < sum_list amounts"
  shows "res_map (fee_share fee (sum_list amounts)) amounts = Inr (map (\<lambda>a. a - fee * a div sum_list amounts) amounts)"
  using assms by (intro res_map_all fee_share_eq) (auto intro: member_le_sum_list)

text \<open>
  C24. Splitting the maker's fee over the contracts loses nothing: if it succeeds there is one outgoing
  amount per contract, none above the incoming one, and they add up to the incoming total less the
  fee, to the satoshi. It can fail in one way only, a panic of the final subtraction, and only when
  every contract is left with fewer satoshis than there are contracts.
\<close>

theorem fee_split_exact:
  assumes "sum_list amounts < 2 ^ 64" "fee \<le> sum_list amounts" "0 < sum_list amounts"
  shows "case split_fee amounts (sum_list amounts) fee (sum_list amounts - fee) of
      Inr outs \<Rightarrow> length outs = length amounts \<and> sum_list outs = sum_list amounts - fee
        \<and> (\<forall>i<length amounts. outs ! i \<le> amounts ! i)
    | Inl e \<Rightarrow> e = MPanic \<and> (\<forall>a\<in>set amounts. a - fee * a div sum_list amounts < length amounts)"
proof -
  let ?S = "sum_list amounts" and ?f = "\<lambda>a. fee * a div sum_list amounts"
  define outs where "outs = map (\<lambda>a. a - ?f a) amounts"
  define F where "F = sum_list (map ?f amounts)"
  have ne: "amounts \<noteq> []" using assms(3) by auto
  have "?f a \<le> a" for a
    using div_le_mono [OF mult_le_mono1 [OF assms(2)], of a ?S] assms(3) by simp
  then have sum: "sum_list outs + F = ?S" unfolding outs_def F_def by (intro sum_list_diff_nat)
  have "F * ?S \<le> fee * ?S" "fee * ?S < (F + length amounts) * ?S"
    unfolding F_def by (rule floor_shares_le [OF assms(3)], rule floor_shares_gt [OF assms(3) ne])
  then have F: "F \<le> fee" "fee < F + length amounts" using assms(3) by auto
  let ?r = "fee - F" and ?i = "last_max_index outs"
  have rem: "checked_sub (sum_list outs) (?S - fee) = Some ?r"
  proof -
    have "?S - fee \<le> sum_list outs" "sum_list outs - (?S - fee) = ?r" using sum F(1) assms(2) by linarith+
    then show ?thesis by (simp only: checked_sub_def if_True)
  qed
  have max: "?i < length outs" "\<forall>j<length outs. outs ! j \<le> outs ! ?i"
    using last_max_index_max [of outs] ne by (auto simp: outs_def)
  have le: "outs ! j \<le> amounts ! j" if "j < length amounts" for j using that by (simp add: outs_def)
  have split: "split_fee amounts ?S fee (?S - fee) = (if ?r > 0 then
       (if ?r \<le> outs ! ?i then Inr (outs[?i := outs ! ?i - ?r]) else Inl MPanic) else Inr outs)"
    using fee_shares [OF assms] rem max(1)
    by (simp add: split_fee_def outs_def [symmetric] Let_def nth_opt_def checked_sub_def)
  show ?thesis
  proof (cases "?r > 0 \<and> outs ! ?i < ?r")
    case True
    have "a - ?f a < length amounts" if "a \<in> set amounts" for a
    proof -
      from that obtain j where "j < length outs" "outs ! j = a - ?f a" by (auto simp: outs_def in_set_conv_nth)
      with max(2) have "a - ?f a \<le> outs ! ?i" by metis
      also have "\<dots> < ?r" using True by blast
      also have "?r < length amounts" using F by linarith
      finally show ?thesis .
    qed
    with True split show ?thesis by (simp only: if_True not_le simp_thms sum.case) simp
  next
    case False
    show ?thesis
    proof (cases "?r = 0")
      case True
      have "sum_list outs = ?S - fee" using True sum F(1) by linarith
      moreover have "length outs = length amounts" by (simp add: outs_def)
      ultimately show ?thesis using True split le by simp
    next
      case r: False
      with False have "?r \<le> outs ! ?i" by linarith
      then have "sum_list (outs[?i := outs ! ?i - ?r]) = sum_list outs - ?r"
        using max(1) elem_le_sum_list [OF max(1)] by (simp add: sum_list_update)
      also have "\<dots> = ?S - fee" using sum F(1) by linarith
      finally have s: "sum_list (outs[?i := outs ! ?i - ?r]) = ?S - fee" .
      have "outs[?i := outs ! ?i - ?r] ! j \<le> amounts ! j" if "j < length amounts" for j
        using le [OF that] that by (cases "j = ?i") (auto simp: outs_def)
      moreover have "split_fee amounts ?S fee (?S - fee) = Inr (outs[?i := outs ! ?i - ?r])"
        using split r \<open>?r \<le> outs ! ?i\<close> by simp
      moreover have "length (outs[?i := outs ! ?i - ?r]) = length amounts" by (simp add: outs_def)
      ultimately show ?thesis using s by simp
    qed
  qed
qed

theorem fee_split_exact_witness:
  "\<exists>outs. split_fee [50000, 70001] 120001 601 119400 = Inr outs \<and> sum_list outs = 119400"
proof -
  have "split_fee [50000, 70001] 120001 601 119400 = Inr [49750, 69650]"
    by (simp add: split_fee_def fee_share_def checked_sub_def last_max_index_def nth_opt_def)
  then show ?thesis using fee_split_exact [of "[50000, 70001]" 601] by auto
qed



section \<open>Order of commitment\<close>

text \<open>
  C12. The taproot handover gives up the maker's keys only against keys that open every incoming coin,
  after the coins were saved with them; a failed handover leaves the phase as it was.
\<close>

theorem taproot_handover_exchanges_keys:
  assumes run: "process_taproot_handover B (traced M) h ((m, []), c) = (r, ((m', evs), c'))"
  defines "coins \<equiv> map2 store_handover_key (ph_privkeys h) (cs_incoming c)"
  shows "case r of
      Inl e \<Rightarrow> cs_phase c' = cs_phase c \<and> prefix evs (map EvSaveIncoming coins)
    | Inr reply \<Rightarrow> cs_phase c = AwaitingPrivateKeyHandover
        \<and> length (ph_privkeys h) = length (cs_incoming c)
        \<and> (\<forall>i<length (cs_incoming c). inc_other_pubkey (cs_incoming c ! i)
             = Some (compressed_key (b_pubkey_of B (sp_key (ph_privkeys h ! i)))))
        \<and> c' = c\<lparr>cs_incoming := coins, cs_phase := Completed\<rparr>
        \<and> evs = map EvSaveIncoming coins
        \<and> (\<exists>ks. reply = Some (MtTaprootPrivateKeyHandover \<lparr>ph_id = ph_id h, ph_privkeys = ks\<rparr>)
             \<and> map (Some \<circ> sp_key) ks = map og_my_privkey (cs_outgoing c) \<and> ks \<noteq> [])"
  unfolding coins_def by (rule taproot_handover.exchanges_keys [OF run])

theorem taproot_handover_exchanges_keys_witness:
  "snd (snd (process_taproot_handover sample_lib (traced idle_maker) sample_handover (((), []), sample_funded)))
     = sample_funded\<lparr>cs_incoming := [sample_in_coin\<lparr>inc_other_privkey := Some [7]\<rparr>], cs_phase := Completed\<rparr>"
proof -
  let ?out = "process_taproot_handover sample_lib (traced idle_maker) sample_handover (((), []), sample_funded)"
  obtain r m evs c where out: "?out = (r, ((m, evs), c))" by (metis surj_pair)
  have "tap_handover_check sample_lib sample_handover sample_funded = Inr [\<lparr>sp_identifier = [], sp_key = [9]\<rparr>]"
    unfolding taproot_handover.check_iff
    by (simp add: sample_funded_def sample_handover_def conn_default_def sample_in_coin_def sample_out_coin_def
        inc_new_legacy_def og_new_legacy_def Let_def)
  then have "is_ok (fst ?out)"
    by (simp add: process_taproot_handover_at sample_handover_def sample_funded_def conn_default_def traced_def
        idle_maker_def act_bind_def act_ret_def on_m_def log_ok_def set_c_def is_ok_def)
  then obtain reply where "r = Inr reply" using out by (cases r) (auto simp: is_ok_def)
  then show ?thesis
    using taproot_handover_exchanges_keys [OF out] out
    by (simp add: sample_handover_def sample_funded_def conn_default_def store_handover_key_def)
qed

lemma traced_lifts:
  "mk_get_tweakable_keypair (traced M) = lift_op (mk_get_tweakable_keypair M)"
  "mk_get_current_height (traced M) = lift_op (mk_get_current_height M)"
  "mk_collect_excluded_utxos (traced M) i = lift_op (mk_collect_excluded_utxos M i)"
  "mk_create_funding_transaction (traced M) a s x = lift_op (mk_create_funding_transaction M a s x)"
  by (simp_all add: traced_def)

lemma emits_get_c: "emits [] (get_c f)"
  by (simp add: emits_def get_c_def)

lemma emits_sweep_margin: "emits [] (check_sweep_margin (traced M) t)"
  unfolding check_sweep_margin_def traced_lifts by (intro emits_Nil_bind emits_rules)

lemma emits_case_prod: "(\<And>a b. emits X (f a b)) \<Longrightarrow> emits X (case p of (a, b) \<Rightarrow> f a b)"
  by (cases p) simp

lemma emits_tap_check: "emits [] (tap_check B (traced M) d)"
  unfolding tap_check_def traced_lifts
  by (intro emits_Nil_bind emits_rules emits_get_c emits_sweep_margin emits_case_prod)

definition confirmed_events :: "btc \<Rightarrow> nat \<Rightarrow> transaction list \<Rightarrow> event list" where
  "confirmed_events B n txs = map (\<lambda>tx. EvConfirmed (b_txid B tx) n) txs"

lemma emits_confirm_incoming:
  "emits (confirmed_events B n txs) (act_mapM (tap_confirm_incoming B (traced M) d k hk t n) (enumerate j txs))"
proof -
  have "emits [EvConfirmed (b_txid B (snd x)) n] (tap_confirm_incoming B (traced M) d k hk t n x)" for x
    unfolding tap_confirm_incoming_def split_def
    by (intro emits_bind_Nil emits_Nil_bind emits_confirmed emits_sweep_margin emits_lift)
  then have "emits (concat (map (\<lambda>x. [EvConfirmed (b_txid B (snd x)) n]) (enumerate j txs)))
      (act_mapM (tap_confirm_incoming B (traced M) d k hk t n) (enumerate j txs))"
    by (rule emits_mapM)
  moreover have "map (\<lambda>x. EvConfirmed (b_txid B (snd x)) n) (enumerate j txs) = confirmed_events B n txs"
  proof -
    have "map (\<lambda>x. EvConfirmed (b_txid B (snd x)) n) (enumerate j txs)
        = map (\<lambda>tx. EvConfirmed (b_txid B tx) n) (map snd (enumerate j txs))" by (simp only: map_map comp_def)
    also have "\<dots> = confirmed_events B n txs" by (simp only: confirmed_events_def map_snd_enumerate)
    finally show ?thesis .
  qed
  ultimately show ?thesis by (simp add: concat_map_single)
qed

lemma emits_fund_contract: "emits [] (tap_fund_contract B (traced M) rng d hs t k ex acc x)"
  unfolding tap_fund_contract_def traced_lifts split_def Let_def
  by (intro emits_Nil_bind emits_rules)

text \<open>\<open>tap_prepare\<close> logs only confirmations and changes nothing of the connection but the service fee.\<close>

lemma tap_prepare_log:
  assumes "tap_prepare B (traced M) rng d ((m, []), c) = (r, ((m', evs), c'))"
  obtains m1 n where "n = mc_required_confirms (mk_get_config M m1)"
    "prefix evs (confirmed_events B n (tcd_contract_txs d))"
    "is_ok r \<longrightarrow> evs = confirmed_events B n (tcd_contract_txs d)"
    "c' = c \<or> (\<exists>f. c' = c\<lparr>cs_service_fee_sats := f\<rparr>)"
proof -
  have some_n: "\<exists>n m1. n = mc_required_confirms (mk_get_config M m1)" by blast
  from emits_tap_check [of B M d] show thesis
  proof (cases rule: emitsE [where m = m and l = "[]" and c = c])
    case (err e m1 p)
    with assms have "evs = []" "c' = c" "\<not> is_ok r"
      by (auto simp: tap_prepare_def act_bind_def is_ok_def)
    with some_n show thesis by (auto intro!: that)
  next
    case (ok x m1)
    obtain k pk hk tot where x: "x = (k, pk, hk, tot)" by (cases x) auto
    define n where "n = mc_required_confirms (mk_get_config M m1)"
    let ?conf = "act_mapM (tap_confirm_incoming B (traced M) d k hk (cs_timelock c) n) (enumerate 0 (tcd_contract_txs d))"
    from emits_confirm_incoming [of B n "tcd_contract_txs d" M d k hk "cs_timelock c" 0] show thesis
    proof (cases rule: emitsE [where m = m1 and l = "[]" and c = c])
      case (err e m2 p)
      with assms ok x have "evs = p" "c' = c" "\<not> is_ok r"
        by (auto simp: tap_prepare_def act_bind_def is_ok_def get_c_def get_m_def n_def traced_def)
      with err n_def show thesis by (auto intro!: that)
    next
      case ok2: (ok coins m2)
      define fee where "fee = mk_calculate_swap_fee M tot (cs_refund_locktime_offset c) m2"
      let ?c = "c\<lparr>cs_service_fee_sats := fee\<rparr>"
      define rest where "rest = act_bind (act_lift (tap_outgoing_amounts B (tcd_amounts d) (length (tcd_contract_txs d)) tot fee))
       (\<lambda>outgoing_amounts.
     act_bind (act_lift (tap_next_hashlock B d)) (\<lambda>hashlock_script.
     act_bind (on_m (mk_collect_excluded_utxos (traced M) (tcd_id d))) (\<lambda>base_excluded.
     act_bind (act_foldM (tap_fund_contract B (traced M) rng d hashlock_script (cs_timelock c) k base_excluded)
       ([], []) (enumerate 0 outgoing_amounts)) (\<lambda>(_, built).
     act_ret (pk, hashlock_script, coins, built)))))"
      have "emits [] rest" unfolding rest_def traced_lifts split_def
        by (intro emits_Nil_bind emits_rules emits_foldM emits_fund_contract)
      moreover have "tap_prepare B (traced M) rng d ((m, []), c) = rest ((m2, confirmed_events B n (tcd_contract_txs d)), ?c)"
        using ok ok2 x by (simp add: tap_prepare_def act_bind_def get_c_def get_m_def set_c_def n_def fee_def rest_def traced_def)
      ultimately have "evs = confirmed_events B n (tcd_contract_txs d)" "c' = ?c"
        using assms by (auto elim!: emitsE [where m = m2 and l = "confirmed_events B n (tcd_contract_txs d)" and c = ?c])
      with n_def show thesis by (auto intro!: that)
    qed
  qed
qed

definition tap_commit_events :: "incoming_swapcoin list \<Rightarrow> tap_outgoing list \<Rightarrow> event list" where
  "tap_commit_events incoming built =
     map (\<lambda>t. EvWatch (tp_outpoint t)
       (case nth_opt (tx_output (og_contract_tx (tp_coin t))) (op_vout (tp_outpoint t)) of Some out \<Rightarrow> to_spk out | None \<Rightarrow> [])) built
     @ map EvSaveIncoming incoming @ map (EvSaveOutgoing \<circ> tp_coin) built
     @ map (EvBroadcast \<circ> og_contract_tx \<circ> tp_coin) built"

lemma emits_tap_commit: "emits (tap_commit_events incoming built) (tap_commit B (traced M) incoming built)"
proof -
  have watch: "emits [EvWatch (tp_outpoint t)
       (case nth_opt (tx_output (og_contract_tx (tp_coin t))) (op_vout (tp_outpoint t)) of Some out \<Rightarrow> to_spk out | None \<Rightarrow> [])]
     (act_bind (act_lift (ok_or (nth_opt (tx_output (og_contract_tx (tp_coin t))) (op_vout (tp_outpoint t))) MPanic)) (\<lambda>out.
       on_m (mk_register_watch_outpoint (traced M) (tp_outpoint t) (to_spk out))))" for t
  proof (cases "nth_opt (tx_output (og_contract_tx (tp_coin t))) (op_vout (tp_outpoint t))")
    case None
    then show ?thesis by (simp add: emits_def act_bind_def act_lift_def is_ok_def)
  next
    case (Some out)
    then show ?thesis using emits_watch [of "tp_outpoint t" "to_spk out" M] by (simp add: emits_def act_bind_def act_lift_def)
  qed
  show ?thesis
    unfolding tap_commit_def tap_commit_events_def comp_def
    by (intro emits_bind emits_Nil_bind [OF emits_watchtower] emits_iter_single watch emits_save_incoming emits_save_outgoing emits_broadcast)
qed

text \<open>
  C2. The maker funds the next taproot hop only when its own side is safe. Whatever the trait's
  calls return, the committing calls of \<open>process_taproot_contract\<close> come in this order: every
  incoming contract transaction is seen with the configured number of confirmations, a watch is armed
  on every outgoing contract output, every incoming and every outgoing coin is saved, the outgoing contract
  transactions are broadcast, the connection state is stored. A failed call stops the sequence; the
  handler replies, in phase \<open>AwaitingPrivateKeyHandover\<close>, only when all were made.
\<close>

theorem taproot_commit_order:
  assumes run: "process_taproot_contract B (traced M) rng d ((m, []), c) = (r, ((m', evs), c'))"
  shows "\<exists>n m1. n = mc_required_confirms (mk_get_config M m1) \<and>
      ((\<not> is_ok r \<and> prefix evs (confirmed_events B n (tcd_contract_txs d)))
     \<or> (\<exists>built. cs_outgoing c' = map tp_coin built
          \<and> prefix evs (confirmed_events B n (tcd_contract_txs d) @ tap_commit_events (cs_incoming c') built
              @ [EvStore (tcd_id d) c' False])
          \<and> (is_ok r \<longrightarrow> cs_phase c' = AwaitingPrivateKeyHandover \<and> cs_funding_broadcast c'
              \<and> evs = confirmed_events B n (tcd_contract_txs d) @ tap_commit_events (cs_incoming c') built
                @ [EvStore (tcd_id d) c' False])))"
proof -
  obtain r0 m0 evs0 c0 where prep: "tap_prepare B (traced M) rng d ((m, []), c) = (r0, ((m0, evs0), c0))"
    by (metis surj_pair)
  from prep obtain m1 n where n: "n = mc_required_confirms (mk_get_config M m1)"
    and pre: "prefix evs0 (confirmed_events B n (tcd_contract_txs d))"
    and all: "is_ok r0 \<longrightarrow> evs0 = confirmed_events B n (tcd_contract_txs d)" by (elim tap_prepare_log) blast
  show ?thesis
  proof (cases r0)
    case (Inl e)
    with prep run have "evs = evs0" "\<not> is_ok r" by (auto simp: process_taproot_contract_def act_bind_def is_ok_def)
    with n pre show ?thesis by blast
  next
    case (Inr x)
    obtain pk hs ins built where x: "x = (pk, hs, ins, built)" by (cases x) auto
    let ?conf = "confirmed_events B n (tcd_contract_txs d)"
    let ?c1 = "c0\<lparr>cs_reserve_utxo := map tp_outpoint built, cs_incoming := ins, cs_outgoing := map tp_coin built\<rparr>"
    let ?c2 = "?c1\<lparr>cs_funding_broadcast := True, cs_phase := AwaitingPrivateKeyHandover\<rparr>"
    from all Inr have evs0: "evs0 = ?conf" by (simp add: is_ok_def)
    note unf = process_taproot_contract_def act_bind_def set_c_def get_c_def act_ret_def is_ok_def
    have "cs_outgoing c' = map tp_coin built \<and> cs_incoming c' = ins
        \<and> prefix evs (?conf @ tap_commit_events ins built @ [EvStore (tcd_id d) c' False])
        \<and> (is_ok r \<longrightarrow> cs_phase c' = AwaitingPrivateKeyHandover \<and> cs_funding_broadcast c'
            \<and> evs = ?conf @ tap_commit_events ins built @ [EvStore (tcd_id d) c' False])"
      using emits_tap_commit [of ins built B M]
    proof (cases rule: emitsE [where m = m0 and l = ?conf and c = ?c1])
      case (err e m2 p)
      with run prep Inr x evs0 show ?thesis by (auto simp: unf prefix_append)
    next
      case (ok u m2)
      from emits_store [of "tcd_id d" ?c2 False M] show ?thesis
      proof (cases rule: emitsE [where m = m2 and l = "?conf @ tap_commit_events ins built" and c = ?c2])
        case ok2: (ok u' m3)
        with run prep Inr x evs0 ok show ?thesis by (auto simp: unf)
      next
        case (err e m3 p)
        with run prep Inr x evs0 ok show ?thesis by (auto simp: unf prefix_Cons)
      qed
    qed
    with n show ?thesis by blast
  qed
qed

definition sample_maker :: "unit maker_ops" where
  "sample_maker = idle_maker\<lparr>mk_get_tweakable_keypair := act_ret (replicate 32 5, sample_maker_key, []),
     mk_create_funding_transaction := (\<lambda>_ _ _. act_ret (sample_tx, 0))\<rparr>"

definition sample_taproot_conn :: conn where
  "sample_taproot_conn = (conn_default 0)\<lparr>cs_protocol := Taproot, cs_phase := AwaitingContractData, cs_swap_id := Some ''s'',
     cs_tx_count := 1, cs_swap_amount := 100000, cs_timelock := 100\<rparr>"

definition sample_rng :: "nat \<Rightarrow> seckey \<times> seckey" where
  "sample_rng i = (replicate 32 9, replicate 32 4)"

lemma sample_hashlock_pubkey:
  "check_taproot_hashlock_has_pubkey sample_lib sample_hs sample_maker_key (replicate 32 3) = Inr ()"
proof -
  have c: "calculate_pubkey_from_nonce sample_lib sample_maker_key (replicate 32 3) = Inr (compressed_key (2 # replicate 32 6))"
    by (simp add: calculate_pubkey_from_nonce_def sample_maker_key_def xor_bytes_def numeral_eq_Suc)
  have "b_xonly_from_slice sample_lib (replicate 32 6) = Some (replicate 32 6)" "b_xonly sample_lib (2 # replicate 32 6) = replicate 32 6"
    by (simp_all add: sample_lib_def)
  then show ?thesis
    using taproot_hashlock_instructions [OF sample_script.script_lib_axioms, of "replicate 32 1" "replicate 32 6"]
    by (simp add: check_taproot_hashlock_has_pubkey_def c sample_hs_def nth_opt_def Let_def)
qed

lemma sample_tap_check:
  "tap_check sample_lib (traced sample_maker) sample_tcd (((), l), sample_taproot_conn)
     = (Inr (replicate 32 5, sample_maker_key, xor_bytes (replicate 32 5) (replicate 32 3), 100000), (((), l), sample_taproot_conn))"
proof -
  have d: "tcd_id sample_tcd = ''s''" "tcd_hashlock_nonce sample_tcd = Some (replicate 32 3)" "tcd_amounts sample_tcd = [100000]"
    "length (tcd_contract_txs sample_tcd) = 1" "tcd_hashlock_script sample_tcd = sample_hs"
    by (simp_all add: sample_tcd_def)
  have c: "cs_timelock sample_taproot_conn = 100" "cs_tx_count sample_taproot_conn = 1" "cs_swap_amount sample_taproot_conn = 100000"
    "expect_phase [AwaitingContractData] sample_taproot_conn = Inr ()" "check_swap_id ''s'' sample_taproot_conn = Inr ()"
    by (simp_all add: sample_taproot_conn_def conn_default_def expect_phase_def check_swap_id_def)
  have m: "mk_get_tweakable_keypair (traced sample_maker) = act_ret (replicate 32 5, sample_maker_key, [])"
    "check_sweep_margin (traced sample_maker) 100 = act_ret ()"
    by (auto simp: traced_def sample_maker_def idle_maker_def check_sweep_margin_def lift_op_def act_ret_def on_m_def act_bind_def
        act_ensure_def act_lift_def saturating_add_def REFUND_LOCKTIME_STEP_def MIN_CONTRACT_REACTION_TIME_def fun_eq_iff)
  show ?thesis
    by (simp add: tap_check_def d c m sample_tcd_verified sample_hashlock_pubkey on_m_def act_bind_def on_c_def get_c_def act_lift_def
        act_ensure_def act_ret_def tap_total_incoming_def checked_add_def incoming_within_swap_amount_def map_err_def)
qed

lemma sample_outgoing_amounts: "tap_outgoing_amounts sample_lib [100000] 1 100000 0 = Inr [99450]"
  by (simp add: tap_outgoing_amounts_def estimate_funding_tx_fee_sats_def calculate_fee_sats_def get_min_fee_rate_def MIN_FEE_RATE_def
      checked_add_def checked_sub_def wrapping_mul_def split_fee_def fee_share_def last_max_index_def nth_opt_def)

lemma sample_next_hashlock: "\<exists>hs. tap_next_hashlock sample_lib sample_tcd = Inr hs"
  using taproot_hashlock_instructions [OF sample_script.script_lib_axioms, of "replicate 32 1" "replicate 32 6"]
  by (simp add: tap_next_hashlock_def sample_tcd_def sample_hs_def extract_hash_from_hashlock_def nth_opt_def map_err_def Let_def)

lemma sample_outgoing_keys:
  "\<exists>x. tap_outgoing_keys sample_lib sample_tcd hs 100 (replicate 32 5) (sample_rng i) = Inr x"
proof -
  have agg: "\<exists>k. aggregate_ordered sample_lib (compressed_key (2 # a)) (compressed_key (2 # b)) = Inr k"
    if "length a = 32" "length b = 32" for a b
  proof -
    have "length (get_aggregated_pubkey sample_lib (2 # a) (2 # b)) = 32" "length (get_aggregated_pubkey sample_lib (2 # b) (2 # a)) = 32"
      using that by (simp_all add: get_aggregated_pubkey_def sample_lib_def xor_bytes_def)
    then show ?thesis using that
      by (auto simp: aggregate_ordered_def ordered_pair_def get_aggregated_pubkey_compat_def sample_from_slice_def)
        (simp_all add: sample_lib_def)
  qed
  have "length (xor_bytes (replicate 32 5) (replicate 32 9)) = 32" by (simp add: xor_bytes_def)
  from agg [OF this, of "replicate 32 8"] show ?thesis
    by (auto simp: tap_outgoing_keys_def sample_rng_def LOCK_TIME_THRESHOLD_def sample_tcd_def Let_def map_err_def)
      (simp_all add: sample_lib_def)
qed

lemma sample_prepare:
  "\<exists>x evs c. tap_prepare sample_lib (traced sample_maker) sample_rng sample_tcd (((), []), sample_taproot_conn) = (Inr x, (((), evs), c))
     \<and> length (snd (snd (snd x))) = 1 \<and> (\<forall>t\<in>set (snd (snd (snd x))). og_contract_tx (tp_coin t) = sample_tx \<and> op_vout (tp_outpoint t) = 0)"
proof -
  obtain hs where hs: "tap_next_hashlock sample_lib sample_tcd = Inr hs" using sample_next_hashlock by blast
  obtain k ts ik spk tw where keys: "tap_outgoing_keys sample_lib sample_tcd hs 100 (replicate 32 5) (sample_rng 0) = Inr (k, ts, ik, spk, tw)"
    using sample_outgoing_keys [of hs 0] by (metis surj_pair)
  have coin: "\<exists>coin. tap_incoming_coin sample_lib sample_tcd k hk tx 0 = Inr coin" for k hk tx
    by (simp add: tap_incoming_coin_def nth_opt_def sample_tcd_def tap_tweak_scalar_def scalar_try_from_def map_err_def fit_def)
      (simp add: sample_lib_def)
  obtain tx where d: "tcd_contract_txs sample_tcd = [tx]" "tcd_amounts sample_tcd = [100000]" by (simp add: sample_tcd_def)
  have m: "check_sweep_margin (traced sample_maker) 100 = act_ret ()"
    by (auto simp: traced_def sample_maker_def idle_maker_def check_sweep_margin_def lift_op_def act_ret_def on_m_def act_bind_def
        act_ensure_def act_lift_def saturating_add_def REFUND_LOCKTIME_STEP_def MIN_CONTRACT_REACTION_TIME_def fun_eq_iff)
  have c: "cs_timelock sample_taproot_conn = 100" by (simp add: sample_taproot_conn_def)
  have ops: "mk_wait_for_tx_on_chain (traced sample_maker) t n ((), l) = (Inr (), ((), l @ [EvConfirmed t n]))"
    "mk_collect_excluded_utxos (traced sample_maker) i ((), l) = (Inr [], ((), l))"
    "mk_create_funding_transaction (traced sample_maker) a sc ex ((), l) = (Inr (sample_tx, 0), ((), l))"
    "mk_calculate_swap_fee (traced sample_maker) a n ((), l) = 0" for t n l i a sc ex
    by (simp_all add: traced_def sample_maker_def idle_maker_def log_ok_def lift_op_def act_ret_def)
  from coin [of "replicate 32 5" "xor_bytes (replicate 32 5) (replicate 32 3)" tx] obtain ic where
    ic: "tap_incoming_coin sample_lib sample_tcd (replicate 32 5) (xor_bytes (replicate 32 5) (replicate 32 3)) tx 0 = Inr ic" by blast
  have "og_contract_tx (og_set_taproot_params a b e f g (og_new_taproot h i j sample_tx l\<lparr>og_swap_id := sid\<rparr>)) = sample_tx" for a b e f g h i j l sid
    by (simp add: og_set_taproot_params_def og_new_taproot_def)
  moreover have "nth_opt (tx_output sample_tx) 0 = Some \<lparr>to_value = 5, to_spk = []\<rparr>" by (simp add: sample_tx_def nth_opt_def)
  ultimately show ?thesis
    by (simp add: tap_prepare_def act_bind_def sample_tap_check get_c_def get_m_def set_c_def c d tap_confirm_incoming_def on_m_def ops m
        act_lift_def act_ret_def ic sample_outgoing_amounts [unfolded One_nat_def] hs tap_fund_contract_def keys Let_def)
qed

lemma sample_commit:
  assumes built: "\<forall>t\<in>set built. og_contract_tx (tp_coin t) = sample_tx \<and> op_vout (tp_outpoint t) = 0" and t: "built = [t]"
  shows "\<exists>l' st'. tap_commit sample_lib (traced sample_maker) ins built (((), l), st) = (Inr (), (((), l'), st'))"
proof -
  have ops: "mk_register_watch_outpoint (traced sample_maker) op s ((), l) = (Inr (), ((), l @ [EvWatch op s]))"
    "mk_save_incoming_swapcoin (traced sample_maker) ci ((), l) = (Inr (), ((), l @ [EvSaveIncoming ci]))"
    "mk_save_outgoing_swapcoin (traced sample_maker) co ((), l) = (Inr (), ((), l @ [EvSaveOutgoing co]))"
    "mk_broadcast_transaction (traced sample_maker) tx ((), l) = (Inr [], ((), l @ [EvBroadcast tx]))"
    "mk_is_watchtower_alive (traced sample_maker) ((), l)" for op s l ci co tx
    by (simp_all add: traced_def sample_maker_def idle_maker_def log_ok_def log_call_def act_ret_def)
  have saves: "act_iter (\<lambda>c. on_m (mk_save_incoming_swapcoin (traced sample_maker) c)) ins (((), l), st)
      = (Inr (), (((), l @ map EvSaveIncoming ins), st))" for l st
    by (induction ins arbitrary: l) (simp_all add: act_ret_def act_bind_def on_m_def ops)
  have alive: "ensure_watchtower_alive (traced sample_maker) (((), l), st) = (Inr (), (((), l), st))" for l st
    by (simp add: ensure_watchtower_alive_def act_bind_def get_m_def ops act_ensure_def act_lift_def)
  from assms show ?thesis
    by (simp add: tap_commit_def act_bind_def act_lift_def nth_opt_def sample_tx_def on_m_def ops act_ret_def
          alive saves [unfolded on_m_def] broadcast_funding_tx_def act_try_def)
qed

theorem taproot_commit_order_witness:
  "\<exists>r evs c built n. process_taproot_contract sample_lib (traced sample_maker) sample_rng sample_tcd (((), []), sample_taproot_conn)
       = (r, (((), evs), c)) \<and> is_ok r \<and> cs_phase c = AwaitingPrivateKeyHandover
     \<and> evs = confirmed_events sample_lib n (tcd_contract_txs sample_tcd) @ tap_commit_events (cs_incoming c) built
         @ [EvStore (tcd_id sample_tcd) c False]"
proof -
  let ?out = "process_taproot_contract sample_lib (traced sample_maker) sample_rng sample_tcd (((), []), sample_taproot_conn)"
  obtain pk hs ins built evs c where
    prep: "tap_prepare sample_lib (traced sample_maker) sample_rng sample_tcd (((), []), sample_taproot_conn)
      = (Inr (pk, hs, ins, built), (((), evs), c))"
    and len: "length built = 1" and built: "\<forall>t\<in>set built. og_contract_tx (tp_coin t) = sample_tx \<and> op_vout (tp_outpoint t) = 0"
    using sample_prepare by (metis snd_conv surj_pair)
  from len obtain t where t: "built = [t]" by (auto simp: length_Suc_conv)
  have store: "mk_store_connection_state (traced sample_maker) i st b ((), l) = (Inr (), ((), l @ [EvStore i st b]))" for i st b l
    by (simp add: traced_def sample_maker_def idle_maker_def log_ok_def log_call_def act_ret_def)
  obtain r m evs' c' where out: "?out = (r, ((m, evs'), c'))" by (metis surj_pair)
  obtain l' st' where "tap_commit sample_lib (traced sample_maker) ins built
      (((), evs), c\<lparr>cs_reserve_utxo := map tp_outpoint built, cs_incoming := ins, cs_outgoing := map tp_coin built\<rparr>)
    = (Inr (), (((), l'), st'))" using sample_commit [OF built t] by blast
  with out prep have "is_ok r"
    by (auto simp: process_taproot_contract_def act_bind_def set_c_def get_c_def on_m_def store act_ret_def is_ok_def)
  with taproot_commit_order [OF out] out show ?thesis by auto
qed

end
