(* ===== verification/MakerHandlers.thy ===== *)
theory MakerHandlers
  imports MakerTaproot
begin

text \<open>
  The maker's message dispatch of \<open>maker/handlers.rs\<close>: the handshake (hello, offer, swap
  details), the restoration of a stored swap on a new connection, and \<open>handle_message\<close>, which
  hands the contract messages to the legacy and taproot handlers. \<open>clk i\<close> is the \<open>i\<close>-th
  reading of the clock while one message is handled. The lemmas show that a connection only moves along
  the phases of the protocol and that a refused swap leaves no phase in which it could be funded.
\<close>

section \<open>Handshake\<close>

definition handle_taker_hello :: "'m maker_ops \<Rightarrow> ('m, maker_to_taker_message option) hact" where
  "handle_taker_hello M =
     act_seq (on_c (expect_phase [AwaitingHello])) (
     act_bind (get_m (mk_get_config M)) (\<lambda>config.
     act_seq (set_c (\<lambda>c. c\<lparr>cs_phase := AwaitingOfferRequest\<rparr>)) (
     act_ret (Some (MtMakerHello \<lparr>mh_supported_protocols = mc_supported_protocols config\<rparr>)))))"

definition handle_get_offer :: "'m maker_ops \<Rightarrow> ('m, maker_to_taker_message option) hact" where
  "handle_get_offer M =
     act_seq (on_c (expect_phase [AwaitingOfferRequest])) (
     act_bind (on_m (mk_get_tweakable_keypair M)) (\<lambda>(_, tweakable_point, tweak_chain_code).
     act_bind (on_m (mk_get_fidelity_proof M)) (\<lambda>fidelity.
     act_bind (get_m (mk_get_config M)) (\<lambda>config.
     act_seq (set_c (\<lambda>c. c\<lparr>cs_phase := AwaitingSwapDetails\<rparr>)) (
     act_ret (Some (MtOffer
       \<lparr>of_base_fee = mc_base_fee config, of_amount_relative_fee_pct = mc_amount_relative_fee_pct config,
        of_time_relative_fee_pct = mc_time_relative_fee_pct config, of_required_confirms = mc_required_confirms config,
        of_minimum_locktime = MIN_CONTRACT_REACTION_TIME, of_max_size = mc_max_swap_amount config,
        of_min_size = mc_min_swap_amount config, of_tweakable_point = tweakable_point, of_fidelity = fidelity,
        of_tweak_chain_code = tweak_chain_code\<rparr>)))))))"

text \<open>The errors of \<open>store_connection_state\<close> that are answered with a rejection.\<close>

definition admission_rejection :: "maker_error \<Rightarrow> bool" where
  "admission_rejection e = (case e of
     MTooManySwaps \<Rightarrow> True | MSwapParamMismatch \<Rightarrow> True | MInsufficientLiquidity _ _ _ \<Rightarrow> True | _ \<Rightarrow> False)"

definition accept_details :: "'m maker_ops \<Rightarrow> nat \<Rightarrow> swap_details \<Rightarrow> nat \<Rightarrow> ('m, unit) hact" where
  "accept_details M start details refund_locktime_offset =
     act_seq (set_c (\<lambda>c. c\<lparr>cs_swap_id := Some (sd_id details), cs_swap_amount := sd_amount details,
       cs_tx_count := sd_tx_count details, cs_timelock := sd_timelock details,
       cs_refund_locktime_offset := refund_locktime_offset, cs_protocol := sd_protocol_version details,
       cs_swap_start_time := start\<rparr>)) (
     act_bind (get_m (mk_calculate_swap_fee M (sd_amount details) refund_locktime_offset)) (\<lambda>swap_fee.
     set_c (\<lambda>c. c\<lparr>cs_service_fee_sats := swap_fee, cs_phase := AwaitingContractData\<rparr>)))"

definition reset_rejected :: "conn \<Rightarrow> conn" where
  "reset_rejected c = c\<lparr>cs_phase := AwaitingSwapDetails, cs_swap_id := None, cs_swap_amount := 0, cs_tx_count := 0,
     cs_timelock := 0, cs_refund_locktime_offset := 0, cs_service_fee_sats := 0\<rparr>"

definition handle_swap_details :: "'m maker_ops \<Rightarrow> nat \<Rightarrow> swap_details \<Rightarrow> ('m, maker_to_taker_message option) hact" where
  "handle_swap_details M start details =
     act_seq (on_c (expect_phase [AwaitingSwapDetails])) (
     act_bind (get_m (mk_is_watchtower_alive M)) (\<lambda>alive.
     if \<not> alive then act_ret (Some (MtAckSwapDetails ack_reject))
     else
       act_bind (on_m (mk_validate_swap_parameters M details)) (\<lambda>refund_locktime_offset.
       act_seq (accept_details M start details refund_locktime_offset) (
       act_bind (get_c id) (\<lambda>state.
       act_try (on_m (mk_store_connection_state M (sd_id details) state True)) (\<lambda>stored. case stored of
         Inl e \<Rightarrow>
           if admission_rejection e then
             act_seq (set_c reset_rejected) (act_ret (Some (MtAckSwapDetails ack_reject)))
           else act_fail e
       | Inr _ \<Rightarrow>
           act_bind (on_m (mk_get_tweakable_keypair M)) (\<lambda>(_, tweakable_point, _).
           act_ret (Some (MtAckSwapDetails (ack_accept tweakable_point))))))))))"

section \<open>Dispatch\<close>

text \<open>Everything but \<open>reserve_utxo\<close> and \<open>last_activity\<close> is taken from the stored state.\<close>

definition restore_conn :: "swap_id \<Rightarrow> conn \<Rightarrow> conn \<Rightarrow> conn" where
  "restore_conn swap_id stored c = c\<lparr>cs_swap_id := Some swap_id, cs_swap_amount := cs_swap_amount stored,
     cs_tx_count := cs_tx_count stored, cs_timelock := cs_timelock stored, cs_protocol := cs_protocol stored,
     cs_phase := cs_phase stored, cs_incoming := cs_incoming stored, cs_outgoing := cs_outgoing stored,
     cs_pending_funding_txes := cs_pending_funding_txes stored, cs_funding_broadcast := cs_funding_broadcast stored,
     cs_contract_feerate := cs_contract_feerate stored, cs_service_fee_sats := cs_service_fee_sats stored,
     cs_swap_start_time := cs_swap_start_time stored,
     cs_refund_locktime_offset := cs_refund_locktime_offset stored\<rparr>"

definition restore_state_if_needed :: "'m maker_ops \<Rightarrow> swap_id \<Rightarrow> ('m, unit) hact" where
  "restore_state_if_needed M swap_id =
     act_bind (get_c (\<lambda>c. cs_swap_amount c = 0 \<or> cs_outgoing c = [])) (\<lambda>needed.
     if needed then
       act_bind (on_m (mk_get_connection_state M swap_id)) (\<lambda>stored. case stored of
         Some st \<Rightarrow> set_c (restore_conn swap_id st)
       | None \<Rightarrow> act_ret ())
     else act_ret ())"

definition ensure_negotiated_protocol :: "protocol_version \<Rightarrow> conn \<Rightarrow> maker_error + unit" where
  "ensure_negotiated_protocol message_protocol c =
     (if cs_protocol c \<noteq> message_protocol
      then Inl (MUnexpectedMessage ''negotiated protocol message'' ''other protocol message'')
      else Inr ())"

definition handle_legacy_dispatch ::
    "btc \<Rightarrow> 'm maker_ops \<Rightarrow> legacy_taker_message \<Rightarrow> ('m, maker_to_taker_message option) hact" where
  "handle_legacy_dispatch B M legacy_msg =
     act_seq (restore_state_if_needed M (legacy_swap_id legacy_msg)) (
     act_seq (on_c (ensure_negotiated_protocol Legacy)) (
     handle_legacy_message B M legacy_msg))"

definition handle_taproot_dispatch ::
    "btc \<Rightarrow> 'm maker_ops \<Rightarrow> (nat \<Rightarrow> seckey \<times> seckey) \<Rightarrow> taproot_taker_message \<Rightarrow> ('m, maker_to_taker_message option) hact" where
  "handle_taproot_dispatch B M rng taproot_msg =
     act_seq (restore_state_if_needed M (taproot_swap_id taproot_msg)) (
     act_seq (on_c (ensure_negotiated_protocol Taproot)) (
     handle_taproot_message B M rng taproot_msg))"

definition handle_waiting :: "'m maker_ops \<Rightarrow> nat \<Rightarrow> swap_id \<Rightarrow> ('m, maker_to_taker_message option) hact" where
  "handle_waiting M now swap_id =
     act_seq (on_c (check_swap_id swap_id)) (
     act_bind (on_m (mk_swap_past_refund_deadline M swap_id)) (\<lambda>past.
     if past then act_ret None
     else
       act_bind (on_m (mk_get_connection_state M swap_id)) (\<lambda>stored.
       act_seq (case stored of
           Some stored_state \<Rightarrow> on_m (mk_store_connection_state M swap_id stored_state False)
         | None \<Rightarrow> act_ret ()) (
       act_seq (set_c (touch now)) (
       act_ret None)))))"

definition handle_message ::
    "btc \<Rightarrow> 'm maker_ops \<Rightarrow> (nat \<Rightarrow> seckey \<times> seckey) \<Rightarrow> (nat \<Rightarrow> nat) \<Rightarrow> taker_to_maker_message
     \<Rightarrow> ('m, maker_to_taker_message option) hact" where
  "handle_message B M rng clk message =
     act_seq (set_c (touch (clk 0))) (case message of
       TmTakerHello \<Rightarrow> handle_taker_hello M
     | TmGetOffer \<Rightarrow> handle_get_offer M
     | TmSwapDetails details \<Rightarrow> handle_swap_details M (clk 1) details
     | TmReqContractSigsForSender req \<Rightarrow> handle_legacy_dispatch B M (LReqContractSigsForSender req)
     | TmProofOfFunding pof \<Rightarrow> handle_legacy_dispatch B M (LProofOfFunding pof)
     | TmRespContractSigsForRecvrAndSender resp \<Rightarrow> handle_legacy_dispatch B M (LRespContractSigsForRecvrAndSender resp)
     | TmReqContractSigsForRecvr req \<Rightarrow> handle_legacy_dispatch B M (LReqContractSigsForRecvr req)
     | TmLegacyPrivateKeyHandover handover \<Rightarrow> handle_legacy_dispatch B M (LPrivateKeyHandover handover)
     | TmTaprootContractData d \<Rightarrow> handle_taproot_dispatch B M rng (TContractData d)
     | TmTaprootPrivateKeyHandover handover \<Rightarrow> handle_taproot_dispatch B M rng (TPrivateKeyHandover handover)
     | TmWaitingFundingConfirmation i \<Rightarrow> handle_waiting M (clk 1) i)"

section \<open>The phase machine\<close>

inductive phase_step :: "taker_to_maker_message \<Rightarrow> swap_phase \<Rightarrow> swap_phase \<Rightarrow> bool" where
  hello: "phase_step TmTakerHello AwaitingHello AwaitingOfferRequest"
| get_offer: "phase_step TmGetOffer AwaitingOfferRequest AwaitingSwapDetails"
| accepted: "phase_step (TmSwapDetails d) AwaitingSwapDetails AwaitingContractData"
| rejected: "phase_step (TmSwapDetails d) AwaitingSwapDetails AwaitingSwapDetails"
| sender_sigs: "p \<in> {AwaitingContractData, AwaitingSignaturesOrPreimage} \<Longrightarrow> phase_step (TmReqContractSigsForSender r) p p"
| funding: "p \<in> {AwaitingContractData, AwaitingSignaturesOrPreimage}
    \<Longrightarrow> phase_step (TmProofOfFunding f) p AwaitingSignaturesOrPreimage"
| contract_sigs: "phase_step (TmRespContractSigsForRecvrAndSender r) AwaitingSignaturesOrPreimage AwaitingPrivateKeyHandover"
| recvr_sigs: "phase_step (TmReqContractSigsForRecvr q) AwaitingPrivateKeyHandover AwaitingPrivateKeyHandover"
| legacy_handover: "phase_step (TmLegacyPrivateKeyHandover h) AwaitingPrivateKeyHandover Completed"
| contract_data: "phase_step (TmTaprootContractData t) AwaitingContractData AwaitingPrivateKeyHandover"
| taproot_handover: "phase_step (TmTaprootPrivateKeyHandover h) AwaitingPrivateKeyHandover Completed"
| waiting: "phase_step (TmWaitingFundingConfirmation i) p p"

inductive_cases phase_step_from_details: "phase_step msg AwaitingSwapDetails p"

lemma on_c_ok: "on_c f (m, c) = (r, (m', c')) \<longleftrightarrow> f c = r \<and> m' = m \<and> c' = c"
  by (auto simp: on_c_def)

lemma sender_sigs_phase:
  "process_req_contract_sigs_for_sender M req (m, c) = (Inr r, (m', c')) \<Longrightarrow>
     cs_phase c \<in> {AwaitingContractData, AwaitingSignaturesOrPreimage} \<and> cs_phase c' = cs_phase c"
  by (auto simp: process_req_contract_sigs_for_sender_def act_simps on_c_ok expect_phase_Inr_iff simp del: on_c_iff)

lemma funding_phase:
  "process_proof_of_funding B M pof (m, c) = (Inr r, (m', c')) \<Longrightarrow>
     cs_phase c \<in> {AwaitingContractData, AwaitingSignaturesOrPreimage} \<and> cs_phase c' = AwaitingSignaturesOrPreimage"
  by (auto simp: process_proof_of_funding_def pof_check_def act_simps on_c_ok res_bind_Inr_iff expect_phase_Inr_iff
      simp del: on_c_iff)

lemma contract_sigs_phase:
  "process_resp_contract_sigs_for_recvr_and_sender B M resp (m, c) = (Inr r, (m', c')) \<Longrightarrow>
     cs_phase c = AwaitingSignaturesOrPreimage \<and> cs_phase c' = AwaitingPrivateKeyHandover"
  by (auto simp: process_resp_contract_sigs_for_recvr_and_sender_def resp_sigs_check_def act_simps on_c_ok res_bind_Inr_iff
      expect_phase_Inr_iff simp del: on_c_iff)

lemma sign_receiver_contract_keeps_conn: "act_inv (\<lambda>s. snd s = c) (sign_receiver_contract B M info)"
  unfolding sign_receiver_contract_def
  by (auto intro!: hoare_intros split: list.splits option.splits)

lemma recvr_sigs_phase:
  assumes "process_req_contract_sigs_for_recvr B M req (m, c) = (Inr r, (m', c'))"
  shows "cs_phase c = AwaitingPrivateKeyHandover \<and> cs_phase c' = AwaitingPrivateKeyHandover"
proof -
  from assms obtain sigs where "cs_phase c = AwaitingPrivateKeyHandover"
    and run: "act_mapM (sign_receiver_contract B M) (rcr_txs req) (m, c) = (Inr sigs, (m', c'))"
    by (auto simp: process_req_contract_sigs_for_recvr_def act_simps on_c_ok expect_phase_Inr_iff simp del: on_c_iff)
  moreover have "c' = c"
    using sign_receiver_contract_keeps_conn by (intro keeps_connD [OF act_inv_mapM run]) blast
  ultimately show ?thesis by simp
qed

lemma legacy_handover_phase:
  "process_legacy_handover B M h (m, c) = (Inr r, (m', c')) \<Longrightarrow>
     cs_phase c = AwaitingPrivateKeyHandover \<and> cs_phase c' = Completed"
  by (auto simp: process_legacy_handover_def Let_def act_simps on_c_ok expect_phase_Inr_iff simp del: on_c_iff)

lemma contract_data_phase:
  "process_taproot_contract B M rng d (m, c) = (Inr r, (m', c')) \<Longrightarrow>
     cs_phase c = AwaitingContractData \<and> cs_phase c' = AwaitingPrivateKeyHandover"
  by (auto simp: process_taproot_contract_def tap_prepare_def tap_check_def act_simps on_c_ok expect_phase_Inr_iff simp del: on_c_iff)

lemma taproot_handover_phase:
  "process_taproot_handover B M h (m, c) = (Inr r, (m', c')) \<Longrightarrow>
     cs_phase c = AwaitingPrivateKeyHandover \<and> cs_phase c' = Completed"
  by (auto simp: process_taproot_handover_def Let_def act_simps on_c_ok expect_phase_Inr_iff simp del: on_c_iff)

lemmas contract_phases = sender_sigs_phase funding_phase contract_sigs_phase recvr_sigs_phase legacy_handover_phase
  contract_data_phase taproot_handover_phase

section \<open>Every message moves along the phases\<close>

text \<open>The contract messages with their swap id and protocol; the other messages never restore a stored swap.\<close>

definition contract_message :: "taker_to_maker_message \<Rightarrow> (swap_id \<times> protocol_version) option" where
  "contract_message msg = (case msg of
     TmReqContractSigsForSender r \<Rightarrow> Some (rcs_id r, Legacy)
   | TmProofOfFunding p \<Rightarrow> Some (pof_id p, Legacy)
   | TmRespContractSigsForRecvrAndSender r \<Rightarrow> Some (rsr_id r, Legacy)
   | TmReqContractSigsForRecvr r \<Rightarrow> Some (rcr_id r, Legacy)
   | TmLegacyPrivateKeyHandover h \<Rightarrow> Some (ph_id h, Legacy)
   | TmTaprootContractData d \<Rightarrow> Some (tcd_id d, Taproot)
   | TmTaprootPrivateKeyHandover h \<Rightarrow> Some (ph_id h, Taproot)
   | _ \<Rightarrow> None)"

definition legacy_message :: "legacy_taker_message \<Rightarrow> taker_to_maker_message" where
  "legacy_message l = (case l of
     LReqContractSigsForSender r \<Rightarrow> TmReqContractSigsForSender r
   | LProofOfFunding p \<Rightarrow> TmProofOfFunding p
   | LRespContractSigsForRecvrAndSender r \<Rightarrow> TmRespContractSigsForRecvrAndSender r
   | LReqContractSigsForRecvr r \<Rightarrow> TmReqContractSigsForRecvr r
   | LPrivateKeyHandover h \<Rightarrow> TmLegacyPrivateKeyHandover h)"

definition taproot_message :: "taproot_taker_message \<Rightarrow> taker_to_maker_message" where
  "taproot_message t = (case t of TContractData d \<Rightarrow> TmTaprootContractData d | TPrivateKeyHandover h \<Rightarrow> TmTaprootPrivateKeyHandover h)"

lemma contract_message_cases:
  assumes "contract_message msg = Some (i, p)"
  obtains l where "msg = legacy_message l" "i = legacy_swap_id l" "p = Legacy"
    "handle_message B M rng clk msg = act_seq (set_c (touch (clk 0))) (handle_legacy_dispatch B M l)"
  | t where "msg = taproot_message t" "i = taproot_swap_id t" "p = Taproot"
    "handle_message B M rng clk msg = act_seq (set_c (touch (clk 0))) (handle_taproot_dispatch B M rng t)"
proof (cases msg)
  case (TmReqContractSigsForSender r)
  with assms show ?thesis by (intro that(1) [of "LReqContractSigsForSender r"])
    (simp_all add: contract_message_def legacy_message_def legacy_swap_id_def handle_message_def)
next
  case (TmProofOfFunding r)
  with assms show ?thesis by (intro that(1) [of "LProofOfFunding r"])
    (simp_all add: contract_message_def legacy_message_def legacy_swap_id_def handle_message_def)
next
  case (TmRespContractSigsForRecvrAndSender r)
  with assms show ?thesis by (intro that(1) [of "LRespContractSigsForRecvrAndSender r"])
    (simp_all add: contract_message_def legacy_message_def legacy_swap_id_def handle_message_def)
next
  case (TmReqContractSigsForRecvr r)
  with assms show ?thesis by (intro that(1) [of "LReqContractSigsForRecvr r"])
    (simp_all add: contract_message_def legacy_message_def legacy_swap_id_def handle_message_def)
next
  case (TmLegacyPrivateKeyHandover r)
  with assms show ?thesis by (intro that(1) [of "LPrivateKeyHandover r"])
    (simp_all add: contract_message_def legacy_message_def legacy_swap_id_def handle_message_def)
next
  case (TmTaprootContractData r)
  with assms show ?thesis by (intro that(2) [of "TContractData r"])
    (simp_all add: contract_message_def taproot_message_def taproot_swap_id_def handle_message_def)
next
  case (TmTaprootPrivateKeyHandover r)
  with assms show ?thesis by (intro that(2) [of "TPrivateKeyHandover r"])
    (simp_all add: contract_message_def taproot_message_def taproot_swap_id_def handle_message_def)
qed (use assms in \<open>simp_all add: contract_message_def\<close>)

lemma legacy_message_phase:
  "handle_legacy_message B M l (m, c) = (Inr r, (m', c')) \<Longrightarrow> phase_step (legacy_message l) (cs_phase c) (cs_phase c')"
  by (cases l) (auto simp: handle_legacy_message_def legacy_message_def dest!: contract_phases intro: phase_step.intros)

lemma taproot_message_phase:
  "handle_taproot_message B M rng t (m, c) = (Inr r, (m', c')) \<Longrightarrow> phase_step (taproot_message t) (cs_phase c) (cs_phase c')"
  by (cases t) (auto simp: handle_taproot_message_def taproot_message_def dest!: contract_phases intro: phase_step.intros)

lemma restore_cases:
  assumes "restore_state_if_needed M i (m, c) = (Inr u, (m', c'))"
  obtains "c' = c" "m' = m"
  | m1 where "mk_get_connection_state M i m = (Inr None, m1)" "c' = c" "m' = m1"
  | st m1 where "mk_get_connection_state M i m = (Inr (Some st), m1)" "c' = restore_conn i st c" "m' = m1"
proof (cases "cs_swap_amount c = 0 \<or> cs_outgoing c = []")
  case True
  with assms obtain stored m1 where get: "mk_get_connection_state M i m = (Inr stored, m1)"
    and cont: "(case stored of Some st \<Rightarrow> set_c (restore_conn i st) | None \<Rightarrow> act_ret ()) (m1, c) = (Inr u, (m', c'))"
    by (auto simp: restore_state_if_needed_def act_simps)
  then show ?thesis by (cases stored) (auto simp: act_simps intro: that)
next
  case False
  with assms show ?thesis by (intro that(1)) (auto simp: restore_state_if_needed_def act_simps)
qed

text \<open>
  \<open>starts_from M msg m c0 c\<close>: a message is handled in the connection's own state, or a contract
  message in the state stored for its swap.
\<close>

definition starts_from :: "'m maker_ops \<Rightarrow> taker_to_maker_message \<Rightarrow> 'm \<Rightarrow> conn \<Rightarrow> conn \<Rightarrow> bool" where
  "starts_from M msg m c c0 \<longleftrightarrow> c0 = c \<or>
     (\<exists>i p st m1. contract_message msg = Some (i, p) \<and> mk_get_connection_state M i m = (Inr (Some st), m1) \<and> c0 = restore_conn i st c)"

lemma dispatch_phase:
  assumes "contract_message msg = Some (i, p)" "handle_message B M rng clk msg (m, c) = (Inr r, (m', c'))"
  shows "\<exists>c0. starts_from M msg m (touch (clk 0) c) c0 \<and> cs_protocol c0 = p \<and> phase_step msg (cs_phase c0) (cs_phase c')"
proof -
  obtain m1 c0 where restore: "restore_state_if_needed M i (m, touch (clk 0) c) = (Inr (), (m1, c0))"
    and "cs_protocol c0 = p" "phase_step msg (cs_phase c0) (cs_phase c')"
    using assms(1)
  proof (cases rule: contract_message_cases [where B = B and M = M and rng = rng and clk = clk])
    case (1 l)
    with assms(2) obtain m1 c0 where "restore_state_if_needed M i (m, touch (clk 0) c) = (Inr (), (m1, c0))"
      "ensure_negotiated_protocol Legacy c0 = Inr ()" "handle_legacy_message B M l (m1, c0) = (Inr r, (m', c'))"
      by (auto simp: handle_legacy_dispatch_def act_simps on_c_ok simp del: on_c_iff)
    with 1 show ?thesis
      by (intro that) (auto simp: ensure_negotiated_protocol_def split: if_splits dest: legacy_message_phase)
  next
    case (2 t)
    with assms(2) obtain m1 c0 where "restore_state_if_needed M i (m, touch (clk 0) c) = (Inr (), (m1, c0))"
      "ensure_negotiated_protocol Taproot c0 = Inr ()" "handle_taproot_message B M rng t (m1, c0) = (Inr r, (m', c'))"
      by (auto simp: handle_taproot_dispatch_def act_simps on_c_ok simp del: on_c_iff)
    with 2 show ?thesis
      by (intro that) (auto simp: ensure_negotiated_protocol_def split: if_splits dest: taproot_message_phase)
  qed
  moreover from restore have "starts_from M msg m (touch (clk 0) c) c0"
    by (cases rule: restore_cases) (use assms(1) in \<open>auto simp: starts_from_def\<close>)
  ultimately show ?thesis by blast
qed

lemma act_try_iff: "act_try f g s = (r, t) \<longleftrightarrow> (\<exists>q s'. f s = (q, s') \<and> g q s' = (r, t))"
  by (auto simp: act_try_def split: prod.splits)

definition accepted_conn :: "'m maker_ops \<Rightarrow> nat \<Rightarrow> swap_details \<Rightarrow> nat \<Rightarrow> 'm \<Rightarrow> conn \<Rightarrow> conn" where
  "accepted_conn M start details offset m c = snd (snd (accept_details M start details offset (m, c)))"

lemma accept_details_run: "accept_details M start d offset (m, c) = (Inr (), (m, accepted_conn M start d offset m c))"
  by (simp add: accepted_conn_def accept_details_def act_bind_def set_c_def get_m_def)

lemma accepted_conn_fields:
  "cs_phase (accepted_conn M start d offset m c) = AwaitingContractData"
  "cs_swap_id (accepted_conn M start d offset m c) = Some (sd_id d)"
  "cs_swap_amount (accepted_conn M start d offset m c) = sd_amount d"
  "cs_timelock (accepted_conn M start d offset m c) = sd_timelock d"
  "cs_protocol (accepted_conn M start d offset m c) = sd_protocol_version d"
  "cs_refund_locktime_offset (accepted_conn M start d offset m c) = offset"
  "cs_service_fee_sats (accepted_conn M start d offset m c) = mk_calculate_swap_fee M (sd_amount d) offset m"
  by (simp_all add: accepted_conn_def accept_details_def act_bind_def set_c_def get_m_def)

lemma swap_details_cases:
  assumes "handle_swap_details M now d (m, c) = (Inr r, (m', c'))"
  obtains (down) "\<not> mk_is_watchtower_alive M m" "r = Some (MtAckSwapDetails ack_reject)" "m' = m" "c' = c" "cs_phase c = AwaitingSwapDetails"
  | (rejected) offset m1 e where "cs_phase c = AwaitingSwapDetails" "mk_validate_swap_parameters M d m = (Inr offset, m1)"
      "mk_store_connection_state M (sd_id d) (accepted_conn M now d offset m1 c) True m1 = (Inl e, m')" "admission_rejection e"
      "c' = reset_rejected (accepted_conn M now d offset m1 c)" "r = Some (MtAckSwapDetails ack_reject)"
  | (admitted) offset m1 m2 k sk cc where "mk_is_watchtower_alive M m" "cs_phase c = AwaitingSwapDetails"
      "mk_validate_swap_parameters M d m = (Inr offset, m1)" "c' = accepted_conn M now d offset m1 c"
      "mk_store_connection_state M (sd_id d) c' True m1 = (Inr (), m2)" "mk_get_tweakable_keypair M m2 = (Inr (sk, k, cc), m')"
      "r = Some (MtAckSwapDetails (ack_accept k))"
proof (cases "mk_is_watchtower_alive M m")
  case False
  with assms show ?thesis
    by (intro down) (auto simp: handle_swap_details_def act_simps on_c_ok expect_phase_Inr_iff simp del: on_c_iff)
next
  case True
  with assms obtain offset m1 q m2 where start: "cs_phase c = AwaitingSwapDetails" "mk_validate_swap_parameters M d m = (Inr offset, m1)"
    "mk_store_connection_state M (sd_id d) (accepted_conn M now d offset m1 c) True m1 = (q, m2)"
    and cont: "(case q of Inl e \<Rightarrow> if admission_rejection e
          then act_seq (set_c reset_rejected) (act_ret (Some (MtAckSwapDetails ack_reject))) else act_fail e
        | Inr _ \<Rightarrow> act_bind (on_m (mk_get_tweakable_keypair M)) (\<lambda>(_, tweakable_point, _).
            act_ret (Some (MtAckSwapDetails (ack_accept tweakable_point))))) (m2, accepted_conn M now d offset m1 c) = (Inr r, (m', c'))"
    by (auto simp: handle_swap_details_def accept_details_run act_try_iff act_simps on_c_ok expect_phase_Inr_iff simp del: on_c_iff)
  show ?thesis
  proof (cases q)
    case (Inl e)
    with cont start show ?thesis by (intro rejected [of offset m1 e]) (auto simp: act_simps split: if_splits)
  next
    case (Inr u)
    with cont start True show ?thesis by (auto simp: act_simps intro: admitted)
  qed
qed

text \<open>
  C21. The maker's handlers follow the protocol's phases. A message that succeeds was handled in the
  connection's own state, or, if it is a contract message, possibly in the state stored for its swap;
  that state has the protocol the message belongs to, and the phase moves along \<open>phase_step\<close>: hello, offer and details in
  this order, sender signatures and the proof of funding only after accepted details, signatures
  and contract data only in their phase, and the key handover only as the last step.
\<close>

theorem handle_message_phases:
  assumes "handle_message B M rng clk msg (m, c) = (Inr r, (m', c'))"
  shows "\<exists>c0. starts_from M msg m (touch (clk 0) c) c0 \<and> phase_step msg (cs_phase c0) (cs_phase c')
    \<and> (\<forall>i p. contract_message msg = Some (i, p) \<longrightarrow> cs_protocol c0 = p)"
proof (cases "contract_message msg")
  case (Some ip)
  then show ?thesis using dispatch_phase [OF _ assms, of "fst ip" "snd ip"] by auto
next
  case None
  let ?c = "touch (clk 0) c"
  have "phase_step msg (cs_phase ?c) (cs_phase c')"
  proof (cases msg)
    case (TmSwapDetails d)
    with assms have "handle_swap_details M (clk 1) d (m, ?c) = (Inr r, (m', c'))"
      by (simp add: handle_message_def act_simps)
    then show ?thesis
      by (cases rule: swap_details_cases)
        (simp_all add: TmSwapDetails accepted_conn_fields reset_rejected_def phase_step.accepted phase_step.rejected)
  qed (use assms None in \<open>auto simp: handle_message_def handle_taker_hello_def handle_get_offer_def handle_waiting_def contract_message_def
      act_simps on_c_ok expect_phase_Inr_iff touch_def phase_step.waiting simp del: on_c_iff intro: phase_step.intros split: if_splits option.splits\<close>)
  with None show ?thesis by (auto simp: starts_from_def)
qed

lemma legacy_closed:
  "cs_phase c = AwaitingSwapDetails \<Longrightarrow> \<exists>e. handle_legacy_message B M l (m, c) = (Inl e, (m, c))"
  by (cases l) (simp_all add: handle_legacy_message_def process_req_contract_sigs_for_sender_def process_proof_of_funding_def
      pof_check_def process_resp_contract_sigs_for_recvr_and_sender_def resp_sigs_check_def process_req_contract_sigs_for_recvr_def
      process_legacy_handover_def act_bind_def on_c_def expect_phase_def)

lemma taproot_closed:
  "cs_phase c = AwaitingSwapDetails \<Longrightarrow> \<exists>e. handle_taproot_message B M rng t (m, c) = (Inl e, (m, c))"
  by (cases t) (simp_all add: handle_taproot_message_def process_taproot_contract_def tap_prepare_def tap_check_def
      process_taproot_handover_def act_bind_def on_c_def expect_phase_def)

lemma not_restored:
  assumes "mk_get_connection_state M i m = (Inr None, m1)"
  obtains m2 where "restore_state_if_needed M i (m, c) = (Inr (), (m2, c))" "m2 \<in> {m, m1}"
  using assms by (cases "cs_swap_amount c = 0 \<or> cs_outgoing c = []")
    (auto simp: restore_state_if_needed_def act_bind_def get_c_def on_m_def act_ret_def)

lemma contract_message_closed:
  assumes msg: "contract_message msg = Some (i, p)" and none: "mk_get_connection_state M i m = (Inr None, m1)"
    and phase: "cs_phase c = AwaitingSwapDetails"
  shows "\<exists>e m2. m2 \<in> {m, m1} \<and> handle_message B M rng clk msg (m, c) = (Inl e, (m2, touch (clk 0) c))"
proof -
  obtain m2 where restore: "restore_state_if_needed M i (m, touch (clk 0) c) = (Inr (), (m2, touch (clk 0) c))" "m2 \<in> {m, m1}"
    using none by (rule not_restored)
  have phase': "cs_phase (touch (clk 0) c) = AwaitingSwapDetails" using phase by (simp add: touch_def)
  from msg show ?thesis
  proof (cases rule: contract_message_cases [where B = B and M = M and rng = rng and clk = clk])
    case (1 l)
    with restore show ?thesis using legacy_closed [OF phase', of B M l m2]
      by (cases "cs_protocol (touch (clk 0) c) = Legacy")
        (auto simp: handle_legacy_dispatch_def act_bind_def set_c_def on_c_def ensure_negotiated_protocol_def)
  next
    case (2 t)
    with restore show ?thesis using taproot_closed [OF phase', of B M rng t m2]
      by (cases "cs_protocol (touch (clk 0) c) = Taproot")
        (auto simp: handle_taproot_dispatch_def act_bind_def set_c_def on_c_def ensure_negotiated_protocol_def)
  qed
qed

text \<open>
  C22. A refused swap cannot be funded over the same connection. After the maker answered
  \<open>SwapDetails\<close> with a rejection, whatever the reason, every contract message for a swap that is
  not stored is refused as well, and refusing it changes neither the maker nor the connection
  (except for the activity timer and what the lookup of the stored swap itself does).
\<close>

theorem rejected_swap_stays_closed:
  assumes rejected: "handle_message B M rng clk (TmSwapDetails d) (m, c) = (Inr (Some (MtAckSwapDetails ack_reject)), (m', c'))"
    and "contract_message msg = Some (i, p)" "mk_get_connection_state M i m' = (Inr None, m1)"
  shows "cs_phase c' = AwaitingSwapDetails
    \<and> (\<exists>e m2. m2 \<in> {m', m1} \<and> handle_message B M rng' clk' msg (m', c') = (Inl e, (m2, touch (clk' 0) c')))"
proof -
  from rejected have "handle_swap_details M (clk 1) d (m, touch (clk 0) c) = (Inr (Some (MtAckSwapDetails ack_reject)), (m', c'))"
    by (simp add: handle_message_def act_simps)
  then have "cs_phase c' = AwaitingSwapDetails"
    by (cases rule: swap_details_cases) (simp_all add: reset_rejected_def ack_reject_def ack_accept_def)
  then show ?thesis by (intro conjI contract_message_closed [OF assms(2,3)])
qed

section \<open>A refused and an accepted swap\<close>

definition full_maker :: "unit maker_ops" where
  "full_maker = idle_maker\<lparr>mk_store_connection_state := (\<lambda>_ _ _. act_fail MTooManySwaps)\<rparr>"

definition sample_details :: swap_details where
  "sample_details = \<lparr>sd_id = ''s'', sd_protocol_version = Taproot, sd_amount = 100000, sd_tx_count = 1, sd_timelock = 800000,
     sd_refund_locktime_offset = 40\<rparr>"

definition offered_conn :: conn where
  "offered_conn = (conn_default 0)\<lparr>cs_phase := AwaitingSwapDetails\<rparr>"

lemma sample_maker_ops:
  "mk_is_watchtower_alive full_maker u" "mk_validate_swap_parameters full_maker d = act_ret 0"
  "mk_store_connection_state full_maker i st b = act_fail MTooManySwaps"
  "mk_is_watchtower_alive idle_maker u" "mk_validate_swap_parameters idle_maker d = act_ret 0"
  "mk_store_connection_state idle_maker i st b = act_ret ()"
  "mk_get_tweakable_keypair idle_maker = act_ret ([], compressed_key [], [])"
  by (simp_all add: full_maker_def idle_maker_def)

lemmas run_handler = handle_message_def handle_swap_details_def accept_details_run act_bind_def act_try_def set_c_def on_c_def get_c_def
  get_m_def on_m_def expect_phase_def act_ret_def act_fail_def sample_maker_ops

lemma offered_phase: "cs_phase (touch t offered_conn) = AwaitingSwapDetails"
  by (simp add: touch_def offered_conn_def)

lemma full_maker_rejects:
  "\<exists>c. handle_message sample_lib full_maker sample_rng id (TmSwapDetails sample_details) ((), offered_conn)
     = (Inr (Some (MtAckSwapDetails ack_reject)), ((), c))"
  by (simp add: run_handler offered_phase admission_rejection_def)

theorem rejected_swap_stays_closed_witness:
  "\<exists>c e. handle_message sample_lib full_maker sample_rng id (TmSwapDetails sample_details) ((), offered_conn)
       = (Inr (Some (MtAckSwapDetails ack_reject)), ((), c))
     \<and> handle_message sample_lib full_maker sample_rng id (TmTaprootContractData sample_tcd) ((), c) = (Inl e, ((), touch 0 c))"
proof -
  from full_maker_rejects obtain c where
    run: "handle_message sample_lib full_maker sample_rng id (TmSwapDetails sample_details) ((), offered_conn)
       = (Inr (Some (MtAckSwapDetails ack_reject)), ((), c))" by blast
  have "mk_get_connection_state full_maker (tcd_id sample_tcd) () = (Inr None, ())"
    by (simp add: full_maker_def idle_maker_def act_ret_def)
  with rejected_swap_stays_closed [OF run, of "TmTaprootContractData sample_tcd" "tcd_id sample_tcd" Taproot "()" sample_rng id] run
  show ?thesis by (auto simp: contract_message_def)
qed

theorem handle_message_phases_witness:
  "\<exists>r m c. handle_message sample_lib idle_maker sample_rng id (TmSwapDetails sample_details) ((), offered_conn) = (Inr r, (m, c))
     \<and> phase_step (TmSwapDetails sample_details) AwaitingSwapDetails (cs_phase c)"
proof -
  obtain r m c where run: "handle_message sample_lib idle_maker sample_rng id (TmSwapDetails sample_details) ((), offered_conn) = (Inr r, (m, c))"
    by (simp add: run_handler offered_phase)
  with handle_message_phases [OF run] show ?thesis
    by (auto simp: starts_from_def contract_message_def touch_def offered_conn_def)
qed

end
