(* ===== verification/MakerServer.thy ===== *)
theory MakerServer
  imports MakerHandlers
begin

text \<open>
  \<open>MakerServer\<close> of \<open>maker/api.rs\<close>: the table of ongoing swaps and the implementation of the
  \<open>Maker\<close> trait on it. A method that holds one lock throughout is one function on the server's
  state. The chain backend, the watch service, the clock and the wallet routines that build, sweep or sync
  transactions are the fields of \<open>'x world\<close>, operations on an outside state \<open>'x\<close>. A poisoned lock is
  a flag. The lemmas show that a reconnecting taker resumes the stored swap, what an admission
  guarantees under any interleaving of the connection threads, and what verified proofs of funding mean.
\<close>

section \<open>State\<close>

record swap_state =
  ss_swap_amount :: amount
  ss_tx_count :: nat
  ss_timelock :: nat
  ss_protocol :: protocol_version
  ss_phase :: swap_phase
  ss_incoming :: "incoming_swapcoin list"
  ss_outgoing :: "outgoing_swapcoin list"
  ss_pending_funding_txes :: "transaction list"
  ss_funding_broadcast :: bool
  ss_contract_feerate :: f64
  ss_service_fee_sats :: nat
  ss_reserve_utxo :: "outpoint list"
  ss_last_activity :: nat
  ss_swap_start_time :: nat
  ss_refund_locktime_offset :: nat
  ss_funding_confirmation_height :: "nat option"

definition swap_state_default :: "nat \<Rightarrow> swap_state" where
  "swap_state_default now = \<lparr>ss_swap_amount = 0, ss_tx_count = 0, ss_timelock = 0, ss_protocol = Legacy, ss_phase = AwaitingHello,
     ss_incoming = [], ss_outgoing = [], ss_pending_funding_txes = [], ss_funding_broadcast = False, ss_contract_feerate = 0,
     ss_service_fee_sats = 0, ss_reserve_utxo = [], ss_last_activity = now, ss_swap_start_time = now,
     ss_refund_locktime_offset = 0, ss_funding_confirmation_height = None\<rparr>"

text \<open>The fields of \<open>MakerServerConfig\<close> the trait methods read.\<close>

record server_config =
  sc_base_fee :: nat
  sc_amount_relative_fee_pct :: f64
  sc_time_relative_fee_pct :: f64
  sc_min_swap_amount :: nat
  sc_required_confirms :: nat
  sc_supported_protocols :: "protocol_version list"

record 'x server =
  sv_config :: server_config
  sv_wallet :: wallet
  sv_swaps :: "(swap_id \<times> swap_state) list"
  sv_fidelity_proof :: "fidelity_proof option"
  sv_wallet_poisoned :: bool
  sv_swaps_poisoned :: bool
  sv_fidelity_poisoned :: bool
  sv_world :: 'x

record funding_result =
  fr_funding_txes :: "transaction list"
  fr_payment_output_positions :: "nat list"
  fr_total_miner_fee :: nat

record 'x world =
  wx_now :: "'x \<Rightarrow> nat"
  wx_watch_alive :: "'x \<Rightarrow> bool"
  wx_watch :: "outpoint \<Rightarrow> script \<Rightarrow> ('x, watcher_error, unit) act"
  wx_unwatch :: "outpoint \<Rightarrow> script \<Rightarrow> ('x, watcher_error, unit) act"
  wx_new_connection :: "('x, wallet_error, unit) act"
  wx_get_block_count :: "('x, wallet_error, nat) act"
  wx_send_raw_transaction :: "transaction \<Rightarrow> ('x, wallet_error, txid) act"
  wx_get_raw_transaction :: "txid \<Rightarrow> ('x, wallet_error, transaction) act"
  wx_get_tx_out :: "txid \<Rightarrow> nat \<Rightarrow> ('x, wallet_error, txout option) act"
  wx_tx_block_height :: "txid \<Rightarrow> ('x, wallet_error, nat option) act"
  wx_wait_for_tx_confirmation :: "txid list \<Rightarrow> nat \<Rightarrow> ('x, wallet_error, unit) act"
  wx_tweakable_keypair :: "wallet_error + (seckey \<times> public_key \<times> bytes)"
  wx_create_funding_txes :: "amount \<Rightarrow> script list \<Rightarrow> f64 \<Rightarrow> outpoint list option \<Rightarrow> (wallet \<times> 'x, wallet_error, funding_result) act"
  wx_create_and_import_swap_address :: "public_key \<Rightarrow> (wallet \<times> 'x, wallet_error, script \<times> seckey) act"
  wx_sync_and_save :: "(wallet \<times> 'x, wallet_error, unit) act"
  wx_sweep_incoming_swapcoins :: "txid list \<Rightarrow> (wallet \<times> 'x, wallet_error, recovery_outcome) act"

type_synonym ('x, 'a) sact = "('x server, maker_error, 'a) act"

section \<open>Locks and calls\<close>

definition lock_wallet :: "('x, unit) sact" where
  "lock_wallet s = (ensure (\<not> sv_wallet_poisoned s) (MGeneral ''Failed to lock wallet''), s)"

definition lock_swaps :: "('x, unit) sact" where
  "lock_swaps s = (ensure (\<not> sv_swaps_poisoned s) MMutexPossion, s)"

definition on_world :: "('e \<Rightarrow> maker_error) \<Rightarrow> ('x, 'e, 'a) act \<Rightarrow> ('x, 'a) sact" where
  "on_world h f s = (case f (sv_world s) of (r, x) \<Rightarrow> (map_err h r, s\<lparr>sv_world := x\<rparr>))"

definition on_wallet :: "(wallet, wallet_error, 'a) act \<Rightarrow> ('x, 'a) sact" where
  "on_wallet f s = (case f (sv_wallet s) of (r, w) \<Rightarrow> (map_err (werr MWallet) r, s\<lparr>sv_wallet := w\<rparr>))"

definition on_both :: "(wallet \<times> 'x, wallet_error, 'a) act \<Rightarrow> ('x, 'a) sact" where
  "on_both f s = (case f (sv_wallet s, sv_world s) of (r, (w, x)) \<Rightarrow> (map_err (werr MWallet) r, s\<lparr>sv_wallet := w, sv_world := x\<rparr>))"

abbreviation backend :: "('x, wallet_error, 'a) act \<Rightarrow> ('x, 'a) sact" where
  "backend f \<equiv> act_seq lock_wallet (on_world (werr MWallet) f)"

section \<open>Keys, offer and parameters\<close>

definition sv_get_tweakable_keypair :: "'x world \<Rightarrow> ('x, seckey \<times> public_key \<times> bytes) sact" where
  "sv_get_tweakable_keypair X = act_seq lock_wallet (act_lift (map_err (werr MWallet) (wx_tweakable_keypair X)))"

definition sv_get_fidelity_proof :: "('x, fidelity_proof) sact" where
  "sv_get_fidelity_proof s =
     (res_bind (ensure (\<not> sv_fidelity_poisoned s) (MGeneral ''Failed to lock fidelity proof'')) (\<lambda>_.
      ok_or (sv_fidelity_proof s) (MGeneral ''No fidelity proof available'')), s)"

definition sv_get_config :: "'x server \<Rightarrow> maker_config" where
  "sv_get_config s = \<lparr>mc_base_fee = sc_base_fee (sv_config s),
     mc_amount_relative_fee_pct = sc_amount_relative_fee_pct (sv_config s),
     mc_time_relative_fee_pct = sc_time_relative_fee_pct (sv_config s),
     mc_min_swap_amount = sc_min_swap_amount (sv_config s),
     mc_max_swap_amount = (if sv_wallet_poisoned s then uint_max 64 else ws_offer_maxsize (w_store (sv_wallet s))),
     mc_required_confirms = sc_required_confirms (sv_config s),
     mc_supported_protocols = sc_supported_protocols (sv_config s)\<rparr>"

text \<open>\<open>get_block_count\<close> is a \<open>u64\<close>; the height keeps its low 32 bits.\<close>

definition sv_get_current_height :: "'x world \<Rightarrow> ('x, nat) sact" where
  "sv_get_current_height X = act_bind (backend (wx_get_block_count X)) (\<lambda>h. act_ret (h mod 2 ^ 32))"

text \<open>\<open>balances.regular + balances.swap\<close>; the sum of two amounts panics on overflow.\<close>

definition swap_liquidity_of :: "balances \<Rightarrow> maker_error + amount" where
  "swap_liquidity_of b = ok_or (checked_add 64 (bal_regular b) (bal_swap b)) MPanic"

definition liquidity_check :: "swap_details \<Rightarrow> 'x server \<Rightarrow> maker_error + unit" where
  "liquidity_check details s =
     (if sv_wallet_poisoned s then Inr ()
      else case get_balances (w_store (sv_wallet s)) of
        Inl e \<Rightarrow> if e = WPanic then Inl MPanic else Inr ()
      | Inr b \<Rightarrow> res_bind (swap_liquidity_of b) (\<lambda>swap_liquidity.
          ensure (\<not> swap_liquidity < sd_amount details) (MGeneral ''Not enough liquidity for this swap amount'')))"

definition locked_blocks :: "'x world \<Rightarrow> swap_details \<Rightarrow> ('x, nat) sact" where
  "locked_blocks X details =
     (if sd_protocol_version details = Legacy then
        act_seq (act_ensure (\<not> sd_timelock details < MIN_CONTRACT_REACTION_TIME)
          (MGeneral ''Legacy timelock is below minimum reaction time'')) (
        act_ret (sd_timelock details))
      else
        act_bind (sv_get_current_height X) (\<lambda>current_height.
        act_seq (act_ensure (\<not> saturating_add 32 (sd_timelock details) REFUND_LOCKTIME_STEP
            < saturating_add 32 current_height MIN_CONTRACT_REACTION_TIME)
          (MGeneral ''Taproot timelock leaves too little contract reaction time'')) (
        act_seq (act_ensure (offset_meets_reaction_time (sd_refund_locktime_offset details))
          (MGeneral ''Taproot refund locktime offset is below minimum reaction time'')) (
        act_ret (sd_refund_locktime_offset details)))))"

definition sv_validate_swap_parameters :: "'x world \<Rightarrow> swap_details \<Rightarrow> ('x, nat) sact" where
  "sv_validate_swap_parameters X details =
     act_bind (act_get sv_get_config) (\<lambda>config.
     act_seq (act_ensure (\<not> sd_amount details < mc_min_swap_amount config) (MGeneral ''Swap amount below minimum'')) (
     act_seq (act_ensure (\<not> sd_amount details > mc_max_swap_amount config) (MGeneral ''Swap amount above maximum'')) (
     act_seq (act_ensure (sd_protocol_version details \<in> set (mc_supported_protocols config))
       (MGeneral ''Protocol version not supported'')) (
     act_seq (\<lambda>s. (liquidity_check details s, s)) (
     act_bind (locked_blocks X details) (\<lambda>blocks.
     act_seq (act_ensure (\<not> (blocks = 0 \<or> blocks > uint_max 16)) (MGeneral ''Swap timelock out of range'')) (
     act_ret (blocks mod 2 ^ 16))))))))"

definition sv_calculate_swap_fee :: "amount \<Rightarrow> nat \<Rightarrow> 'x server \<Rightarrow> amount" where
  "sv_calculate_swap_fee amount timelock s =
     f64_ceil_u64 (f64_add
       (f64_add (f64_of_nat (sc_base_fee (sv_config s)))
         (f64_div (f64_mul (f64_of_nat amount) (sc_amount_relative_fee_pct (sv_config s))) 100))
       (f64_div (f64_mul (f64_mul (f64_of_nat amount) (f64_of_nat timelock)) (sc_time_relative_fee_pct (sv_config s))) 100))"

section \<open>Chain, wallet and watchtower\<close>

definition sv_create_funding_transaction ::
    "'x world \<Rightarrow> amount \<Rightarrow> script \<Rightarrow> outpoint list option \<Rightarrow> ('x, transaction \<times> nat) sact" where
  "sv_create_funding_transaction X amount address excluded_outpoints =
     act_seq lock_wallet (
     act_bind (on_both (wx_create_funding_txes X amount [address] (of_nat MIN_FEE_RATE) excluded_outpoints)) (\<lambda>result.
     act_bind (act_lift (ok_or (nth_opt (fr_funding_txes result) 0) (MGeneral ''No funding tx created''))) (\<lambda>tx.
     act_ret (tx, case fr_payment_output_positions result of [] \<Rightarrow> 0 | p # _ \<Rightarrow> p))))"

definition MIN_REQUIRED_CONFIRM :: nat where "MIN_REQUIRED_CONFIRM = 1"

definition sv_wait_for_tx_on_chain :: "'x world \<Rightarrow> txid \<Rightarrow> nat \<Rightarrow> ('x, unit) sact" where
  "sv_wait_for_tx_on_chain X txid required_confirms =
     act_seq (backend (wx_new_connection X)) (
     on_world (werr MWallet) (wx_wait_for_tx_confirmation X [txid] (max required_confirms MIN_REQUIRED_CONFIRM)))"

definition sv_broadcast_transaction :: "'x world \<Rightarrow> transaction \<Rightarrow> ('x, txid) sact" where
  "sv_broadcast_transaction X tx = backend (wx_send_raw_transaction X tx)"

definition sv_is_transaction_known :: "'x world \<Rightarrow> txid \<Rightarrow> 'x server \<Rightarrow> bool" where
  "sv_is_transaction_known X txid s \<longleftrightarrow> \<not> sv_wallet_poisoned s \<and> is_ok (fst (wx_get_raw_transaction X txid (sv_world s)))"

definition sv_save_incoming_swapcoin :: "btc \<Rightarrow> incoming_swapcoin \<Rightarrow> ('x, unit) sact" where
  "sv_save_incoming_swapcoin B swapcoin =
     act_seq lock_wallet (on_wallet (act_seq (act_upd (\<lambda>w. w\<lparr>w_store := add_incoming_swapcoin B swapcoin (w_store w)\<rparr>)) save_to_disk))"

definition sv_save_outgoing_swapcoin :: "btc \<Rightarrow> outgoing_swapcoin \<Rightarrow> ('x, unit) sact" where
  "sv_save_outgoing_swapcoin B swapcoin =
     act_seq lock_wallet (on_wallet (act_seq (act_upd (\<lambda>w. w\<lparr>w_store := add_outgoing_swapcoin B swapcoin (w_store w)\<rparr>)) save_to_disk))"

definition sv_register_watch_outpoint :: "'x world \<Rightarrow> outpoint \<Rightarrow> script \<Rightarrow> ('x, unit) sact" where
  "sv_register_watch_outpoint X op spk =
     on_world (\<lambda>_. MGeneral ''watchtower registration failed, aborting swap'') (wx_watch X op spk)"

definition sv_unwatch_outpoint :: "'x world \<Rightarrow> outpoint \<Rightarrow> script \<Rightarrow> 'x server \<Rightarrow> 'x server" where
  "sv_unwatch_outpoint X op spk s = s\<lparr>sv_world := snd (wx_unwatch X op spk (sv_world s))\<rparr>"

definition sv_sync_and_save_wallet :: "'x world \<Rightarrow> ('x, unit) sact" where
  "sv_sync_and_save_wallet X = act_seq lock_wallet (on_both (wx_sync_and_save X))"

definition sv_get_raw_transaction :: "btc \<Rightarrow> 'x world \<Rightarrow> txid \<Rightarrow> ('x, transaction) sact" where
  "sv_get_raw_transaction B X txid =
     act_seq (backend (wx_new_connection X)) (
     act_bind (on_world (werr MWallet) (wx_get_raw_transaction X txid)) (\<lambda>transaction.
     act_seq (act_ensure (b_txid B transaction = txid) (MGeneral ''backend returned an unexpected transaction'')) (
     act_ret transaction)))"

definition sv_sweep_incoming_swapcoins :: "btc \<Rightarrow> 'x world \<Rightarrow> incoming_swapcoin list \<Rightarrow> ('x, recovery_outcome) sact" where
  "sv_sweep_incoming_swapcoins B X incoming_swapcoins =
     act_seq (backend (wx_new_connection X)) (
     act_bind (on_both (wx_sweep_incoming_swapcoins X (map (b_txid B \<circ> inc_contract_tx) incoming_swapcoins))) (\<lambda>sweep_outcome.
     act_seq (sv_sync_and_save_wallet X) (
     act_ret sweep_outcome)))"

section \<open>The table of ongoing swaps\<close>

definition active_swaps :: "(swap_id \<times> swap_state) list \<Rightarrow> swap_state list" where
  "active_swaps swaps = filter (\<lambda>st. ss_phase st \<noteq> Completed) (map snd swaps)"

definition same_parameters :: "swap_state \<Rightarrow> conn \<Rightarrow> bool" where
  "same_parameters st c \<longleftrightarrow> ss_swap_amount st = cs_swap_amount c \<and> ss_tx_count st = cs_tx_count c
     \<and> ss_timelock st = cs_timelock c \<and> ss_protocol st = cs_protocol c
     \<and> ss_refund_locktime_offset st = cs_refund_locktime_offset c"

definition admit :: "amount \<Rightarrow> conn \<Rightarrow> (swap_id \<times> swap_state) list \<Rightarrow> maker_error + unit" where
  "admit swap_liquidity state swaps =
     res_bind (ensure (\<not> length (active_swaps swaps) \<ge> MAX_CONCURRENT_SWAPS) MTooManySwaps) (\<lambda>_.
     res_bind (res_fold (\<lambda>total st. ok_or (checked_add 64 total (ss_swap_amount st)) MPanic) 0 (active_swaps swaps))
       (\<lambda>reserved_liquidity.
     res_bind (ok_or (checked_add 64 reserved_liquidity (cs_swap_amount state)) MPanic) (\<lambda>required_liquidity.
     ensure (\<not> swap_liquidity < required_liquidity)
       (MInsufficientLiquidity swap_liquidity reserved_liquidity (cs_swap_amount state)))))"

definition write_swap_state :: "nat \<Rightarrow> conn \<Rightarrow> swap_state \<Rightarrow> swap_state" where
  "write_swap_state now c st = st\<lparr>ss_swap_amount := cs_swap_amount c, ss_tx_count := cs_tx_count c,
     ss_timelock := cs_timelock c, ss_protocol := cs_protocol c, ss_phase := cs_phase c, ss_incoming := cs_incoming c,
     ss_outgoing := cs_outgoing c, ss_pending_funding_txes := cs_pending_funding_txes c,
     ss_funding_broadcast := cs_funding_broadcast c, ss_contract_feerate := cs_contract_feerate c,
     ss_service_fee_sats := cs_service_fee_sats c, ss_reserve_utxo := cs_reserve_utxo c, ss_last_activity := now,
     ss_swap_start_time := cs_swap_start_time c, ss_refund_locktime_offset := cs_refund_locktime_offset c\<rparr>"

text \<open>
  \<open>store_connection_state\<close> once the swaps lock is requested. \<open>swap_liquidity\<close> was read before,
  under the wallet lock, and is \<open>None\<close> unless this is an admission. A panic under the lock poisons it.
\<close>

definition store_locked :: "'x world \<Rightarrow> swap_id \<Rightarrow> conn \<Rightarrow> amount option \<Rightarrow> ('x, unit) sact" where
  "store_locked X swap_id state swap_liquidity =
     act_seq lock_swaps (
     act_bind (act_get (\<lambda>s. wx_now X (sv_world s))) (\<lambda>now.
     act_bind (act_get sv_swaps) (\<lambda>swaps.
     let put = (\<lambda>st. act_upd (\<lambda>s. s\<lparr>sv_swaps := AList.update swap_id st (sv_swaps s)\<rparr>)) in
     case (swap_liquidity, map_of swaps swap_id) of
       (Some _, Some st) \<Rightarrow>
         if \<not> same_parameters st state then act_fail MSwapParamMismatch
         else put (st\<lparr>ss_last_activity := now\<rparr>)
     | (Some l, None) \<Rightarrow>
         (case admit l state swaps of
            Inl e \<Rightarrow> act_seq (act_upd (\<lambda>s. s\<lparr>sv_swaps_poisoned := (e = MPanic)\<rparr>)) (act_fail e)
          | Inr _ \<Rightarrow> put (write_swap_state now state (swap_state_default now)))
     | (None, Some st) \<Rightarrow> put (write_swap_state now state st)
     | (None, None) \<Rightarrow> put (write_swap_state now state (swap_state_default now)))))"

definition swap_liquidity :: "('x, amount) sact" where
  "swap_liquidity =
     act_seq lock_wallet (
     act_bind (act_get (\<lambda>s. get_balances (w_store (sv_wallet s)))) (\<lambda>balances.
     act_bind (act_lift (map_err (werr MWallet) balances)) (\<lambda>b.
     act_lift (swap_liquidity_of b))))"

definition sv_store_connection_state :: "'x world \<Rightarrow> swap_id \<Rightarrow> conn \<Rightarrow> bool \<Rightarrow> ('x, unit) sact" where
  "sv_store_connection_state X swap_id state admission =
     act_bind (if admission then act_bind swap_liquidity (\<lambda>l. act_ret (Some l)) else act_ret None)
       (store_locked X swap_id state)"

definition conn_of_state :: "swap_id \<Rightarrow> swap_state \<Rightarrow> conn" where
  "conn_of_state swap_id st = \<lparr>cs_protocol = ss_protocol st, cs_phase = ss_phase st, cs_swap_id = Some swap_id,
     cs_swap_amount = ss_swap_amount st, cs_tx_count = ss_tx_count st, cs_timelock = ss_timelock st,
     cs_refund_locktime_offset = ss_refund_locktime_offset st, cs_incoming = ss_incoming st, cs_outgoing = ss_outgoing st,
     cs_pending_funding_txes = ss_pending_funding_txes st, cs_contract_feerate = ss_contract_feerate st,
     cs_service_fee_sats = ss_service_fee_sats st, cs_funding_broadcast = ss_funding_broadcast st,
     cs_reserve_utxo = ss_reserve_utxo st, cs_last_activity = ss_last_activity st,
     cs_swap_start_time = ss_swap_start_time st\<rparr>"

definition sv_get_connection_state :: "swap_id \<Rightarrow> ('x, conn option) sact" where
  "sv_get_connection_state swap_id =
     act_seq lock_swaps (act_get (\<lambda>s. map_option (conn_of_state swap_id) (map_of (sv_swaps s) swap_id)))"

definition remove_swap_state :: "swap_id \<Rightarrow> ('x, unit) sact" where
  "remove_swap_state swap_id =
     act_seq lock_swaps (act_upd (\<lambda>s. s\<lparr>sv_swaps := AList.delete swap_id (sv_swaps s)\<rparr>))"

definition has_ongoing_swaps :: "('x, bool) sact" where
  "has_ongoing_swaps = act_seq lock_swaps (act_get (\<lambda>s. sv_swaps s \<noteq> []))"

definition state_past_deadline :: "nat \<Rightarrow> swap_state \<Rightarrow> bool" where
  "state_past_deadline height st = past_refund_deadline (ss_protocol st) (ss_timelock st) (ss_funding_confirmation_height st) height"

definition sv_swap_past_refund_deadline :: "'x world \<Rightarrow> swap_id \<Rightarrow> ('x, bool) sact" where
  "sv_swap_past_refund_deadline X swap_id =
     act_bind (sv_get_current_height X) (\<lambda>current_height.
     act_seq lock_swaps (act_get (\<lambda>s. case map_of (sv_swaps s) swap_id of
       Some st \<Rightarrow> state_past_deadline current_height st | None \<Rightarrow> False)))"

definition sv_collect_excluded_utxos :: "swap_id \<Rightarrow> ('x, outpoint list) sact" where
  "sv_collect_excluded_utxos current_swap_id =
     act_seq lock_swaps (act_get (\<lambda>s.
       concat (map (\<lambda>(_, st). ss_reserve_utxo st) (filter (\<lambda>(i, _). i \<noteq> current_swap_id) (sv_swaps s)))))"

section \<open>Idle swaps\<close>

record idle_swap_data =
  id_swap_id :: swap_id
  id_protocol :: protocol_version
  id_swap_amount_sat :: nat
  id_incoming :: "incoming_swapcoin list"
  id_outgoing :: "outgoing_swapcoin list"
  id_funding_broadcast :: bool

definition unfunded_reservation :: "swap_state \<Rightarrow> bool" where
  "unfunded_reservation st \<longleftrightarrow> ss_phase st = AwaitingContractData \<and> ss_incoming st = [] \<and> ss_outgoing st = []
     \<and> ss_pending_funding_txes st = [] \<and> \<not> ss_funding_broadcast st"

text \<open>\<open>Instant::elapsed\<close> is zero when the clock is behind.\<close>

definition idle_for :: "nat \<Rightarrow> nat \<Rightarrow> swap_state \<Rightarrow> bool" where
  "idle_for now timeout st \<longleftrightarrow> now - ss_last_activity st > timeout"

definition needs_recovery :: "nat option \<Rightarrow> nat \<Rightarrow> nat \<Rightarrow> swap_state \<Rightarrow> bool" where
  "needs_recovery current_height now timeout st \<longleftrightarrow> ss_outgoing st \<noteq> [] \<and>
     ((case current_height of Some height \<Rightarrow> state_past_deadline height st | None \<Rightarrow> False) \<or> idle_for now timeout st)"

definition idle_data :: "swap_id \<times> swap_state \<Rightarrow> idle_swap_data" where
  "idle_data = (\<lambda>(i, st). \<lparr>id_swap_id = i, id_protocol = ss_protocol st, id_swap_amount_sat = ss_swap_amount st,
     id_incoming = ss_incoming st, id_outgoing = ss_outgoing st, id_funding_broadcast = ss_funding_broadcast st\<rparr>)"

definition take_swap :: "swap_id \<Rightarrow> (swap_id \<times> swap_state) list \<times> idle_swap_data list
    \<Rightarrow> (swap_id \<times> swap_state) list \<times> idle_swap_data list" where
  "take_swap i = (\<lambda>(swaps, idle). case map_of swaps i of
     Some st \<Rightarrow> (AList.delete i swaps, idle @ [idle_data (i, st)]) | None \<Rightarrow> (swaps, idle))"

definition drain_swaps :: "nat option \<Rightarrow> nat \<Rightarrow> nat \<Rightarrow> (swap_id \<times> swap_state) list \<Rightarrow> (swap_id \<times> swap_state) list \<times> idle_swap_data list" where
  "drain_swaps current_height now timeout swaps =
     (let released_ids = map fst (filter (\<lambda>(_, st). unfunded_reservation st \<and> idle_for now timeout st) swaps);
          kept = fold AList.delete released_ids swaps;
          stale_ids = map fst (filter (\<lambda>(_, st). needs_recovery current_height now timeout st) kept)
      in fold take_swap stale_ids (kept, []))"

definition drain_idle_swaps :: "'x world \<Rightarrow> nat \<Rightarrow> ('x, idle_swap_data list) sact" where
  "drain_idle_swaps X timeout =
     act_try (sv_get_current_height X) (\<lambda>height.
     act_seq lock_swaps (
     act_bind (act_get (\<lambda>s. drain_swaps (res_ok height) (wx_now X (sv_world s)) timeout (sv_swaps s))) (\<lambda>(swaps, idle).
     act_seq (act_upd (\<lambda>s. s\<lparr>sv_swaps := swaps\<rparr>)) (
     act_ret idle))))"

section \<open>Legacy contracts\<close>

definition contract_binding :: "contract_tx_info_for_sender \<Rightarrow> maker_error + (outpoint \<times> script)" where
  "contract_binding txinfo =
     res_bind (ok_or (nth_opt (tx_input (cis_senders_contract_tx txinfo)) 0) MPanic) (\<lambda>inp.
     res_bind (ok_or (nth_opt (tx_output (cis_senders_contract_tx txinfo)) 0) MPanic) (\<lambda>out.
     Inr (ti_prev inp, to_spk out)))"

definition sign_sender_contract :: "btc \<Rightarrow> seckey \<Rightarrow> contract_tx_info_for_sender \<Rightarrow> maker_error + ecdsa_sig" where
  "sign_sender_contract B tweakable_privkey txinfo =
     res_bind (ok_or (b_add_tweak B tweakable_privkey (cis_multisig_nonce txinfo))
       (MGeneral ''Failed to derive multisig privkey'')) (\<lambda>multisig_privkey.
     map_err (\<lambda>_. MGeneral ''Failed to sign contract transaction'')
       (sign_contract_tx B (cis_senders_contract_tx txinfo) (cis_multisig_redeemscript txinfo)
         (cis_funding_input_value txinfo) multisig_privkey))"

definition sv_verify_and_sign_sender_contract_txs ::
    "btc \<Rightarrow> 'x world \<Rightarrow> contract_tx_info_for_sender list \<Rightarrow> bytes \<Rightarrow> nat \<Rightarrow> ('x, ecdsa_sig list) sact" where
  "sv_verify_and_sign_sender_contract_txs B X txs_info hashvalue locktime =
     act_bind (sv_get_tweakable_keypair X) (\<lambda>(tweakable_privkey, tweakable_pubkey, _).
     act_seq (act_lift (verify_req_contract_sigs_for_sender B txs_info tweakable_pubkey hashvalue locktime)) (
     act_bind (act_lift (res_map contract_binding txs_info)) (\<lambda>bindings.
     act_seq (act_seq lock_wallet (on_wallet (cache_prevout_to_contract bindings))) (
     act_lift (res_map (sign_sender_contract B tweakable_privkey) txs_info)))))"

text \<open>
  One round of the loop of \<open>verify_proof_of_funding\<close>. The accumulator is the hash value, the outpoints seen
  and the earliest confirmation height; \<open>saturating_sub\<close> is on \<open>u16\<close>.
\<close>

type_synonym pof_acc = "bytes option \<times> outpoint list \<times> nat option"

definition pof_scripts_ok :: "btc \<Rightarrow> public_key \<Rightarrow> wallet_store \<Rightarrow> outpoint \<Rightarrow> funding_tx_info \<Rightarrow> maker_error + bytes" where
  "pof_scripts_ok B tweakable_pubkey store funding_outpoint info =
     res_bind (map_err (perr MProtocol) (check_reedemscript_is_multisig B (fti_multisig_redeemscript info))) (\<lambda>_.
     res_bind (map_err (perr MProtocol)
       (check_multisig_has_pubkey B (fti_multisig_redeemscript info) tweakable_pubkey (fti_multisig_nonce info))) (\<lambda>_.
     res_bind (map_err (perr MProtocol)
       (check_hashlock_has_pubkey B (fti_contract_redeemscript info) tweakable_pubkey (fti_hashlock_nonce info))) (\<lambda>_.
     res_bind (map_err (perr MProtocol) (redeemscript_to_scriptpubkey B (fti_contract_redeemscript info))) (\<lambda>contract_spk.
     res_bind (map_err (werr MWallet) (ensure_prevout_matches_cached_contract funding_outpoint contract_spk store)) (\<lambda>_.
     map_err (perr MProtocol) (read_hashvalue_from_contract B (fti_contract_redeemscript info)))))))"

definition pof_entry :: "btc \<Rightarrow> 'x world \<Rightarrow> nat \<Rightarrow> pof_acc \<Rightarrow> funding_tx_info \<Rightarrow> ('x, pof_acc) sact" where
  "pof_entry B X refund_locktime = (\<lambda>(hashvalue, seen_outpoints, funding_confirmed_at) info.
     act_bind (act_lift (map_err (perr MProtocol) (read_contract_locktime B (fti_contract_redeemscript info)))) (\<lambda>locktime.
     act_seq (act_ensure (\<not> saturating_sub locktime refund_locktime < MIN_CONTRACT_REACTION_TIME)
       (MGeneral ''Next hop locktime too close to current hop locktime'')) (
     act_bind (act_lift (map_err (perr MProtocol) (redeemscript_to_scriptpubkey B (fti_multisig_redeemscript info)))) (\<lambda>multisig_spk.
     act_bind (act_lift (ok_or (position (\<lambda>out. to_spk out = multisig_spk) (tx_output (fti_funding_tx info)))
       (MGeneral ''Funding output not found''))) (\<lambda>funding_output_index.
     let funding_txid = b_txid B (fti_funding_tx info);
         funding_outpoint = \<lparr>op_txid = funding_txid, op_vout = funding_output_index\<rparr> in
     act_seq (act_ensure (funding_outpoint \<notin> set seen_outpoints) (MGeneral ''Duplicate funding outpoint'')) (
     act_bind (act_get (\<lambda>s. max (sc_required_confirms (sv_config s)) MIN_REQUIRED_CONFIRM)) (\<lambda>confirms.
     act_seq (sv_wait_for_tx_on_chain X funding_txid confirms) (
     act_bind (backend (wx_get_tx_out X funding_txid funding_output_index)) (\<lambda>unspent.
     act_seq (act_ensure (unspent \<noteq> None) (MGeneral ''Funding output already spent'')) (
     act_bind (on_world (werr MWallet) (wx_tx_block_height X funding_txid)) (\<lambda>height.
     let confirmed_at = (case height of
         Some h \<Rightarrow> Some (case funding_confirmed_at of Some earliest \<Rightarrow> min earliest (h mod 2 ^ 32) | None \<Rightarrow> h mod 2 ^ 32)
       | None \<Rightarrow> funding_confirmed_at) in
     act_bind (act_lift (map_err (werr MWallet) (wx_tweakable_keypair X))) (\<lambda>(_, tweakable_pubkey, _).
     act_bind (act_get (\<lambda>s. w_store (sv_wallet s))) (\<lambda>store.
     act_bind (act_lift (pof_scripts_ok B tweakable_pubkey store funding_outpoint info)) (\<lambda>this_hashvalue.
     act_seq (act_ensure (hashvalue = None \<or> hashvalue = Some this_hashvalue)
       (MGeneral ''Hash values in contracts do not match'')) (
     act_ret (Some this_hashvalue, funding_outpoint # seen_outpoints, confirmed_at))))))))))))))))"

definition record_confirmation :: "swap_id \<Rightarrow> nat option \<Rightarrow> ('x, unit) sact" where
  "record_confirmation swap_id funding_confirmed_at = (case funding_confirmed_at of
     None \<Rightarrow> act_ret ()
   | Some height \<Rightarrow>
       act_seq lock_swaps (act_upd (\<lambda>s. case map_of (sv_swaps s) swap_id of
         Some st \<Rightarrow> s\<lparr>sv_swaps := AList.update swap_id (st\<lparr>ss_funding_confirmation_height := Some height\<rparr>) (sv_swaps s)\<rparr>
       | None \<Rightarrow> s)))"

definition sv_verify_proof_of_funding :: "btc \<Rightarrow> 'x world \<Rightarrow> proof_of_funding \<Rightarrow> ('x, bytes) sact" where
  "sv_verify_proof_of_funding B X message =
     act_seq (act_ensure (pof_confirmed_funding_txes message \<noteq> []) (MGeneral ''No funding txs provided by Taker'')) (
     act_bind (act_foldM (pof_entry B X (pof_refund_locktime message)) (None, [], None) (pof_confirmed_funding_txes message))
       (\<lambda>(hashvalue, _, funding_confirmed_at).
     act_seq (record_confirmation (pof_id message) funding_confirmed_at) (
     act_lift (ok_or hashvalue (MGeneral ''No hashvalue found in contracts'')))))"

text \<open>
  The loop of \<open>initialize_openswap\<close> runs over the five zipped lists; \<open>rng i\<close> is the timelock key pair drawn
  in round \<open>i\<close>.
\<close>

definition openswap_coin ::
    "btc \<Rightarrow> (nat \<Rightarrow> public_key \<times> seckey) \<Rightarrow> bytes \<Rightarrow> nat
     \<Rightarrow> nat \<times> transaction \<times> nat \<times> seckey \<times> public_key \<times> public_key \<Rightarrow> maker_error + outgoing_swapcoin" where
  "openswap_coin B rng hashvalue locktime = (\<lambda>(i, my_funding_tx, utxo_index, my_multisig_privkey, other_multisig_pubkey, hashlock_pubkey).
     let (timelock_pubkey, timelock_privkey) = rng i;
         contract_redeemscript = create_contract_redeemscript B hashlock_pubkey timelock_pubkey hashvalue locktime in
     res_bind (ok_or (nth_opt (tx_output my_funding_tx) utxo_index) MPanic) (\<lambda>out.
     res_bind (map_err (perr MProtocol) (create_senders_contract_tx B
       \<lparr>op_txid = b_txid B my_funding_tx, op_vout = utxo_index\<rparr> (to_value out) contract_redeemscript)) (\<lambda>my_senders_contract_tx.
     Inr ((og_new_legacy B my_multisig_privkey other_multisig_pubkey my_senders_contract_tx contract_redeemscript
       timelock_privkey (to_value out))\<lparr>og_funding_tx := Some my_funding_tx\<rparr>))))"

definition sv_initialize_openswap ::
    "btc \<Rightarrow> 'x world \<Rightarrow> (nat \<Rightarrow> public_key \<times> seckey) \<Rightarrow> amount \<Rightarrow> public_key list \<Rightarrow> public_key list \<Rightarrow> bytes \<Rightarrow> nat \<Rightarrow> f64
     \<Rightarrow> outpoint list option \<Rightarrow> ('x, transaction list \<times> outgoing_swapcoin list \<times> amount) sact" where
  "sv_initialize_openswap B X rng send_amount next_multisig_pubkeys next_hashlock_pubkeys hashvalue locktime contract_feerate
      excluded_outpoints =
     act_seq lock_wallet (
     act_bind (act_mapM (\<lambda>other_key. on_both (wx_create_and_import_swap_address X other_key)) next_multisig_pubkeys) (\<lambda>addresses.
     act_bind (on_both (wx_create_funding_txes X send_amount (map fst addresses) contract_feerate excluded_outpoints)) (\<lambda>result.
     act_bind (act_lift (res_map (openswap_coin B rng hashvalue locktime)
       (enumerate 0 (zip (fr_funding_txes result) (zip (fr_payment_output_positions result)
         (zip (map snd addresses) (zip next_multisig_pubkeys next_hashlock_pubkeys))))))) (\<lambda>outgoing_swapcoins.
     act_ret (fr_funding_txes result, outgoing_swapcoins, fr_total_miner_fee result)))))"

definition sv_find_outgoing_swapcoin :: "btc \<Rightarrow> script \<Rightarrow> 'x server \<Rightarrow> outgoing_swapcoin option" where
  "sv_find_outgoing_swapcoin B multisig_redeemscript s =
     (case (if sv_swaps_poisoned s then None
        else find (\<lambda>c. matches_multisig B (og_protocol c) (og_my_pubkey c) (og_other_pubkey c) multisig_redeemscript)
          (concat (map (ss_outgoing \<circ> snd) (sv_swaps s)))) of
        Some c \<Rightarrow> Some c
      | None \<Rightarrow> if sv_wallet_poisoned s then None
          else find_outgoing_swapcoin_by_multisig B multisig_redeemscript (w_store (sv_wallet s)))"

section \<open>The trait implementation\<close>

definition server_maker :: "btc \<Rightarrow> 'x world \<Rightarrow> (nat \<Rightarrow> public_key \<times> seckey) \<Rightarrow> 'x server maker_ops" where
  "server_maker B X rng = \<lparr>
     mk_is_watchtower_alive = (\<lambda>s. wx_watch_alive X (sv_world s)),
     mk_get_tweakable_keypair = sv_get_tweakable_keypair X,
     mk_get_fidelity_proof = sv_get_fidelity_proof,
     mk_get_config = sv_get_config,
     mk_validate_swap_parameters = sv_validate_swap_parameters X,
     mk_calculate_swap_fee = sv_calculate_swap_fee,
     mk_create_funding_transaction = sv_create_funding_transaction X,
     mk_broadcast_transaction = sv_broadcast_transaction X,
     mk_is_transaction_known = sv_is_transaction_known X,
     mk_save_incoming_swapcoin = sv_save_incoming_swapcoin B,
     mk_save_outgoing_swapcoin = sv_save_outgoing_swapcoin B,
     mk_register_watch_outpoint = sv_register_watch_outpoint X,
     mk_unwatch_outpoint = sv_unwatch_outpoint X,
     mk_sync_and_save_wallet = sv_sync_and_save_wallet X,
     mk_get_raw_transaction = sv_get_raw_transaction B X,
     mk_sweep_incoming_swapcoins = sv_sweep_incoming_swapcoins B X,
     mk_store_connection_state = sv_store_connection_state X,
     mk_get_connection_state = sv_get_connection_state,
     mk_remove_connection_state = remove_swap_state,
     mk_collect_excluded_utxos = sv_collect_excluded_utxos,
     mk_get_current_height = sv_get_current_height X,
     mk_swap_past_refund_deadline = sv_swap_past_refund_deadline X,
     mk_wait_for_tx_on_chain = sv_wait_for_tx_on_chain X,
     mk_verify_and_sign_sender_contract_txs = sv_verify_and_sign_sender_contract_txs B X,
     mk_verify_proof_of_funding = sv_verify_proof_of_funding B X,
     mk_initialize_openswap = sv_initialize_openswap B X rng,
     mk_find_outgoing_swapcoin = sv_find_outgoing_swapcoin B\<rparr>"

section \<open>Stored connection states\<close>

text \<open>
  What the handlers rely on when they store the state of a connection: a stored state is found
  again, a later store for another swap does not disturb it, and looking it up changes nothing.
\<close>

locale connection_store =
  fixes M :: "'m maker_ops" and ready :: "'m \<Rightarrow> bool" and now :: "'m \<Rightarrow> nat"
  assumes store_ready: "ready m \<Longrightarrow> \<exists>m'. mk_store_connection_state M i st False m = (Inr (), m') \<and> ready m'"
    and get_ready: "ready m \<Longrightarrow> \<exists>r. mk_get_connection_state M i m = (Inr r, m)"
    and get_stored: "ready m \<Longrightarrow> mk_store_connection_state M i st False m = (Inr (), m') \<Longrightarrow>
      mk_get_connection_state M i m' = (Inr (Some (st\<lparr>cs_swap_id := Some i, cs_last_activity := now m\<rparr>)), m')"
    and get_other: "ready m \<Longrightarrow> mk_store_connection_state M j st False m = (Inr (), m') \<Longrightarrow> j \<noteq> i \<Longrightarrow>
      fst (mk_get_connection_state M i m') = fst (mk_get_connection_state M i m)"
begin

abbreviation store_all :: "(swap_id \<times> conn) list \<Rightarrow> ('m, maker_error, unit) act" where
  "store_all \<equiv> act_iter (\<lambda>(j, st). mk_store_connection_state M j st False)"

lemma store_others:
  assumes "ready m" "i \<notin> fst ` set others"
  shows "\<exists>m'. store_all others m = (Inr (), m') \<and> ready m' \<and> fst (mk_get_connection_state M i m') = fst (mk_get_connection_state M i m)"
  using assms
proof (induction others arbitrary: m)
  case Nil
  then show ?case by (simp add: act_ret_def)
next
  case (Cons x others)
  obtain j st where x: "x = (j, st)" by (cases x)
  from Cons.prems(1) obtain m1 where m1: "mk_store_connection_state M j st False m = (Inr (), m1)" "ready m1"
    using store_ready by blast
  with Cons.prems x have "fst (mk_get_connection_state M i m1) = fst (mk_get_connection_state M i m)"
    by (intro get_other [of m j st m1 i]) auto
  with Cons.IH [OF m1(2)] Cons.prems(2) m1 show ?case by (auto simp: x act_bind_def)
qed

lemma stored_state_found:
  assumes "ready m" "i \<notin> fst ` set others"
  shows "\<exists>m' t. store_all ((i, st) # others) m = (Inr (), m') \<and> ready m'
    \<and> mk_get_connection_state M i m' = (Inr (Some (st\<lparr>cs_swap_id := Some i, cs_last_activity := t\<rparr>)), m')"
proof -
  from assms(1) obtain m1 where m1: "mk_store_connection_state M i st False m = (Inr (), m1)" "ready m1"
    using store_ready by blast
  from store_others [OF m1(2) assms(2)] obtain m' where m': "store_all others m1 = (Inr (), m')" "ready m'"
    "fst (mk_get_connection_state M i m') = fst (mk_get_connection_state M i m1)" by blast
  moreover from get_ready [OF m'(2)] obtain r where "mk_get_connection_state M i m' = (Inr r, m')" by blast
  ultimately show ?thesis
    using get_stored [OF assms(1) m1(1)] m1(1) by (auto simp: act_bind_def)
qed

lemma reconnected:
  assumes "ready m" "i \<notin> fst ` set others" "cs_swap_amount c = 0 \<or> cs_outgoing c = []"
  shows "\<exists>m'. store_all ((i, st) # others) m = (Inr (), m')
    \<and> restore_state_if_needed M i (m', c) = (Inr (), (m', st\<lparr>cs_swap_id := Some i,
        cs_reserve_utxo := cs_reserve_utxo c, cs_last_activity := cs_last_activity c\<rparr>))"
proof -
  have "restore_conn i (st\<lparr>cs_swap_id := Some i, cs_last_activity := t\<rparr>) c
      = st\<lparr>cs_swap_id := Some i, cs_reserve_utxo := cs_reserve_utxo c, cs_last_activity := cs_last_activity c\<rparr>" for t
    by (cases st, cases c) (simp add: restore_conn_def)
  moreover from stored_state_found [OF assms(1,2), of st] obtain m' t where "store_all ((i, st) # others) m = (Inr (), m')"
    and get: "mk_get_connection_state M i m' = (Inr (Some (st\<lparr>cs_swap_id := Some i, cs_last_activity := t\<rparr>)), m')" by blast
  moreover from get assms(3) have "restore_state_if_needed M i (m', c)
      = (Inr (), (m', restore_conn i (st\<lparr>cs_swap_id := Some i, cs_last_activity := t\<rparr>) c))"
    by (simp add: restore_state_if_needed_def act_bind_def get_c_def on_m_def set_c_def)
  ultimately show ?thesis by auto
qed

end

lemma store_unlocked:
  "sv_store_connection_state X i st False s =
     (if sv_swaps_poisoned s then (Inl MMutexPossion, s)
      else (Inr (), s\<lparr>sv_swaps := AList.update i (write_swap_state (wx_now X (sv_world s)) st
        (case map_of (sv_swaps s) i of Some old \<Rightarrow> old | None \<Rightarrow> swap_state_default (wx_now X (sv_world s)))) (sv_swaps s)\<rparr>))"
  by (simp add: sv_store_connection_state_def store_locked_def lock_swaps_def act_bind_def act_get_def act_upd_def act_ret_def Let_def
      split: option.splits)

lemma get_unlocked:
  "sv_get_connection_state i s =
     (if sv_swaps_poisoned s then (Inl MMutexPossion, s) else (Inr (map_option (conn_of_state i) (map_of (sv_swaps s) i)), s))"
  by (simp add: sv_get_connection_state_def lock_swaps_def act_bind_def act_get_def)

lemma conn_of_written:
  "conn_of_state i (write_swap_state t st old) = st\<lparr>cs_swap_id := Some i, cs_last_activity := t\<rparr>"
  by (cases st) (simp add: conn_of_state_def write_swap_state_def)

lemma server_maker_store:
  "mk_store_connection_state (server_maker B X rng) = sv_store_connection_state X"
  "mk_get_connection_state (server_maker B X rng) = sv_get_connection_state"
  by (simp_all add: server_maker_def)

interpretation server_store: connection_store "server_maker B X rng" "\<lambda>s. \<not> sv_swaps_poisoned s" "\<lambda>s. wx_now X (sv_world s)"
  for B X rng
  by unfold_locales
    (auto simp: server_maker_store store_unlocked get_unlocked update_conv' conn_of_written)

text \<open>
  C10. A taker that reconnects resumes its swap where it was stored. Once the server has stored the
  state of a connection, whatever other swaps are stored after it, a contract message on a new connection
  is handled in exactly that state. The one exception is \<open>reserve_utxo\<close>, which a restored connection
  does not get back.
\<close>

theorem reconnect_resumes:
  assumes "\<not> sv_swaps_poisoned s" "i \<notin> fst ` set others" "cs_swap_amount c = 0 \<or> cs_outgoing c = []"
  shows "\<exists>s'. act_iter (\<lambda>(j, st). sv_store_connection_state X j st False) ((i, st) # others) s = (Inr (), s')
    \<and> restore_state_if_needed (server_maker B X rng) i (s', c) = (Inr (), (s', st\<lparr>cs_swap_id := Some i,
        cs_reserve_utxo := cs_reserve_utxo c, cs_last_activity := cs_last_activity c\<rparr>))"
  using server_store.reconnected [where B = B and X = X and rng = rng, OF assms] by (simp only: server_maker_store)

section \<open>Idle swaps\<close>

lemma delete_keys: "fold AList.delete ks m = filter (\<lambda>(k, _). k \<notin> set ks) m"
  by (induction ks arbitrary: m) (auto simp: AList.delete_eq intro!: filter_cong)

lemma key_in_filter:
  "keys_distinct m \<Longrightarrow> (k, v) \<in> set m \<Longrightarrow> k \<in> fst ` set (filter (\<lambda>(_, v). P v) m) \<longleftrightarrow> P v"
  by (force simp: in_set_map_of)

lemma filter_not_keys:
  assumes "keys_distinct m"
  shows "filter (\<lambda>(k, _). k \<notin> set (map fst (filter (\<lambda>(_, v). P v) m))) m = filter (\<lambda>(_, v). \<not> P v) m"
  using key_in_filter [OF assms, of _ _ P] by (intro filter_cong) auto

lemma take_swaps:
  assumes "distinct ks" "set ks \<subseteq> fst ` set m" "keys_distinct m"
  shows "fold take_swap ks (m, acc) = (filter (\<lambda>(k, _). k \<notin> set ks) m, acc @ map (\<lambda>k. idle_data (k, the (map_of m k))) ks)"
  using assms
proof (induction ks arbitrary: m acc)
  case (Cons k ks)
  then obtain st where st: "map_of m k = Some st" by (auto simp: in_set_map_of)
  have delete_keys_subset: "fst ` set (AList.delete k m) = fst ` set m - {k}" by (force simp: AList.delete_eq)
  have del: "map_of (AList.delete k m) j = map_of m j" if "j \<in> set ks" for j
    using that Cons.prems(1) by (auto simp: delete_conv')
  have "fold take_swap ks (AList.delete k m, acc @ [idle_data (k, st)])
      = (filter (\<lambda>(j, _). j \<notin> set ks) (AList.delete k m),
         (acc @ [idle_data (k, st)]) @ map (\<lambda>j. idle_data (j, the (map_of (AList.delete k m) j))) ks)"
    using Cons.prems by (intro Cons.IH) (auto simp: keys_distinct_delete delete_keys_subset)
  also have "map (\<lambda>j. idle_data (j, the (map_of (AList.delete k m) j))) ks = map (\<lambda>j. idle_data (j, the (map_of m j))) ks"
    using del by simp
  also have "filter (\<lambda>(j, _). j \<notin> set ks) (AList.delete k m) = filter (\<lambda>(j, _). j \<notin> set (k # ks)) m"
    by (auto simp: AList.delete_eq intro!: filter_cong)
  finally show ?case using st by (simp add: take_swap_def)
qed simp

lemma drain_swaps_eq:
  assumes "keys_distinct swaps"
  shows "drain_swaps h now t swaps =
    (filter (\<lambda>(_, st). \<not> (unfunded_reservation st \<and> idle_for now t st) \<and> \<not> needs_recovery h now t st) swaps,
     map idle_data (filter (\<lambda>(_, st). needs_recovery h now t st) swaps))"
proof -
  let ?R = "\<lambda>st. unfunded_reservation st \<and> idle_for now t st" and ?N = "needs_recovery h now t"
  define kept where "kept = filter (\<lambda>(_, st). \<not> ?R st) swaps"
  define stale where "stale = filter (\<lambda>(_, st). ?N st) kept"
  have kept: "fold AList.delete (map fst (filter (\<lambda>(_, st). ?R st) swaps)) swaps = kept"
    using filter_not_keys [OF assms] by (simp add: delete_keys kept_def)
  have d: "keys_distinct kept" using assms by (simp add: kept_def keys_distinct_filter)
  have stale_eq: "stale = filter (\<lambda>(_, st). ?N st) swaps"
    by (auto simp: stale_def kept_def needs_recovery_def unfunded_reservation_def intro!: filter_cong)
  have "fold take_swap (map fst stale) (kept, []) =
      (filter (\<lambda>(k, _). k \<notin> set (map fst stale)) kept, map (\<lambda>k. idle_data (k, the (map_of kept k))) (map fst stale))"
    using take_swaps [of "map fst stale" kept "[]"] d keys_distinct_filter [OF d, of "\<lambda>(_, st). ?N st"]
    by (auto simp: stale_def keys_distinct_def)
  also have "filter (\<lambda>(k, _). k \<notin> set (map fst stale)) kept = filter (\<lambda>(_, st). \<not> ?N st) kept"
    unfolding stale_def by (rule filter_not_keys [OF d])
  also have "\<dots> = filter (\<lambda>(_, st). \<not> ?R st \<and> \<not> ?N st) swaps"
    by (auto simp: kept_def intro!: filter_cong)
  also have "map (\<lambda>k. idle_data (k, the (map_of kept k))) (map fst stale) = map idle_data stale"
    using d by (auto simp: stale_def in_set_map_of)
  finally show ?thesis
    by (simp add: drain_swaps_def Let_def kept stale_def [symmetric] stale_eq)
qed

lemma on_world_swaps: "sv_swaps (snd (on_world h f s)) = sv_swaps s" "sv_swaps_poisoned (snd (on_world h f s)) = sv_swaps_poisoned s"
  by (simp_all add: on_world_def split: prod.splits)

lemma height_keeps_swaps:
  assumes "sv_get_current_height X s = (r, s1)"
  shows "sv_swaps s1 = sv_swaps s" "sv_swaps_poisoned s1 = sv_swaps_poisoned s"
  using assms on_world_swaps [of "werr MWallet" "wx_get_block_count X" s]
  by (auto simp: sv_get_current_height_def act_bind_def lock_wallet_def act_ret_def split: prod.splits sum.splits)

lemma drain_idle_run:
  assumes "drain_idle_swaps X t s = (r, s')"
  obtains "r = Inl MMutexPossion" "sv_swaps s' = sv_swaps s"
  | idle where "r = Inr idle"
    "drain_swaps (res_ok (fst (sv_get_current_height X s))) (wx_now X (sv_world s')) t (sv_swaps s) = (sv_swaps s', idle)"
proof -
  obtain h s1 where h: "sv_get_current_height X s = (h, s1)" by (cases "sv_get_current_height X s")
  obtain swaps idle where d: "drain_swaps (res_ok h) (wx_now X (sv_world s1)) t (sv_swaps s) = (swaps, idle)"
    by (cases "drain_swaps (res_ok h) (wx_now X (sv_world s1)) t (sv_swaps s)")
  show thesis
  proof (cases "sv_swaps_poisoned s1")
    case True
    with assms h height_keeps_swaps [OF h] show ?thesis
      by (intro that(1)) (auto simp: drain_idle_swaps_def act_try_def act_bind_def lock_swaps_def)
  next
    case False
    with assms h d height_keeps_swaps [OF h] have "r = Inr idle \<and> s' = s1\<lparr>sv_swaps := swaps\<rparr>"
      by (auto simp: drain_idle_swaps_def act_try_def act_bind_def lock_swaps_def act_get_def act_upd_def act_ret_def)
    with d h show ?thesis by (intro that(2)) auto
  qed
qed

text \<open>
  Draining idle swaps is exact. A reservation is released only when it is idle and holds no
  coin, no pending transaction and no broadcast; a swap is handed to recovery exactly when it has outgoing coins and
  is idle or past its refund deadline at the height just read; every other swap stays. So no swap that
  holds coins leaves the table without being handed to recovery, with its coins. A swap past
  the reservation phase that has no outgoing coin is never removed.
\<close>

lemma drain_idle_exact:
  assumes "keys_distinct (sv_swaps s)" "drain_idle_swaps X t s = (Inr idle, s')"
  defines "height \<equiv> res_ok (fst (sv_get_current_height X s))" and "now \<equiv> wx_now X (sv_world s')"
  shows "sv_swaps s' = filter (\<lambda>(_, st). \<not> (unfunded_reservation st \<and> idle_for now t st) \<and> \<not> needs_recovery height now t st) (sv_swaps s)
    \<and> idle = map idle_data (filter (\<lambda>(_, st). needs_recovery height now t st) (sv_swaps s))
    \<and> (\<forall>(i, st)\<in>set (sv_swaps s). (i, st) \<in> set (sv_swaps s') \<or> idle_data (i, st) \<in> set idle
        \<or> ss_incoming st = [] \<and> ss_outgoing st = [] \<and> \<not> ss_funding_broadcast st)
    \<and> (\<forall>(i, st)\<in>set (sv_swaps s). ss_outgoing st = [] \<and> ss_phase st \<noteq> AwaitingContractData \<longrightarrow> (i, st) \<in> set (sv_swaps s'))"
proof -
  have eq: "sv_swaps s' = filter (\<lambda>(_, st). \<not> (unfunded_reservation st \<and> idle_for now t st) \<and> \<not> needs_recovery height now t st) (sv_swaps s)
    \<and> idle = map idle_data (filter (\<lambda>(_, st). needs_recovery height now t st) (sv_swaps s))"
    using assms(2) by (cases rule: drain_idle_run) (auto simp: drain_swaps_eq [OF assms(1)] height_def now_def)
  then show ?thesis by (auto simp: unfunded_reservation_def needs_recovery_def)
qed

section \<open>Admission under interleaving\<close>

text \<open>
  The connection threads, the recovery thread and the RPC thread share the table; each holds the
  lock for one of these steps. The liquidity of an admission may be stale. An update is a store by
  a handler whose swap is still in the table: it keeps the negotiated amount and does not
  revive a completed swap. A completed swap whose coins were not all swept is put back as completed.
\<close>

inductive swaps_step :: "'x world \<Rightarrow> 'x server \<Rightarrow> 'x server \<Rightarrow> bool" for X where
  admission: "store_locked X i c (Some l) s = (r, s') \<Longrightarrow> swaps_step X s s'"
| update: "map_of (sv_swaps s) i = Some st \<Longrightarrow> ss_phase st = Completed \<longrightarrow> cs_phase c = Completed
    \<Longrightarrow> cs_swap_amount c = ss_swap_amount st \<Longrightarrow> store_locked X i c None s = (r, s') \<Longrightarrow> swaps_step X s s'"
| unsettled: "cs_phase c = Completed \<Longrightarrow> store_locked X i c None s = (r, s') \<Longrightarrow> swaps_step X s s'"
| remove: "remove_swap_state i s = (r, s') \<Longrightarrow> swaps_step X s s'"
| confirm: "record_confirmation i h s = (r, s') \<Longrightarrow> swaps_step X s s'"
| drain: "drain_idle_swaps X t s = (r, s') \<Longrightarrow> swaps_step X s s'"
| elsewhere: "sv_swaps s' = sv_swaps s \<Longrightarrow> swaps_step X s s'"

inductive_cases swaps_stepE: "swaps_step X s s'"

definition swaps_ok :: "(swap_id \<times> swap_state) list \<Rightarrow> bool" where
  "swaps_ok swaps \<longleftrightarrow> keys_distinct swaps \<and> length (active_swaps swaps) \<le> MAX_CONCURRENT_SWAPS"

definition reserved :: "(swap_id \<times> swap_state) list \<Rightarrow> nat" where
  "reserved swaps = sum_list (map ss_swap_amount (active_swaps swaps))"

lemma active_update:
  assumes "map_of swaps i = Some old" "ss_phase old = Completed \<longrightarrow> ss_phase new = Completed"
  shows "length (active_swaps (AList.update i new swaps)) \<le> length (active_swaps swaps)"
  using assms by (induction swaps) (auto simp: active_swaps_def)

lemma active_filter: "length (active_swaps (filter P swaps)) \<le> length (active_swaps swaps)"
  by (induction swaps) (auto simp: active_swaps_def)

lemma store_new:
  "store_locked X i c (Some l) s = (r, s') \<Longrightarrow> map_of (sv_swaps s) i = None \<Longrightarrow>
     sv_swaps s' = sv_swaps s \<and> r \<noteq> Inr () \<or>
     r = Inr () \<and> admit l c (sv_swaps s) = Inr () \<and>
     sv_swaps s' = sv_swaps s @ [(i, write_swap_state (wx_now X (sv_world s)) c (swap_state_default (wx_now X (sv_world s))))]"
  by (cases "sv_swaps_poisoned s") (auto simp: store_locked_def Let_def lock_swaps_def act_bind_def act_get_def act_upd_def
      act_fail_def update_fresh split: if_splits sum.splits)

lemma store_existing:
  "store_locked X i c (Some l) s = (r, s') \<Longrightarrow> map_of (sv_swaps s) i = Some st \<Longrightarrow>
     sv_swaps s' = sv_swaps s \<and> r \<noteq> Inr () \<or>
     r = Inr () \<and> same_parameters st c \<and> sv_swaps s' = AList.update i (st\<lparr>ss_last_activity := wx_now X (sv_world s)\<rparr>) (sv_swaps s)"
  by (cases "sv_swaps_poisoned s") (auto simp: store_locked_def Let_def lock_swaps_def act_bind_def act_get_def act_upd_def
      act_fail_def update_fresh split: if_splits sum.splits)

lemma store_update:
  "store_locked X i c None s = (r, s') \<Longrightarrow> map_of (sv_swaps s) i = Some st \<Longrightarrow>
     sv_swaps s' = sv_swaps s \<or> sv_swaps s' = AList.update i (write_swap_state (wx_now X (sv_world s)) c st) (sv_swaps s)"
  by (cases "sv_swaps_poisoned s") (auto simp: store_locked_def Let_def lock_swaps_def act_bind_def act_get_def act_upd_def
      act_fail_def update_fresh split: if_splits sum.splits)

lemma store_missing:
  "store_locked X i c None s = (r, s') \<Longrightarrow> map_of (sv_swaps s) i = None \<Longrightarrow>
     sv_swaps s' = sv_swaps s \<or>
     sv_swaps s' = sv_swaps s @ [(i, write_swap_state (wx_now X (sv_world s)) c (swap_state_default (wx_now X (sv_world s))))]"
  by (cases "sv_swaps_poisoned s") (auto simp: store_locked_def Let_def lock_swaps_def act_bind_def act_get_def act_upd_def
      act_fail_def update_fresh split: if_splits sum.splits)

lemma sum_amounts_iff:
  "res_fold (\<lambda>total st. ok_or (checked_add 64 total (ss_swap_amount st)) MPanic) t xs = Inr y \<longleftrightarrow>
     y = t + sum_list (map ss_swap_amount xs) \<and> (xs = [] \<or> t + sum_list (map ss_swap_amount xs) \<le> uint_max 64)"
proof (induction xs arbitrary: t)
  case Nil
  then show ?case by auto
next
  case (Cons x xs)
  show ?case
    by (cases "xs = []") (auto simp: res_simps checked_add_Some_iff Cons.IH add.assoc simp del: uint_max_values)
qed

lemma admit_iff:
  "admit l c swaps = Inr () \<longleftrightarrow> length (active_swaps swaps) < MAX_CONCURRENT_SWAPS
     \<and> reserved swaps + cs_swap_amount c \<le> uint_max 64 \<and> reserved swaps + cs_swap_amount c \<le> l"
  unfolding admit_def reserved_def res_bind_Inr_iff ensure_Inr_iff ok_or_Inr_iff checked_add_Some_iff sum_amounts_iff
  by (simp del: uint_max_values) linarith

lemma active_append: "active_swaps (swaps @ [(i, st)]) = active_swaps swaps @ (if ss_phase st \<noteq> Completed then [st] else [])"
  by (simp add: active_swaps_def)

lemma reserved_append_le:
  "reserved (swaps @ [(i, write_swap_state t c st)]) \<le> reserved swaps + cs_swap_amount c"
  by (simp add: reserved_def active_append write_swap_state_def)

lemma drained_is_filter:
  assumes "drain_idle_swaps X t s = (r, s')" "keys_distinct (sv_swaps s)"
  obtains P where "sv_swaps s' = filter P (sv_swaps s)"
  using assms(1)
proof (cases rule: drain_idle_run)
  case 1
  then show thesis by (intro that [of "\<lambda>_. True"]) simp
next
  case (2 idle)
  from 2(2) [symmetric] show thesis unfolding drain_swaps_eq [OF assms(2)] by (intro that) simp
qed

lemma swaps_step_ok:
  assumes "swaps_step X s s'" "swaps_ok (sv_swaps s)"
  shows "swaps_ok (sv_swaps s')"
  using assms(1)
proof cases
  case (admission i c l r)
  show ?thesis
  proof (cases "map_of (sv_swaps s) i")
    case None
    then have "i \<notin> fst ` set (sv_swaps s)" by (simp add: map_of_eq_None_iff)
    with store_new [OF admission None] assms(2) show ?thesis
      by (auto simp: swaps_ok_def admit_iff active_append keys_distinct_def)
  next
    case (Some st)
    from store_existing [OF admission Some] assms(2) active_update [OF Some, of "st\<lparr>ss_last_activity := wx_now X (sv_world s)\<rparr>"]
    show ?thesis by (auto simp: swaps_ok_def keys_distinct_update)
  qed
next
  case (update i st c r)
  from store_update [OF update(4,1)] assms(2) update active_update [OF update(1), of "write_swap_state (wx_now X (sv_world s)) c st"]
  show ?thesis by (auto simp: swaps_ok_def keys_distinct_update write_swap_state_def)
next
  case (unsettled c i r)
  show ?thesis
  proof (cases "map_of (sv_swaps s) i")
    case None
    then have "i \<notin> fst ` set (sv_swaps s)" by (simp add: map_of_eq_None_iff)
    with store_missing [OF unsettled(2) None] assms(2) unsettled(1) show ?thesis
      by (auto simp: swaps_ok_def active_append keys_distinct_def write_swap_state_def)
  next
    case (Some st)
    from store_update [OF unsettled(2) Some] assms(2) unsettled(1)
      active_update [OF Some, of "write_swap_state (wx_now X (sv_world s)) c st"]
    show ?thesis by (auto simp: swaps_ok_def keys_distinct_update write_swap_state_def)
  qed
next
  case (remove i r)
  then have "sv_swaps s' = sv_swaps s \<or> sv_swaps s' = filter (\<lambda>(k, _). i \<noteq> k) (sv_swaps s)"
    by (cases "sv_swaps_poisoned s") (auto simp: remove_swap_state_def lock_swaps_def act_bind_def act_upd_def AList.delete_eq)
  with assms(2) active_filter [of "\<lambda>(k, _). i \<noteq> k" "sv_swaps s"] show ?thesis
    by (auto simp: swaps_ok_def keys_distinct_filter)
next
  case (confirm i h r)
  then have "sv_swaps s' = sv_swaps s \<or> (\<exists>st h. map_of (sv_swaps s) i = Some st
      \<and> sv_swaps s' = AList.update i (st\<lparr>ss_funding_confirmation_height := h\<rparr>) (sv_swaps s))"
    by (cases "sv_swaps_poisoned s") (auto simp: record_confirmation_def lock_swaps_def act_bind_def act_upd_def act_ret_def split: option.splits)
  then show ?thesis
  proof (elim disjE exE conjE)
    fix st h
    assume st: "map_of (sv_swaps s) i = Some st" "sv_swaps s' = AList.update i (st\<lparr>ss_funding_confirmation_height := h\<rparr>) (sv_swaps s)"
    with active_update [OF st(1), of "st\<lparr>ss_funding_confirmation_height := h\<rparr>"] assms(2) show ?thesis
      by (simp add: swaps_ok_def keys_distinct_update)
  qed (use assms(2) in simp)
next
  case (drain t r)
  moreover from assms(2) have "keys_distinct (sv_swaps s)" by (simp add: swaps_ok_def)
  ultimately obtain P where "sv_swaps s' = filter P (sv_swaps s)" by (rule drained_is_filter)
  with assms(2) active_filter [of P "sv_swaps s"] show ?thesis by (auto simp: swaps_ok_def keys_distinct_filter)
next
  case elsewhere
  with assms(2) show ?thesis by simp
qed


section \<open>Accepted swaps\<close>

lemma locked_blocks_props:
  assumes "locked_blocks X d s = (Inr blocks, s')"
  shows "MIN_CONTRACT_REACTION_TIME \<le> blocks \<and> sv_swaps s' = sv_swaps s \<and> sv_config s' = sv_config s \<and>
    (case sd_protocol_version d of
       Legacy \<Rightarrow> blocks = sd_timelock d
     | Taproot \<Rightarrow> blocks = sd_refund_locktime_offset d \<and> (\<exists>height. fst (sv_get_current_height X s) = Inr height
         \<and> saturating_add 32 height MIN_CONTRACT_REACTION_TIME \<le> saturating_add 32 (sd_timelock d) REFUND_LOCKTIME_STEP))"
proof (cases "sd_protocol_version d")
  case Legacy
  with assms show ?thesis by (auto simp: locked_blocks_def act_simps)
next
  case Taproot
  with assms obtain height where h: "sv_get_current_height X s = (Inr height, s')"
    and rest: "\<not> saturating_add 32 (sd_timelock d) REFUND_LOCKTIME_STEP < saturating_add 32 height MIN_CONTRACT_REACTION_TIME"
      "offset_meets_reaction_time (sd_refund_locktime_offset d)" "blocks = sd_refund_locktime_offset d"
    by (auto simp: locked_blocks_def act_simps)
  moreover from h have "sv_config s' = sv_config s"
    by (auto simp: sv_get_current_height_def on_world_def act_bind_def lock_wallet_def act_ret_def split: prod.splits sum.splits)
  ultimately show ?thesis using Taproot height_keeps_swaps [OF h] by (auto simp: offset_meets_reaction_time_def)
qed

lemma validated:
  assumes "sv_validate_swap_parameters X d s = (Inr offset, s')"
  shows "sc_min_swap_amount (sv_config s) \<le> sd_amount d \<and> sd_amount d \<le> mc_max_swap_amount (sv_get_config s)
    \<and> sd_protocol_version d \<in> set (sc_supported_protocols (sv_config s)) \<and> liquidity_check d s = Inr ()
    \<and> offset \<le> uint_max 16 \<and> locked_blocks X d s = (Inr offset, s')"
  using assms
  by (auto simp: sv_validate_swap_parameters_def act_simps sv_get_config_def not_less)

lemma swap_liquidity_run:
  "swap_liquidity s = (Inr l, s') \<Longrightarrow> s' = s"
  by (auto simp: swap_liquidity_def lock_wallet_def act_bind_def act_get_def act_lift_def split: sum.splits)

lemma admission_stored:
  assumes "sv_store_connection_state X i c True s = (Inr (), s')"
  obtains l st where "swap_liquidity s = (Inr l, s)" "store_locked X i c (Some l) s = (Inr (), s')"
    "map_of (sv_swaps s') i = Some st" "same_parameters st c"
proof -
  from assms obtain l s1 where liq: "swap_liquidity s = (Inr l, s1)" and store: "store_locked X i c (Some l) s1 = (Inr (), s')"
    by (auto simp: sv_store_connection_state_def act_simps)
  moreover from liq have s1: "s1 = s" by (rule swap_liquidity_run)
  moreover obtain st where "map_of (sv_swaps s') i = Some st" "same_parameters st c"
  proof (cases "map_of (sv_swaps s) i")
    case None
    with store_new [of X i c l s "Inr ()" s'] store s1 that show ?thesis
      by (auto simp: same_parameters_def write_swap_state_def map_add_def)
  next
    case (Some st)
    with store_existing [of X i c l s "Inr ()" s' st] store s1 that show ?thesis
      by (auto simp: update_conv' same_parameters_def)
  qed
  ultimately show ?thesis using that by blast
qed

lemma keypair_keeps: "sv_get_tweakable_keypair X s = (r, s') \<Longrightarrow> s' = s"
  by (auto simp: sv_get_tweakable_keypair_def lock_wallet_def act_bind_def act_lift_def split: sum.splits)

text \<open>
  What a maker commits to when it accepts a swap: its watchtower is up, the amount is within its offer
  and the protocol one it supports, its funds stay locked for 10 to 65535 blocks (the timelock itself for a
  legacy swap, the declared offset for a taproot swap, whose timelock must leave enough reaction time at the height just read), the fee recorded is
  the protocol's fee for that time, and the swap is in the table with exactly these parameters.
\<close>

lemma accepted_swap:
  assumes "handle_message B (server_maker B X rng) rng' clk (TmSwapDetails d) (s, c)
      = (Inr (Some (MtAckSwapDetails (ack_accept k))), (s', c'))"
  shows "wx_watch_alive X (sv_world s)
    \<and> sc_min_swap_amount (sv_config s) \<le> sd_amount d \<and> sd_amount d \<le> mc_max_swap_amount (sv_get_config s)
    \<and> sd_protocol_version d \<in> set (sc_supported_protocols (sv_config s))
    \<and> 10 \<le> cs_refund_locktime_offset c' \<and> cs_refund_locktime_offset c' \<le> 65535
    \<and> (case sd_protocol_version d of
         Legacy \<Rightarrow> cs_refund_locktime_offset c' = sd_timelock d
       | Taproot \<Rightarrow> cs_refund_locktime_offset c' = sd_refund_locktime_offset d
           \<and> (\<exists>height. fst (sv_get_current_height X s) = Inr height
             \<and> saturating_add 32 height 10 \<le> saturating_add 32 (sd_timelock d) 20))
    \<and> cs_service_fee_sats c' = calculate_swap_fee (sd_amount d) (cs_refund_locktime_offset c') (sc_base_fee (sv_config s))
        (sc_amount_relative_fee_pct (sv_config s)) (sc_time_relative_fee_pct (sv_config s))
    \<and> cs_phase c' = AwaitingContractData \<and> cs_swap_amount c' = sd_amount d
    \<and> (\<exists>st. map_of (sv_swaps s') (sd_id d) = Some st \<and> same_parameters st c')"
proof -
  let ?M = "server_maker B X rng"
  from assms have "handle_swap_details ?M (clk 1) d (s, touch (clk 0) c) = (Inr (Some (MtAckSwapDetails (ack_accept k))), (s', c'))"
    by (simp add: handle_message_def act_simps)
  then obtain offset m1 m2 sk cc where alive: "mk_is_watchtower_alive ?M s"
    and val: "mk_validate_swap_parameters ?M d s = (Inr offset, m1)" and c': "c' = accepted_conn ?M (clk 1) d offset m1 (touch (clk 0) c)"
    and store: "mk_store_connection_state ?M (sd_id d) c' True m1 = (Inr (), m2)"
    and key: "mk_get_tweakable_keypair ?M m2 = (Inr (sk, k, cc), s')"
    by (cases rule: swap_details_cases) (auto simp: ack_reject_def ack_accept_def)
  from val have v: "sv_validate_swap_parameters X d s = (Inr offset, m1)" by (simp add: server_maker_def)
  note checks = validated [OF v]
  note blocks = locked_blocks_props [OF checks [THEN conjunct2, THEN conjunct2, THEN conjunct2, THEN conjunct2, THEN conjunct2]]
  from store obtain st where st: "map_of (sv_swaps m2) (sd_id d) = Some st" "same_parameters st c'"
    unfolding server_maker_store by (rule admission_stored)
  from key have "s' = m2" by (intro keypair_keeps [of X]) (simp add: server_maker_def)
  moreover have "mk_calculate_swap_fee ?M (sd_amount d) offset m1 = calculate_swap_fee (sd_amount d) offset
      (sc_base_fee (sv_config s)) (sc_amount_relative_fee_pct (sv_config s)) (sc_time_relative_fee_pct (sv_config s))"
    using blocks by (simp add: server_maker_def sv_calculate_swap_fee_def calculate_swap_fee_def)
  moreover from alive have "wx_watch_alive X (sv_world s)" by (simp add: server_maker_def)
  moreover note accepted_conn_fields [of ?M "clk 1" d offset m1 "touch (clk 0) c", folded c']
  ultimately show ?thesis
    using checks blocks st
    by (cases "sd_protocol_version d") (simp_all add: MIN_CONTRACT_REACTION_TIME_def REFUND_LOCKTIME_STEP_def)
qed

section \<open>A concrete server\<close>

definition sample_world :: "unit world" where
  "sample_world = \<lparr>wx_now = (\<lambda>_. 2000000), wx_watch_alive = (\<lambda>_. True), wx_watch = (\<lambda>_ _. act_ret ()), wx_unwatch = (\<lambda>_ _. act_ret ()),
     wx_new_connection = act_ret (), wx_get_block_count = act_ret 100, wx_send_raw_transaction = (\<lambda>_. act_ret []),
     wx_get_raw_transaction = (\<lambda>_. act_ret sample_tx), wx_get_tx_out = (\<lambda>_ _. act_ret (Some \<lparr>to_value = 100000, to_spk = []\<rparr>)),
     wx_tx_block_height = (\<lambda>_. act_ret (Some 90)), wx_wait_for_tx_confirmation = (\<lambda>_ _. act_ret ()),
     wx_tweakable_keypair = Inr (replicate 32 5, compressed_key (2 # replicate 32 5), []),
     wx_create_funding_txes = (\<lambda>_ _ _ _. act_ret \<lparr>fr_funding_txes = [], fr_payment_output_positions = [], fr_total_miner_fee = 0\<rparr>),
     wx_create_and_import_swap_address = (\<lambda>_. act_ret ([], [])), wx_sync_and_save = act_ret (),
     wx_sweep_incoming_swapcoins = (\<lambda>_. act_ret \<lparr>ro_resolved = [], ro_discarded = []\<rparr>)\<rparr>"

definition sample_utxo :: utxo where
  "sample_utxo = \<lparr>ut_txid = [7], ut_vout = 0, ut_spk = [], ut_amount = 500000, ut_witness_script = None, ut_descriptor = None\<rparr>"

definition sample_server :: "unit server" where
  "sample_server = \<lparr>
     sv_config = \<lparr>sc_base_fee = 500, sc_amount_relative_fee_pct = 0, sc_time_relative_fee_pct = 0, sc_min_swap_amount = 10000,
       sc_required_confirms = 1, sc_supported_protocols = [Legacy, Taproot]\<rparr>,
     sv_wallet = empty_wallet\<lparr>w_store := empty_store\<lparr>ws_offer_maxsize := 500000,
       ws_utxo_cache := [(ut_outpoint sample_utxo, sample_utxo, SeedCoin [] 500000 P2WPKH)]\<rparr>\<rparr>,
     sv_swaps = [], sv_fidelity_proof = None, sv_wallet_poisoned = False, sv_swaps_poisoned = False, sv_fidelity_poisoned = False,
     sv_world = ()\<rparr>"

lemma sample_world_ops:
  "wx_now sample_world u = 2000000" "wx_watch_alive sample_world u" "wx_get_block_count sample_world = act_ret 100"
  "wx_new_connection sample_world = act_ret ()" "wx_wait_for_tx_confirmation sample_world ts n = act_ret ()"
  "wx_get_tx_out sample_world t v = act_ret (Some \<lparr>to_value = 100000, to_spk = []\<rparr>)" "wx_tx_block_height sample_world t = act_ret (Some 90)"
  "wx_tweakable_keypair sample_world = Inr (replicate 32 5, compressed_key (2 # replicate 32 5), [])"
  by (simp_all add: sample_world_def)

theorem reconnect_resumes_witness:
  "\<exists>s'. sv_store_connection_state sample_world ''s'' sample_taproot_conn False sample_server = (Inr (), s')
    \<and> restore_state_if_needed (server_maker sample_lib sample_world (\<lambda>_. (compressed_key [], []))) ''s'' (s', conn_default 7)
      = (Inr (), (s', sample_taproot_conn\<lparr>cs_swap_id := Some ''s'', cs_reserve_utxo := [], cs_last_activity := 7\<rparr>))"
proof -
  have "\<not> sv_swaps_poisoned sample_server" "cs_swap_amount (conn_default 7) = 0 \<or> cs_outgoing (conn_default 7) = []"
    "cs_reserve_utxo (conn_default 7) = []" "cs_last_activity (conn_default 7) = 7"
    by (simp_all add: sample_server_def conn_default_def)
  with reconnect_resumes [of sample_server "''s''" "[]" "conn_default 7" sample_world sample_taproot_conn sample_lib
      "\<lambda>_. (compressed_key [], [])"]
  show ?thesis by (auto simp: act_simps)
qed

definition stale_swap :: swap_state where
  "stale_swap = (swap_state_default 0)\<lparr>ss_outgoing := [sample_out_coin], ss_phase := AwaitingSignaturesOrPreimage\<rparr>"

lemma drain_idle_exact_witness:
  "\<exists>idle s'. drain_idle_swaps sample_world 900000 (sample_server\<lparr>sv_swaps := [(''s'', stale_swap)]\<rparr>) = (Inr idle, s')
     \<and> idle_data (''s'', stale_swap) \<in> set idle \<and> sv_swaps s' = []"
proof -
  let ?s = "sample_server\<lparr>sv_swaps := [(''s'', stale_swap)]\<rparr>"
  have "\<exists>idle s'. drain_idle_swaps sample_world 900000 ?s = (Inr idle, s')"
    by (simp add: drain_idle_swaps_def sv_get_current_height_def act_try_def act_bind_def lock_wallet_def lock_swaps_def on_world_def
        sample_world_ops act_ret_def act_get_def act_upd_def sample_server_def split_def)
  then obtain idle s' where run: "drain_idle_swaps sample_world 900000 ?s = (Inr idle, s')" by blast
  have "keys_distinct (sv_swaps ?s)" by (simp add: keys_distinct_def)
  from drain_idle_exact [OF this run] run show ?thesis
    by (simp add: needs_recovery_def unfunded_reservation_def idle_for_def stale_swap_def swap_state_default_def sample_world_ops)
qed


lemma sample_balances:
  "get_balances (w_store (sv_wallet sample_server)) =
     Inr \<lparr>bal_regular = 500000, bal_swap = 0, bal_contract = 0, bal_fidelity = 0, bal_spendable = 500000\<rparr>"
  by (simp add: sample_server_def empty_wallet_def empty_store_def get_balances_def sum_utxo_amounts_def list_descriptor_utxo_spend_info_def
      list_live_timelock_contract_spend_info_def list_swept_incoming_swap_utxos_def list_fidelity_spend_info_def
      list_all_utxo_spend_info_def sample_utxo_def checked_add_def)

lemma sample_server_fields:
  "sv_swaps sample_server = []" "\<not> sv_wallet_poisoned sample_server" "\<not> sv_swaps_poisoned sample_server"
  "sc_min_swap_amount (sv_config sample_server) = 10000" "sc_supported_protocols (sv_config sample_server) = [Legacy, Taproot]"
  "ws_offer_maxsize (w_store (sv_wallet sample_server)) = 500000" "sv_world sample_server = ()"
  by (simp_all add: sample_server_def)

lemma sample_height: "sv_get_current_height sample_world sample_server = (Inr 100, sample_server)"
  by (simp add: sv_get_current_height_def act_bind_def lock_wallet_def on_world_def sample_world_ops act_ret_def sample_server_fields)

lemma sample_validated: "sv_validate_swap_parameters sample_world sample_details sample_server = (Inr 40, sample_server)"
proof -
  have "locked_blocks sample_world sample_details sample_server = (Inr 40, sample_server)"
    by (simp add: locked_blocks_def sample_details_def act_bind_def sample_height act_ensure_def act_lift_def act_ret_def
        offset_meets_reaction_time_def saturating_add_def REFUND_LOCKTIME_STEP_def MIN_CONTRACT_REACTION_TIME_def)
  moreover have "liquidity_check sample_details sample_server = Inr ()"
    by (simp add: liquidity_check_def sample_balances sample_server_fields swap_liquidity_of_def checked_add_def sample_details_def)
  ultimately show ?thesis
    by (simp add: sv_validate_swap_parameters_def act_bind_def act_get_def act_ensure_def act_lift_def act_ret_def sv_get_config_def
        sample_server_fields sample_details_def)
qed

lemma sample_admitted:
  assumes "cs_swap_amount c = 100000"
  shows "\<exists>s'. sv_store_connection_state sample_world i c True sample_server = (Inr (), s')
    \<and> sv_get_tweakable_keypair sample_world s' = (Inr (replicate 32 5, compressed_key (2 # replicate 32 5), []), s')"
proof -
  have "swap_liquidity sample_server = (Inr 500000, sample_server)"
    by (simp add: swap_liquidity_def act_bind_def lock_wallet_def act_get_def act_lift_def sample_balances sample_server_fields
        swap_liquidity_of_def checked_add_def)
  with assms show ?thesis
    by (simp add: sv_store_connection_state_def act_bind_def act_ret_def store_locked_def Let_def lock_swaps_def act_get_def act_upd_def
        sample_server_fields admit_def active_swaps_def MAX_CONCURRENT_SWAPS_def checked_add_def sv_get_tweakable_keypair_def
        lock_wallet_def act_lift_def sample_world_ops)
qed

lemma accepted_swap_witness:
  "\<exists>k s' c'. handle_message sample_lib (server_maker sample_lib sample_world (\<lambda>_. (compressed_key [], []))) sample_rng id
        (TmSwapDetails sample_details) (sample_server, offered_conn) = (Inr (Some (MtAckSwapDetails (ack_accept k))), (s', c'))
     \<and> 10 \<le> cs_refund_locktime_offset c' \<and> (\<exists>st. map_of (sv_swaps s') ''s'' = Some st \<and> same_parameters st c')"
proof -
  let ?M = "server_maker sample_lib sample_world (\<lambda>_. (compressed_key [], []))"
  have ops: "mk_is_watchtower_alive ?M sample_server" "mk_validate_swap_parameters ?M sample_details sample_server = (Inr 40, sample_server)"
    "mk_get_tweakable_keypair ?M = sv_get_tweakable_keypair sample_world"
    "mk_store_connection_state ?M = sv_store_connection_state sample_world"
    by (simp_all add: server_maker_def sample_world_ops sample_validated)
  let ?c = "accepted_conn ?M 1 sample_details 40 sample_server (touch 0 offered_conn)"
  have "cs_swap_amount ?c = 100000" by (simp add: accepted_conn_fields) (simp add: sample_details_def)
  then obtain s' where "sv_store_connection_state sample_world ''s'' ?c True sample_server = (Inr (), s')"
    "sv_get_tweakable_keypair sample_world s' = (Inr (replicate 32 5, compressed_key (2 # replicate 32 5), []), s')"
    using sample_admitted by blast
  then have run: "handle_message sample_lib ?M sample_rng id (TmSwapDetails sample_details) (sample_server, offered_conn)
      = (Inr (Some (MtAckSwapDetails (ack_accept (compressed_key (2 # replicate 32 5))))), (s', ?c))"
    by (simp add: handle_message_def handle_swap_details_def accept_details_run act_bind_def act_try_def set_c_def on_c_def get_c_def
        get_m_def on_m_def expect_phase_def act_ret_def ops offered_phase)
      (simp add: sample_details_def)
  have "sd_id sample_details = ''s''" by (simp add: sample_details_def)
  with accepted_swap [OF run] run show ?thesis by auto
qed

end
