(* ===== verification/MakerFunding.thy ===== *)
theory MakerFunding
  imports MakerServer
begin

text \<open>
  What a verified proof of funding means for the server of \<open>maker/api.rs\<close>: the checks of
  \<open>verify_proof_of_funding\<close> on every funding transaction, and the two contracts they tie together.
  A second part signs the taker's contracts (\<open>verify_and_sign_sender_contract_txs\<close>), whose
  cached bindings the proof of funding is later compared with.
\<close>

section \<open>Calls that succeed\<close>

lemma lock_wallet_iff [act_simps]: "lock_wallet s = (Inr u, s') \<longleftrightarrow> \<not> sv_wallet_poisoned s \<and> s' = s"
  by (auto simp: lock_wallet_def res_simps)

lemma lock_swaps_iff [act_simps]: "lock_swaps s = (Inr u, s') \<longleftrightarrow> \<not> sv_swaps_poisoned s \<and> s' = s"
  by (auto simp: lock_swaps_def res_simps)

lemma on_world_Inr_iff [act_simps]:
  "on_world h f s = (Inr x, s') \<longleftrightarrow> (\<exists>w. f (sv_world s) = (Inr x, w) \<and> s' = s\<lparr>sv_world := w\<rparr>)"
  by (auto simp: on_world_def res_simps split: prod.splits)

lemma act_lift_ok: "act_lift q s = (Inr x, t) \<longleftrightarrow> q = Inr x \<and> t = s"
  by (auto simp: act_lift_def)

section \<open>One funding transaction\<close>

text \<open>
  \<open>funding_checked B X s refund h info op\<close>: the contract of \<open>info\<close> is locked at least ten blocks longer than the
  maker's refund, \<open>op\<close> is the output of the funding transaction that pays to the multisig, the backend
  saw the transaction confirmed as often as configured and reported the output unspent, and both scripts hold the maker's keys, agree
  with the contract cached for \<open>op\<close> and carry the hash \<open>h\<close>.
\<close>

definition funding_checked :: "btc \<Rightarrow> 'x world \<Rightarrow> 'x server \<Rightarrow> nat \<Rightarrow> bytes \<Rightarrow> funding_tx_info \<Rightarrow> outpoint \<Rightarrow> bool" where
  "funding_checked B X s refund h info op \<longleftrightarrow>
     (\<exists>locktime. read_contract_locktime B (fti_contract_redeemscript info) = Inr locktime \<and> refund + 10 \<le> locktime)
   \<and> op_txid op = b_txid B (fti_funding_tx info)
   \<and> (\<exists>out. nth_opt (tx_output (fti_funding_tx info)) (op_vout op) = Some out
        \<and> redeemscript_to_scriptpubkey B (fti_multisig_redeemscript info) = Inr (to_spk out))
   \<and> (\<exists>n x x'. sc_required_confirms (sv_config s) \<le> n \<and> 1 \<le> n \<and> wx_wait_for_tx_confirmation X [op_txid op] n x = (Inr (), x'))
   \<and> (\<exists>x x' out. wx_get_tx_out X (op_txid op) (op_vout op) x = (Inr (Some out), x'))
   \<and> (\<exists>sk pk cc. wx_tweakable_keypair X = Inr (sk, pk, cc)
        \<and> check_multisig_has_pubkey B (fti_multisig_redeemscript info) pk (fti_multisig_nonce info) = Inr ()
        \<and> check_hashlock_has_pubkey B (fti_contract_redeemscript info) pk (fti_hashlock_nonce info) = Inr ())
   \<and> (\<exists>spk. redeemscript_to_scriptpubkey B (fti_contract_redeemscript info) = Inr spk
        \<and> map_of (ws_prevout_to_contract (w_store (sv_wallet s))) op = Some spk)
   \<and> read_hashvalue_from_contract B (fti_contract_redeemscript info) = Inr h"

lemma pof_scripts_okD:
  assumes "pof_scripts_ok B pk store op info = Inr h"
  shows "check_multisig_has_pubkey B (fti_multisig_redeemscript info) pk (fti_multisig_nonce info) = Inr ()"
    "check_hashlock_has_pubkey B (fti_contract_redeemscript info) pk (fti_hashlock_nonce info) = Inr ()"
    "\<exists>spk. redeemscript_to_scriptpubkey B (fti_contract_redeemscript info) = Inr spk \<and> map_of (ws_prevout_to_contract store) op = Some spk"
    "read_hashvalue_from_contract B (fti_contract_redeemscript info) = Inr h"
  using assms
  by (auto simp: pof_scripts_ok_def res_simps ensure_prevout_matches_cached_contract_def split: option.splits if_splits)

lemma pof_entry_checked:
  assumes "pof_entry B X refund (hv, seen, conf) info s = (Inr (hv', seen', conf'), s')"
  obtains op h where "funding_checked B X s refund h info op" "op \<notin> set seen" "seen' = op # seen" "hv' = Some h"
    "hv = None \<or> hv = Some h" "sv_wallet s' = sv_wallet s" "sv_config s' = sv_config s"
proof -
  define op where "op = (\<lambda>i. \<lparr>op_txid = b_txid B (fti_funding_tx info), op_vout = i\<rparr>)"
  from assms obtain locktime spk i w1 w2 w3 w4 hgt out sk pk cc h where
    lt: "read_contract_locktime B (fti_contract_redeemscript info) = Inr locktime" "\<not> locktime - refund < 10"
    and spk: "redeemscript_to_scriptpubkey B (fti_multisig_redeemscript info) = Inr spk"
    and pos: "position (\<lambda>out. to_spk out = spk) (tx_output (fti_funding_tx info)) = Some i"
    and fresh: "op i \<notin> set seen"
    and wait: "wx_wait_for_tx_confirmation X [b_txid B (fti_funding_tx info)]
        (max (sc_required_confirms (sv_config s)) MIN_REQUIRED_CONFIRM) w1 = (Inr (), w2)"
    and unspent: "wx_get_tx_out X (b_txid B (fti_funding_tx info)) i w2 = (Inr (Some out), w3)"
    and hgt: "wx_tx_block_height X (b_txid B (fti_funding_tx info)) w3 = (Inr hgt, w4)"
    and key: "wx_tweakable_keypair X = Inr (sk, pk, cc)"
    and scripts: "pof_scripts_ok B pk (w_store (sv_wallet s)) (op i) info = Inr h"
    and fin: "hv = None \<or> hv = Some h" "hv' = Some h" "seen' = op i # seen" "s' = s\<lparr>sv_world := w4\<rparr>"
    by (auto simp: pof_entry_def Let_def sv_wait_for_tx_on_chain_def act_simps act_lift_ok res_simps saturating_sub_def op_def
        MIN_CONTRACT_REACTION_TIME_def simp del: act_lift_iff)
  from pos have out: "nth_opt (tx_output (fti_funding_tx info)) i = Some (tx_output (fti_funding_tx info) ! i)"
    "to_spk (tx_output (fti_funding_tx info) ! i) = spk" by (auto simp: position_Some_iff nth_opt_def)
  have "funding_checked B X s refund h info (op i)"
    unfolding funding_checked_def
  proof (intro conjI)
    show "\<exists>l. read_contract_locktime B (fti_contract_redeemscript info) = Inr l \<and> refund + 10 \<le> l" using lt by auto
    show "\<exists>n x x'. sc_required_confirms (sv_config s) \<le> n \<and> 1 \<le> n \<and> wx_wait_for_tx_confirmation X [op_txid (op i)] n x = (Inr (), x')"
      using wait by (intro exI [of _ "max (sc_required_confirms (sv_config s)) MIN_REQUIRED_CONFIRM"])
        (auto simp: op_def MIN_REQUIRED_CONFIRM_def)
  qed (use out spk unspent key pof_scripts_okD [OF scripts] in \<open>auto simp: op_def\<close>)
  then show thesis using fresh fin by (intro that) auto
qed

section \<open>The whole proof\<close>

lemma pof_entries_checked:
  assumes "act_foldM (pof_entry B X refund) (hv, seen, conf) infos s = (Inr (hv', seen', conf'), s')" "infos \<noteq> []"
  shows "\<exists>h ops. hv' = Some h \<and> (hv = None \<or> hv = Some h) \<and> list_all2 (funding_checked B X s refund h) infos ops
    \<and> distinct ops \<and> set ops \<inter> set seen = {}"
  using assms
proof (induction infos arbitrary: hv seen conf s)
  case (Cons info infos)
  from Cons.prems(1) obtain hv1 seen1 conf1 s1 where step: "pof_entry B X refund (hv, seen, conf) info s = (Inr (hv1, seen1, conf1), s1)"
    and rest: "act_foldM (pof_entry B X refund) (hv1, seen1, conf1) infos s1 = (Inr (hv', seen', conf'), s')"
    by (auto simp: act_simps)
  from step obtain op h where op: "funding_checked B X s refund h info op" "op \<notin> set seen" "seen1 = op # seen" "hv1 = Some h"
    "hv = None \<or> hv = Some h" and same: "sv_wallet s1 = sv_wallet s" "sv_config s1 = sv_config s" by (rule pof_entry_checked)
  show ?case
  proof (cases "infos = []")
    case True
    with rest op show ?thesis by (intro exI [of _ h] exI [of _ "[op]"]) (auto simp: act_simps)
  next
    case False
    from Cons.IH [OF rest False] obtain h' ops where ih: "hv' = Some h'" "hv1 = None \<or> hv1 = Some h'"
      "list_all2 (funding_checked B X s1 refund h') infos ops" "distinct ops" "set ops \<inter> set seen1 = {}" by blast
    have "funding_checked B X s1 refund h' = funding_checked B X s refund h'"
      using same by (simp add: funding_checked_def fun_eq_iff)
    with ih op show ?thesis by (intro exI [of _ h'] exI [of _ "op # ops"]) auto
  qed
qed simp

text \<open>
  C8. A verified proof of funding is backed by distinct confirmed outputs. If
  \<open>verify_proof_of_funding\<close> returns the hash \<open>h\<close>, there is at least one funding transaction, and to each belongs an outpoint of
  its own, no two the same, that the chain backend confirmed as often as the maker requires and reported unspent;
  its output pays to a multisig with the maker's key, its contract pays the maker under the
  same hash \<open>h\<close>, is locked at least 10 blocks longer than the maker's refund, and is the contract the maker had cached for that outpoint.
\<close>

theorem verified_funding:
  assumes "sv_verify_proof_of_funding B X pof s = (Inr h, s')"
  shows "pof_confirmed_funding_txes pof \<noteq> [] \<and>
    (\<exists>ops. distinct ops \<and> list_all2 (funding_checked B X s (pof_refund_locktime pof) h) (pof_confirmed_funding_txes pof) ops)"
proof -
  from assms obtain seen conf s1 where ne: "pof_confirmed_funding_txes pof \<noteq> []"
    and run: "act_foldM (pof_entry B X (pof_refund_locktime pof)) (None, [], None) (pof_confirmed_funding_txes pof) s
      = (Inr (Some h, seen, conf), s1)"
    by (auto simp: sv_verify_proof_of_funding_def act_simps act_lift_ok res_simps simp del: act_lift_iff)
  from pof_entries_checked [OF run ne] ne show ?thesis by auto
qed

section \<open>A concrete proof\<close>

definition sample_multisig :: script where
  "sample_multisig = create_multisig_redeemscript sample_lib (compressed_key (2 # replicate 32 4)) (compressed_key (2 # replicate 32 9))"

definition sample_contract :: script where
  "sample_contract = create_contract_redeemscript sample_lib (compressed_key (2 # replicate 32 7)) (compressed_key (2 # replicate 32 9))
     (replicate 20 1) 40"

definition p2wsh :: "script \<Rightarrow> script" where
  "p2wsh rs = push_int_c 0 @ push_slice_c (fit 32 rs)"

definition sample_funding :: funding_tx_info where
  "sample_funding = \<lparr>fti_funding_tx = \<lparr>tx_version = 2, tx_lock_time = 0, tx_input = [],
       tx_output = [\<lparr>to_value = 100000, to_spk = p2wsh sample_multisig\<rparr>]\<rparr>,
     fti_multisig_redeemscript = sample_multisig, fti_multisig_nonce = replicate 32 1,
     fti_contract_redeemscript = sample_contract, fti_hashlock_nonce = replicate 32 2\<rparr>"

definition sample_proof_of_funding :: proof_of_funding where
  "sample_proof_of_funding = \<lparr>pof_id = ''s'', pof_confirmed_funding_txes = [sample_funding], pof_next_openswap_info = [],
     pof_refund_locktime = 20, pof_contract_feerate = 2\<rparr>"

definition sample_funding_outpoint :: outpoint where
  "sample_funding_outpoint = \<lparr>op_txid = b_txid sample_lib (fti_funding_tx sample_funding), op_vout = 0\<rparr>"

definition bound_server :: "unit server" where
  "bound_server = sample_server\<lparr>sv_wallet := empty_wallet\<lparr>w_store := empty_store\<lparr>ws_prevout_to_contract :=
     [(sample_funding_outpoint, p2wsh sample_contract)]\<rparr>\<rparr>\<rparr>"

lemma sample_p2wsh: "redeemscript_to_scriptpubkey sample_lib rs = Inr (p2wsh rs)"
  by (simp add: redeemscript_to_scriptpubkey_def p2wsh_def sample_lib_def fit_def)

lemma sample_nonce: "length k = 32 \<Longrightarrow> calculate_pubkey_from_nonce sample_lib (compressed_key (2 # k)) n = Inr (compressed_key (2 # xor_bytes k n))"
  by (simp add: calculate_pubkey_from_nonce_def compressed_key_def sample_lib_def)

lemma sample_keys_xor: "xor_bytes (replicate 32 5) (replicate 32 1) = (replicate 32 4 :: bytes)"
  "xor_bytes (replicate 32 5) (replicate 32 2) = (replicate 32 7 :: bytes)"
  by (simp_all add: xor_bytes_def zip_replicate)

lemma created_multisig_checked:
  assumes "script_lib B" "good_key B k1" "good_key B k2" "good_key B (compressed_key pub_placeholder)"
  shows "check_reedemscript_is_multisig B (create_multisig_redeemscript B k1 k2) = Inr ()"
  unfolding check_multisig_iff [OF assms(1,4)] multisig_shape [OF assms(1-3)]
  using assms(2,3) by (auto simp: good_key_def)

lemma sample_scripts_ok:
  "pof_scripts_ok sample_lib (compressed_key (2 # replicate 32 5)) (w_store (sv_wallet bound_server)) sample_funding_outpoint sample_funding
     = Inr (replicate 20 1)"
proof -
  have good: "good_key sample_lib (compressed_key (2 # replicate 32 x))" for x by (rule sample_good_key) simp
  note lib = sample_script.script_lib_axioms
  have "check_reedemscript_is_multisig sample_lib sample_multisig = Inr ()"
    unfolding sample_multisig_def by (rule created_multisig_checked [OF lib good good sample_placeholder])
  moreover have "check_multisig_has_pubkey sample_lib sample_multisig (compressed_key (2 # replicate 32 5)) (replicate 32 1) = Inr ()"
    by (simp add: check_multisig_has_pubkey_def sample_multisig_def read_pubkeys_created [OF lib good good] sample_nonce sample_keys_xor)
  moreover have "check_hashlock_has_pubkey sample_lib sample_contract (compressed_key (2 # replicate 32 5)) (replicate 32 2) = Inr ()"
    by (simp add: check_hashlock_has_pubkey_def sample_contract_def read_hashlock_pubkey_created [OF lib good] sample_nonce sample_keys_xor)
  moreover have "read_hashvalue_from_contract sample_lib sample_contract = Inr (replicate 20 1)"
    unfolding sample_contract_def by (rule read_hashvalue_created [OF lib good good]) simp_all
  ultimately show ?thesis
    by (simp add: pof_scripts_ok_def sample_funding_def sample_p2wsh ensure_prevout_matches_cached_contract_def bound_server_def)
qed

lemma sample_proof_verified: "\<exists>s'. sv_verify_proof_of_funding sample_lib sample_world sample_proof_of_funding bound_server = (Inr (replicate 20 1), s')"
proof -
  have good: "good_key sample_lib (compressed_key (2 # replicate 32 x))" for x by (rule sample_good_key) simp
  have lt: "read_contract_locktime sample_lib sample_contract = Inr 40"
    unfolding sample_contract_def by (rule read_locktime_created [OF sample_script.script_lib_axioms good good]) simp_all
  have pos: "position (\<lambda>out. to_spk out = p2wsh sample_multisig) (tx_output (fti_funding_tx sample_funding)) = Some 0"
    by (simp add: sample_funding_def position_def)
  have f: "fti_contract_redeemscript sample_funding = sample_contract" "fti_multisig_redeemscript sample_funding = sample_multisig"
    by (simp_all add: sample_funding_def)
  have b: "\<not> sv_wallet_poisoned bound_server" "\<not> sv_swaps_poisoned bound_server" "sv_world bound_server = ()" "sv_swaps bound_server = []"
    by (simp_all add: bound_server_def sample_server_def)
  have w: "on_world h g s = (map_err h (fst (g ())), s)" for h :: "'e \<Rightarrow> maker_error" and g :: "(unit, 'e, 'a) act" and s :: "unit server"
    by (cases s) (simp add: on_world_def split_def)
  have "\<exists>acc. pof_entry sample_lib sample_world 20 (None, [], None) sample_funding bound_server = (Inr (Some (replicate 20 1), acc), bound_server)"
    by (simp add: pof_entry_def Let_def act_bind_def act_lift_def act_ensure_def act_get_def act_ret_def f lt sample_p2wsh pos
        saturating_sub_def MIN_CONTRACT_REACTION_TIME_def sv_wait_for_tx_on_chain_def lock_wallet_def w sample_world_ops b
        sample_scripts_ok [unfolded sample_funding_outpoint_def])
  then show ?thesis
    by (auto simp: sv_verify_proof_of_funding_def sample_proof_of_funding_def act_bind_def act_ensure_def act_lift_def act_ret_def
        record_confirmation_def lock_swaps_def act_upd_def b split: option.splits)
qed

theorem verified_funding_witness:
  "\<exists>op. funding_checked sample_lib sample_world bound_server 20 (replicate 20 1) sample_funding op"
proof -
  from sample_proof_verified obtain s' where
    "sv_verify_proof_of_funding sample_lib sample_world sample_proof_of_funding bound_server = (Inr (replicate 20 1), s')" by blast
  from verified_funding [OF this] show ?thesis
    by (auto simp: sample_proof_of_funding_def list_all2_Cons1)
qed

end
