(* ===== verification/MakerNet.thy ===== *)
theory MakerNet
  imports MakerTypes
begin

text \<open>
  The transport of the maker server, \<open>maker/server.rs\<close>: the limiter of inbound connections and its
  permits, the throttle of keep-alive messages, the length-prefixed frames of the two ends
  (\<open>read_message\<close> of the maker, \<open>send_message\<close> of \<open>utill.rs\<close> for the taker) and the search
  for a free port. Instants and durations are nanoseconds.

  A socket is the list of what the peer and the network still do, each with the delay after which it
  happens: bytes arrive, or \<open>read\<close> fails. A read with a timeout below the delay fails with
  \<open>WouldBlock\<close>; a read of a socket with nothing left returns no bytes, as after the peer has closed.
\<close>

section \<open>The connection limiter\<close>

definition nanos_per_sec :: nat where "nanos_per_sec = 1000000000"

definition MAX_INBOUND_CONNECTIONS :: nat where "MAX_INBOUND_CONNECTIONS = MAX_CONCURRENT_SWAPS * 3"
definition MAX_PENDING_CONNECTIONS :: nat where "MAX_PENDING_CONNECTIONS = MAX_CONCURRENT_SWAPS"
definition CONNECTIONS_PER_SECOND :: f64 where "CONNECTIONS_PER_SECOND = 4"
definition CONNECTION_BURST :: f64 where "CONNECTION_BURST = f64_of_nat MAX_CONCURRENT_SWAPS"
definition PENDING_CONNECTION_TIMEOUT :: nat where "PENDING_CONNECTION_TIMEOUT = 20 * nanos_per_sec"
definition MESSAGE_ASSEMBLY_TIMEOUT :: nat where "MESSAGE_ASSEMBLY_TIMEOUT = 60 * nanos_per_sec"
definition MIN_KEEPALIVE_INTERVAL :: nat where "MIN_KEEPALIVE_INTERVAL = 30 * nanos_per_sec"
definition CONNECTION_READ_TIMEOUT :: nat where "CONNECTION_READ_TIMEOUT = 1800 * nanos_per_sec"

text \<open>\<open>Duration::as_secs_f64\<close>.\<close>

definition as_secs_f64 :: "nat \<Rightarrow> f64" where
  "as_secs_f64 d = f64_add (f64_of_nat (d div nanos_per_sec)) (f64_div (f64_of_nat (d mod nanos_per_sec)) 1000000000)"

record limiter =
  lm_active :: nat
  lm_pending :: nat
  lm_tokens :: f64
  lm_last_refill :: nat

definition limiter_new :: "nat \<Rightarrow> limiter" where
  "limiter_new now = \<lparr>lm_active = 0, lm_pending = 0, lm_tokens = CONNECTION_BURST, lm_last_refill = now\<rparr>"

record permit =
  pm_pending :: bool

definition try_acquire :: "nat \<Rightarrow> limiter \<Rightarrow> permit option \<times> limiter" where
  "try_acquire now state =
     (let state = state\<lparr>lm_tokens := min (f64_add (lm_tokens state)
                    (f64_mul (as_secs_f64 (now - lm_last_refill state)) CONNECTIONS_PER_SECOND)) CONNECTION_BURST,
                  lm_last_refill := now\<rparr> in
      if lm_tokens state < 1 then (None, state)
      else let state = state\<lparr>lm_tokens := f64_sub (lm_tokens state) 1\<rparr> in
      if MAX_INBOUND_CONNECTIONS \<le> lm_active state \<or> MAX_PENDING_CONNECTIONS \<le> lm_pending state then (None, state)
      else (Some \<lparr>pm_pending = True\<rparr>, state\<lparr>lm_active := lm_active state + 1, lm_pending := lm_pending state + 1\<rparr>))"

text \<open>The counters are unsigned: \<open>None\<close> is the overflow panic of a decrement of zero.\<close>

definition mark_established :: "permit \<Rightarrow> limiter \<Rightarrow> (permit \<times> limiter) option" where
  "mark_established permit state =
     (if pm_pending permit
      then map_option (\<lambda>n. (permit\<lparr>pm_pending := False\<rparr>, state\<lparr>lm_pending := n\<rparr>)) (checked_sub (lm_pending state) 1)
      else Some (permit, state))"

definition drop_permit :: "permit \<Rightarrow> limiter \<Rightarrow> limiter option" where
  "drop_permit permit state =
     Option.bind (if pm_pending permit then checked_sub (lm_pending state) 1 else Some (lm_pending state)) (\<lambda>pending.
     map_option (\<lambda>active. state\<lparr>lm_pending := pending, lm_active := active\<rparr>) (checked_sub (lm_active state) 1))"

datatype heartbeat_action = HbAccept | HbReject | HbThrottle

definition admit_heartbeat ::
    "bool \<Rightarrow> nat \<Rightarrow> nat option \<Rightarrow> permit \<Rightarrow> limiter \<Rightarrow> (heartbeat_action \<times> nat option \<times> permit \<times> limiter) option" where
  "admit_heartbeat known_swap now last_keepalive permit state =
     (if \<not> known_swap then Some (HbReject, last_keepalive, permit, state)
      else if (case last_keepalive of None \<Rightarrow> False | Some prev \<Rightarrow> now - prev < MIN_KEEPALIVE_INTERVAL)
      then Some (HbThrottle, last_keepalive, permit, state)
      else map_option (\<lambda>(permit, state). (HbAccept, Some now, permit, state)) (mark_established permit state))"

text \<open>
  The accept loop and the connection threads, interleaved in any order: the shared limiter and the
  permits of the live handlers.
\<close>

inductive limiter_step :: "limiter \<times> permit list \<Rightarrow> limiter \<times> permit list \<Rightarrow> bool" where
  acquired: "try_acquire now l = (Some p, l') \<Longrightarrow> limiter_step (l, ps) (l', ps @ [p])"
| refused: "try_acquire now l = (None, l') \<Longrightarrow> limiter_step (l, ps) (l', ps)"
| established: "mark_established p l = Some (p', l') \<Longrightarrow> limiter_step (l, ps @ p # qs) (l', ps @ p' # qs)"
| heartbeat: "admit_heartbeat known now prev p l = Some (a, prev', p', l') \<Longrightarrow> limiter_step (l, ps @ p # qs) (l', ps @ p' # qs)"
| dropped: "drop_permit p l = Some l' \<Longrightarrow> limiter_step (l, ps @ p # qs) (l', ps @ qs)"

inductive_cases limiter_stepE: "limiter_step s s'"

definition limiter_ok :: "limiter \<times> permit list \<Rightarrow> bool" where
  "limiter_ok = (\<lambda>(l, ps). lm_active l = length ps \<and> lm_pending l = length (filter pm_pending ps)
     \<and> lm_active l \<le> 90 \<and> lm_pending l \<le> 30 \<and> 0 \<le> lm_tokens l \<and> lm_tokens l \<le> 30)"

lemma burst_value [simp]: "CONNECTION_BURST = 30"
  by (simp add: CONNECTION_BURST_def MAX_CONCURRENT_SWAPS_def f64_of_nat_def fl_of_nat [of 30, simplified])

lemma as_secs_nonneg [simp]: "0 \<le> as_secs_f64 d"
  by (simp add: as_secs_f64_def)

lemma f64_sub_bounds: "1 \<le> a \<Longrightarrow> a \<le> 30 \<Longrightarrow> 0 \<le> f64_sub a 1 \<and> f64_sub a 1 \<le> 30"
  using fl_mono [of 0 "a - 1"] fl_mono [of "a - 1" 30] fl_of_nat [of 30, simplified] by (simp add: f64_sub_def)

lemma quarter_second:
  assumes "250000000 \<le> d"
  shows "1 \<le> f64_mul (as_secs_f64 d) CONNECTIONS_PER_SECOND"
proof -
  have "bin_exp (1 / 4) = - 2" by (rule bin_exp_unique) (simp_all add: power_int_minus)
  then have quarter: "fl (1 / 4) = 1 / 4"
    using rne_of_int [of "2 ^ 52"] by (simp add: fl_def fl_pos_def power_int_minus)
  have "1 / 4 \<le> as_secs_f64 d"
  proof (cases "d < nanos_per_sec")
    case True
    then have d: "d div nanos_per_sec = 0" "d mod nanos_per_sec = d" by simp_all
    have "250000000 \<le> f64_of_nat d" using f64_of_nat_mono [OF assms] fl_of_nat [of 250000000] by (simp add: f64_of_nat_def)
    then have "f64_div 250000000 1000000000 \<le> f64_div (f64_of_nat d) 1000000000" by (rule f64_div_mono) simp
    then have "1 / 4 \<le> f64_div (f64_of_nat d) 1000000000" by (simp add: f64_div_def quarter)
    then show ?thesis using fl_mono [of "1 / 4" "f64_div (f64_of_nat d) 1000000000"]
      by (simp add: as_secs_f64_def d f64_of_nat_def f64_add_def quarter)
  next
    case False
    then have "1 \<le> d div nanos_per_sec" by (simp add: div_greater_zero_iff nanos_per_sec_def Suc_le_eq)
    then have "1 \<le> f64_of_nat (d div nanos_per_sec)" using f64_of_nat_mono [of 1 "d div nanos_per_sec"] fl_of_nat [of 1]
      by (simp add: f64_of_nat_def)
    then have "1 \<le> as_secs_f64 d" using f64_add_ge_nat [of 1] by (simp add: as_secs_f64_def)
    then show ?thesis by simp
  qed
  then show ?thesis using fl_mono [of 1 "as_secs_f64 d * 4"] fl_of_nat [of 1]
    by (simp add: f64_mul_def CONNECTIONS_PER_SECOND_def)
qed

lemma acquire_tokens:
  assumes "0 \<le> lm_tokens l" "try_acquire now l = (r, l')"
  shows "0 \<le> lm_tokens l' \<and> lm_tokens l' \<le> 30"
proof -
  let ?t = "min (f64_add (lm_tokens l) (f64_mul (as_secs_f64 (now - lm_last_refill l)) CONNECTIONS_PER_SECOND)) 30"
  have "0 \<le> ?t" "?t \<le> 30" using assms(1) by (simp_all add: CONNECTIONS_PER_SECOND_def)
  moreover from assms(2) have "lm_tokens l' = ?t \<or> (1 \<le> ?t \<and> lm_tokens l' = f64_sub ?t 1)"
    by (auto simp: try_acquire_def Let_def split: if_splits)
  ultimately show ?thesis using f64_sub_bounds [of ?t] by auto
qed

lemma acquire_counters:
  assumes "try_acquire now l = (r, l')"
  shows "(case r of None \<Rightarrow> lm_active l' = lm_active l \<and> lm_pending l' = lm_pending l
    | Some p \<Rightarrow> pm_pending p \<and> lm_active l' = lm_active l + 1 \<and> lm_pending l' = lm_pending l + 1
        \<and> lm_active l < 90 \<and> lm_pending l < 30)"
  using assms by (auto simp: try_acquire_def Let_def MAX_INBOUND_CONNECTIONS_def MAX_PENDING_CONNECTIONS_def
    MAX_CONCURRENT_SWAPS_def split: if_splits)

lemma established_counters:
  "mark_established p l = Some (p', l') \<longleftrightarrow> \<not> (pm_pending p \<and> lm_pending l = 0)
     \<and> p' = p\<lparr>pm_pending := False\<rparr> \<and> l' = l\<lparr>lm_pending := lm_pending l - (if pm_pending p then 1 else 0)\<rparr>"
  by (cases p, cases l) (auto simp: mark_established_def checked_sub_def split: if_splits)

lemma dropped_counters:
  "drop_permit p l = Some l' \<longleftrightarrow> \<not> (pm_pending p \<and> lm_pending l = 0) \<and> lm_active l \<noteq> 0
     \<and> l' = l\<lparr>lm_pending := lm_pending l - (if pm_pending p then 1 else 0), lm_active := lm_active l - 1\<rparr>"
  by (cases l) (auto simp: drop_permit_def checked_sub_def bind_eq_Some_conv split: if_splits)

lemma heartbeat_counters:
  assumes "admit_heartbeat known now prev p l = Some (a, prev', p', l')"
  shows "(p' = p \<and> l' = l) \<or> mark_established p l = Some (p', l')"
  using assms by (auto simp: admit_heartbeat_def split: if_splits option.splits)

lemma limiter_step_ok: "limiter_step s s' \<Longrightarrow> limiter_ok s \<Longrightarrow> limiter_ok s'"
proof (induction rule: limiter_step.induct)
  case (acquired now l p l' ps)
  then show ?case using acquire_tokens [of l now "Some p" l'] acquire_counters [of now l "Some p" l']
    by (simp add: limiter_ok_def)
next
  case (refused now l l' ps)
  then show ?case using acquire_tokens [of l now None l'] acquire_counters [of now l None l']
    by (simp add: limiter_ok_def)
next
  case (established p l p' l' ps qs)
  then show ?case by (auto simp: limiter_ok_def established_counters split: if_splits)
next
  case (heartbeat known now prev p l a prev' p' l' ps qs)
  then show ?case using heartbeat_counters [OF heartbeat.hyps] by (auto simp: limiter_ok_def established_counters split: if_splits)
next
  case (dropped p l l' ps qs)
  then show ?case by (auto simp: limiter_ok_def dropped_counters split: if_splits)
qed

lemma limiter_reachable_ok: "limiter_step\<^sup>*\<^sup>* (limiter_new t, []) s \<Longrightarrow> limiter_ok s"
  by (induction rule: rtranclp_induct)
    (simp add: limiter_ok_def limiter_new_def, rule limiter_step_ok)

lemma live_permit:
  assumes "limiter_ok (l, ps)" "p \<in> set ps"
  shows "mark_established p l \<noteq> None" "drop_permit p l \<noteq> None"
proof -
  from assms(2) have "0 < length ps" by (cases ps) simp_all
  moreover have "pm_pending p \<Longrightarrow> 0 < length (filter pm_pending ps)" using assms(2) by (auto simp: filter_empty_conv)
  ultimately show "mark_established p l \<noteq> None" "drop_permit p l \<noteq> None"
    using assms(1) by (auto simp: limiter_ok_def mark_established_def drop_permit_def checked_sub_def Suc_le_eq)
qed

text \<open>
  C32. The connection limiter keeps its budget under every interleaving of accepts, identifications,
  keep-alives and closing handlers: it counts exactly the live permits and those not yet identified, never
  more than 90 and 30, the rate tokens stay between 0 and the burst of 30, and no live permit can ever
  decrement a counter below zero.
\<close>

theorem connection_budget:
  assumes "limiter_step\<^sup>*\<^sup>* (limiter_new t, []) (l, ps)"
  shows "lm_active l = length ps \<and> lm_pending l = length (filter pm_pending ps)
    \<and> length ps \<le> MAX_INBOUND_CONNECTIONS \<and> length (filter pm_pending ps) \<le> MAX_PENDING_CONNECTIONS
    \<and> 0 \<le> lm_tokens l \<and> lm_tokens l \<le> CONNECTION_BURST
    \<and> (\<forall>p \<in> set ps. mark_established p l \<noteq> None \<and> drop_permit p l \<noteq> None)"
  using limiter_reachable_ok [OF assms] live_permit [OF limiter_reachable_ok [OF assms]]
  by (simp add: limiter_ok_def MAX_INBOUND_CONNECTIONS_def MAX_PENDING_CONNECTIONS_def MAX_CONCURRENT_SWAPS_def)

text \<open>
  The rate limit starves nobody. Whenever a quarter of a second has passed since the last attempt, accepted
  or refused, and the limits on live and unidentified connections are not reached, the next connection is accepted.
\<close>

lemma connection_admitted:
  assumes "limiter_step\<^sup>*\<^sup>* (limiter_new t, []) (l, ps)" "lm_last_refill l + 250000000 \<le> now"
    "length ps < MAX_INBOUND_CONNECTIONS" "length (filter pm_pending ps) < MAX_PENDING_CONNECTIONS"
  shows "\<exists>l'. try_acquire now l = (Some \<lparr>pm_pending = True\<rparr>, l') \<and> lm_active l' = length ps + 1"
proof -
  note ok = limiter_reachable_ok [OF assms(1), unfolded limiter_ok_def, simplified]
  have "1 \<le> f64_mul (as_secs_f64 (now - lm_last_refill l)) CONNECTIONS_PER_SECOND"
    by (rule quarter_second) (use assms(2) in simp)
  then have "1 \<le> f64_add (lm_tokens l) (f64_mul (as_secs_f64 (now - lm_last_refill l)) CONNECTIONS_PER_SECOND)"
    using f64_add_ge_nat [of 1 _ "lm_tokens l"] ok by (simp add: f64_add_def add.commute [of "lm_tokens l"])
  then show ?thesis using assms(3,4) ok
    by (simp add: try_acquire_def Let_def)
qed

section \<open>Sockets\<close>

datatype sock_event = Arrive bytes | Fail io_kind

record sock =
  sk_now :: nat
  sk_set_timeout_ok :: bool
  sk_events :: "(nat \<times> sock_event) list"

definition sock_read :: "nat \<Rightarrow> nat \<Rightarrow> sock \<Rightarrow> (io_kind + bytes) \<times> sock" where
  "sock_read timeout n sk = (case sk_events sk of
     [] \<Rightarrow> (Inr [], sk)
   | (d, ev) # evs \<Rightarrow>
       if timeout < d then (Inl WouldBlock, sk\<lparr>sk_now := sk_now sk + timeout, sk_events := (d - timeout, ev) # evs\<rparr>)
       else (case ev of
           Fail k \<Rightarrow> (Inl k, sk\<lparr>sk_now := sk_now sk + d, sk_events := evs\<rparr>)
         | Arrive bs \<Rightarrow> (Inr (take n bs), sk\<lparr>sk_now := sk_now sk + d,
             sk_events := (if length bs \<le> n then evs else (0, Arrive (drop n bs)) # evs)\<rparr>)))"

definition sock_bytes :: "sock \<Rightarrow> bytes" where
  "sock_bytes sk = concat (map (\<lambda>(_, ev). case ev of Arrive bs \<Rightarrow> bs | Fail _ \<Rightarrow> []) (sk_events sk))"

section \<open>Frames\<close>

definition MAX_RPC_MESSAGE_SIZE :: nat where "MAX_RPC_MESSAGE_SIZE = 10 * 1024 * 1024"

text \<open>\<open>u32::to_be_bytes\<close> and \<open>u32::from_be_bytes\<close>.\<close>

definition to_be_bytes :: "nat \<Rightarrow> bytes" where
  "to_be_bytes n = [of_nat (n div 2 ^ 24), of_nat (n div 2 ^ 16 mod 256), of_nat (n div 2 ^ 8 mod 256), of_nat (n mod 256)]"

definition from_be_bytes :: "bytes \<Rightarrow> nat" where
  "from_be_bytes bs = foldl (\<lambda>a b. a * 256 + unat b) 0 bs"

definition read_timeout_at :: "nat option \<Rightarrow> nat \<Rightarrow> maker_error + nat" where
  "read_timeout_at deadline now = (case deadline of
     None \<Rightarrow> Inr (max CONNECTION_READ_TIMEOUT 1000000)
   | Some d \<Rightarrow> if d < now then Inl (MGeneral ''Message read deadline expired'') else Inr (max (d - now) 1000000))"

definition read_failed :: "nat option \<Rightarrow> io_kind \<Rightarrow> maker_error" where
  "read_failed deadline k =
     (if deadline \<noteq> None \<and> (k = WouldBlock \<or> k = TimedOut) then MGeneral ''Message read deadline expired'' else MIO k)"

lemma sock_read_interrupted: "sock_read t n sk = (Inl Interrupted, sk') \<Longrightarrow> length (sk_events sk') < length (sk_events sk)"
  by (auto simp: sock_read_def split: list.splits if_splits sock_event.splits)

lemma sock_read_some: "sock_read t n sk = (Inr (b # bs), sk') \<Longrightarrow> length (sk_events sk') \<le> length (sk_events sk) \<and> n \<noteq> 0"
  by (cases n) (auto simp: sock_read_def split: list.splits if_splits sock_event.splits)

function read_exact_until :: "nat option \<Rightarrow> nat \<Rightarrow> sock \<Rightarrow> (maker_error + bytes) \<times> sock" where
  "read_exact_until deadline need sk =
     (if need = 0 then (Inr [], sk)
      else case read_timeout_at deadline (sk_now sk) of
        Inl e \<Rightarrow> (Inl e, sk)
      | Inr timeout \<Rightarrow>
          if \<not> sk_set_timeout_ok sk then (Inl (MIO OtherKind), sk)
          else case sock_read timeout need sk of
            (Inr [], sk') \<Rightarrow> (Inl (MIO UnexpectedEof), sk')
          | (Inr (b # bs), sk') \<Rightarrow>
              (case read_exact_until deadline (need - length (b # bs)) sk' of
                 (Inl e, sk'') \<Rightarrow> (Inl e, sk'')
               | (Inr rest, sk'') \<Rightarrow> (Inr ((b # bs) @ rest), sk''))
          | (Inl k, sk') \<Rightarrow>
              if k = Interrupted then read_exact_until deadline need sk' else (Inl (read_failed deadline k), sk'))"
  by pat_completeness auto
termination
  by (relation "measure (\<lambda>(_, need, sk). need + length (sk_events sk))")
    (auto dest!: sock_read_interrupted [OF sym] sock_read_some [OF sym])

declare read_exact_until.simps [simp del]

definition read_message :: "(bytes \<Rightarrow> 'm option) \<Rightarrow> nat option \<Rightarrow> (sock, maker_error, 'm) act" where
  "read_message from_slice pending_deadline =
     act_bind (read_exact_until pending_deadline 1) (\<lambda>len_buf0.
     act_bind (act_get (\<lambda>sk. sk_now sk + MESSAGE_ASSEMBLY_TIMEOUT)) (\<lambda>assembly_deadline.
     let deadline = Some (case pending_deadline of None \<Rightarrow> assembly_deadline | Some pending \<Rightarrow> min pending assembly_deadline) in
     act_bind (read_exact_until deadline 3) (\<lambda>len_buf1.
     let len = from_be_bytes (len_buf0 @ len_buf1) in
     act_seq (act_ensure (\<not> MAX_RPC_MESSAGE_SIZE < len) (MGeneral ''Message too large'')) (
     act_bind (read_exact_until deadline len) (\<lambda>buf.
     act_lift (ok_or (from_slice buf) (MGeneral ''Failed to deserialize message'')))))))"

text \<open>
  What the two \<open>send_message\<close> functions write: the length, truncated to 32 bits, and the payload. \<open>write_all\<close>
  is the outcome of the writes, of the flush included.
\<close>

definition frame :: "bytes \<Rightarrow> bytes" where
  "frame buf = to_be_bytes (length buf mod 2 ^ 32) @ buf"

definition send_message :: "('m \<Rightarrow> bytes option) \<Rightarrow> (bytes \<Rightarrow> io_kind option) \<Rightarrow> 'm \<Rightarrow> maker_error + bytes" where
  "send_message to_vec write_all message =
     res_bind (ok_or (to_vec message) (MGeneral ''Failed to serialize message'')) (\<lambda>buf.
     case write_all (frame buf) of Some k \<Rightarrow> Inl (MIO k) | None \<Rightarrow> Inr (frame buf))"

definition utill_send_message :: "('m \<Rightarrow> bytes option) \<Rightarrow> (bytes \<Rightarrow> io_kind option) \<Rightarrow> 'm \<Rightarrow> net_error + bytes" where
  "utill_send_message to_vec write_all message =
     res_bind (ok_or (to_vec message) NCbor) (\<lambda>msg_bytes.
     case write_all (frame msg_bytes) of Some _ \<Rightarrow> Inl NIO | None \<Rightarrow> Inr (frame msg_bytes))"

section \<open>A free port\<close>

definition MAX_PORT :: nat where "MAX_PORT = 62000"

function bind_port_loop :: "(nat \<Rightarrow> io_kind option) \<Rightarrow> nat \<Rightarrow> maker_error + nat" where
  "bind_port_loop bind current_port =
     (if current_port < MAX_PORT
      then (case bind current_port of
              None \<Rightarrow> Inr current_port
            | Some k \<Rightarrow> if k = AddrInUse then bind_port_loop bind (current_port + 2) else Inl (MIO k))
      else Inl (MGeneral ''No available ports found in valid range''))"
  by pat_completeness auto
termination
  by (relation "measure (\<lambda>(_, p). MAX_PORT - p)") auto

declare bind_port_loop.simps [simp del]

definition bind_port_retry :: "(nat \<Rightarrow> io_kind option) \<Rightarrow> nat \<Rightarrow> maker_error + nat" where
  "bind_port_retry bind port = res_bind (ok_or (checked_add 16 port 2) MPanic) (bind_port_loop bind)"

text \<open>
  The search tries the ports of one parity upwards and returns the first free one; it reports that there is
  none only when every candidate is in use.
\<close>

lemma all_less_Suc_shift: "(\<forall>j < Suc k. P j) \<longleftrightarrow> P 0 \<and> (\<forall>j < k. P (Suc j))"
  by (simp add: less_Suc_eq_0_disj) blast

lemma bind_port_first_free:
  "bind_port_loop bind p = Inr q \<Longrightarrow>
     \<exists>k. q = p + 2 * k \<and> q < MAX_PORT \<and> bind q = None \<and> (\<forall>j < k. bind (p + 2 * j) = Some AddrInUse)"
proof (induction bind p rule: bind_port_loop.induct)
  case (1 bind p)
  from 1(2) have p: "p < MAX_PORT" by (simp add: bind_port_loop.simps [of bind p] split: if_splits)
  show ?case
  proof (cases "bind p")
    case None
    with 1(2) p show ?thesis by (intro exI [of _ 0]) (simp add: bind_port_loop.simps [of bind p])
  next
    case (Some k)
    with 1(2) p have k: "k = AddrInUse" "bind_port_loop bind (p + 2) = Inr q"
      by (simp_all add: bind_port_loop.simps [of bind p] split: if_splits)
    from 1(1) [OF p Some this] obtain k' where "q = p + 2 + 2 * k'" "q < MAX_PORT" "bind q = None"
      "\<forall>j < k'. bind (p + 2 + 2 * j) = Some AddrInUse" by blast
    with Some k(1) show ?thesis by (intro exI [of _ "Suc k'"]) (simp add: all_less_Suc_shift)
  qed
qed

lemma bind_port_none_free:
  "bind_port_loop bind p = Inl (MGeneral e) \<Longrightarrow> p + 2 * j < MAX_PORT \<Longrightarrow> bind (p + 2 * j) = Some AddrInUse"
proof (induction bind p arbitrary: j rule: bind_port_loop.induct)
  case (1 bind p)
  then have p: "p < MAX_PORT" by simp
  with 1(2) have b: "bind p = Some AddrInUse" "bind_port_loop bind (p + 2) = Inl (MGeneral e)"
    by (auto simp: bind_port_loop.simps [of bind p] split: option.splits if_splits)
  show ?case
  proof (cases j)
    case (Suc i)
    with 1(1) [OF p b(1) refl b(2), of i] 1(3) show ?thesis by simp
  qed (simp add: b)
qed

section \<open>Reading what the peer sent\<close>

definition total_delay :: "(nat \<times> sock_event) list \<Rightarrow> nat" where
  "total_delay evs = sum_list (map fst evs)"

text \<open>A healthy peer: everything it sent arrives, in pieces of any size, by the instant \<open>t\<close>.\<close>

definition delivers :: "nat \<Rightarrow> sock \<Rightarrow> bool" where
  "delivers t sk \<longleftrightarrow> sk_set_timeout_ok sk \<and> sk_now sk + total_delay (sk_events sk) = t
     \<and> (\<forall>(_, ev) \<in> set (sk_events sk). \<exists>b bs. ev = Arrive (b # bs))"

lemma sock_read_delivered:
  assumes "delivers t sk" "0 < n" "sock_bytes sk \<noteq> []" "total_delay (sk_events sk) \<le> timeout"
  obtains b bs sk' where "sock_read timeout n sk = (Inr (b # bs), sk')" "delivers t sk'" "length (b # bs) \<le> n"
    "sock_bytes sk = (b # bs) @ sock_bytes sk'" "sk_now sk \<le> sk_now sk'"
proof -
  from assms(1,3) obtain d b bs evs where ev: "sk_events sk = (d, Arrive (b # bs)) # evs"
    by (cases "sk_events sk") (auto simp: delivers_def sock_bytes_def)
  from assms(2) obtain m where n: "n = Suc m" by (cases n) simp_all
  from assms(4) have d: "\<not> timeout < d" by (simp add: ev total_delay_def)
  show thesis
    by (rule that [of b "take m bs" "snd (sock_read timeout n sk)"])
      (use assms(1) d in \<open>auto simp: sock_read_def ev n delivers_def total_delay_def sock_bytes_def neq_Nil_conv [symmetric]\<close>)
qed

lemma read_exact_delivered:
  assumes "delivers t sk" "n \<le> length (sock_bytes sk)"
    "case deadline of None \<Rightarrow> t \<le> sk_now sk + CONNECTION_READ_TIMEOUT | Some d \<Rightarrow> t \<le> d"
  shows "\<exists>sk'. read_exact_until deadline n sk = (Inr (take n (sock_bytes sk)), sk') \<and> delivers t sk'
    \<and> sock_bytes sk' = drop n (sock_bytes sk) \<and> sk_now sk \<le> sk_now sk'"
  using assms
proof (induction deadline n sk rule: read_exact_until.induct)
  case (1 deadline n sk)
  show ?case
  proof (cases "n = 0")
    case False
    from 1(3) have t: "t = sk_now sk + total_delay (sk_events sk)" and ok: "sk_set_timeout_ok sk" by (simp_all add: delivers_def)
    from 1(5) t obtain timeout where timeout: "read_timeout_at deadline (sk_now sk) = Inr timeout"
      "total_delay (sk_events sk) \<le> timeout"
      by (cases deadline) (auto simp: read_timeout_at_def)
    from 1(4) False have "0 < n" "sock_bytes sk \<noteq> []" by auto
    from sock_read_delivered [OF 1(3) this timeout(2)] obtain b bs sk' where
      read: "sock_read timeout n sk = (Inr (b # bs), sk')" "delivers t sk'" "length (b # bs) \<le> n"
        "sock_bytes sk = (b # bs) @ sock_bytes sk'" "sk_now sk \<le> sk_now sk'" .
    have "\<exists>sk''. read_exact_until deadline (n - length (b # bs)) sk' = (Inr (take (n - length (b # bs)) (sock_bytes sk')), sk'')
      \<and> delivers t sk'' \<and> sock_bytes sk'' = drop (n - length (b # bs)) (sock_bytes sk') \<and> sk_now sk' \<le> sk_now sk''"
      by (rule 1(2) [OF False timeout(1) _ read(1) [symmetric] refl refl])
        (use ok read 1(4,5) in \<open>auto split: option.splits\<close>)
    moreover have "take n (sock_bytes sk) = (b # bs) @ take (n - length (b # bs)) (sock_bytes sk')"
      "drop n (sock_bytes sk) = drop (n - length (b # bs)) (sock_bytes sk')"
      unfolding read(4) using read(3) by (simp_all del: append_Cons)
    ultimately show ?thesis
      using False timeout(1) ok read(1-3,5) by (auto simp: read_exact_until.simps [of deadline n sk])
  qed (use 1(3) in \<open>simp add: read_exact_until.simps\<close>)
qed

lemma be_digits: "n = 16777216 * (n div 16777216) + 65536 * (n div 65536 mod 256) + n div 256 mod 256 * 256 + n mod (256::nat)"
proof -
  have "n = 256 * (n div 256) + n mod 256" by simp
  moreover have "n div 256 = 256 * (n div 65536) + n div 256 mod 256" "n div 65536 = 256 * (n div 16777216) + n div 65536 mod 256"
    using mult_div_mod_eq [of 256 "n div 256"] mult_div_mod_eq [of 256 "n div 65536"] by (simp_all add: div_mult2_eq [symmetric])
  ultimately show ?thesis by linarith
qed

lemma be_bytes_roundtrip: "n < 2 ^ 32 \<Longrightarrow> from_be_bytes (to_be_bytes n) = n"
  using be_digits [of n] by (simp add: from_be_bytes_def to_be_bytes_def unat_of_nat)

lemma to_be_bytes_length [simp]: "length (to_be_bytes n) = 4"
  by (simp add: to_be_bytes_def)

text \<open>
  C33. Frames survive the network. A message the taker sends is read back by the maker, whatever the sizes and
  delays of the pieces in which the bytes arrive, provided the payload is at most 10 MiB and everything has arrived
  within the assembly time (and, on a connection not yet identified, by its deadline); the bytes that follow the
  frame are left for the next message.
\<close>

theorem frame_roundtrip:
  assumes "to_vec m = Some buf" "from_slice buf = Some m" "length buf \<le> MAX_RPC_MESSAGE_SIZE"
    and sent: "utill_send_message to_vec write_all m = Inr sent"
    and sk: "delivers t sk" "sock_bytes sk = sent @ rest" "t \<le> sk_now sk + MESSAGE_ASSEMBLY_TIMEOUT"
    and pending: "case pending of None \<Rightarrow> True | Some p \<Rightarrow> t \<le> p"
  shows "\<exists>sk'. read_message from_slice pending sk = (Inr m, sk') \<and> sock_bytes sk' = rest \<and> delivers t sk'"
proof -
  have len: "length buf < 2 ^ 32" using assms(3) by (simp add: MAX_RPC_MESSAGE_SIZE_def)
  from sent assms(1) have "sent = to_be_bytes (length buf) @ buf"
    using len by (auto simp: utill_send_message_def frame_def split: option.splits)
  with sk(2) obtain b0 bs where bytes: "sock_bytes sk = b0 # bs @ buf @ rest" "to_be_bytes (length buf) = b0 # bs" "length bs = 3"
    using to_be_bytes_length [of "length buf"] by (cases "to_be_bytes (length buf)") (auto simp del: to_be_bytes_length)
  have "case pending of None \<Rightarrow> t \<le> sk_now sk + CONNECTION_READ_TIMEOUT | Some p \<Rightarrow> t \<le> p"
    using pending sk(3) by (auto simp: CONNECTION_READ_TIMEOUT_def MESSAGE_ASSEMBLY_TIMEOUT_def split: option.splits)
  from read_exact_delivered [OF sk(1) _ this, of 1] bytes(1) obtain sk1 where
    sk1: "read_exact_until pending 1 sk = (Inr [b0], sk1)" "delivers t sk1" "sock_bytes sk1 = bs @ buf @ rest" "sk_now sk \<le> sk_now sk1"
    by auto
  define deadline where "deadline = (case pending of None \<Rightarrow> sk_now sk1 + MESSAGE_ASSEMBLY_TIMEOUT
    | Some p \<Rightarrow> min p (sk_now sk1 + MESSAGE_ASSEMBLY_TIMEOUT))"
  have "t \<le> deadline" using pending sk(3) sk1(4) by (auto simp: deadline_def split: option.splits)
  then have d: "case Some deadline of None \<Rightarrow> t \<le> sk_now s + CONNECTION_READ_TIMEOUT | Some p \<Rightarrow> t \<le> p" for s by simp
  from read_exact_delivered [OF sk1(2) _ d, of 3] sk1(3) bytes(3) obtain sk2 where
    sk2: "read_exact_until (Some deadline) 3 sk1 = (Inr bs, sk2)" "delivers t sk2" "sock_bytes sk2 = buf @ rest"
    by auto
  from read_exact_delivered [OF sk2(2) _ d, of "length buf"] sk2(3) obtain sk3 where
    sk3: "read_exact_until (Some deadline) (length buf) sk2 = (Inr buf, sk3)" "delivers t sk3" "sock_bytes sk3 = rest"
    by auto
  have "from_be_bytes (b0 # bs) = length buf" using be_bytes_roundtrip [OF len] bytes(2) by simp
  then have "read_message from_slice pending sk = (Inr m, sk3)"
    using sk1(1) sk2(1) sk3(1) assms(2,3)
    by (simp add: read_message_def act_simps Let_def deadline_def [symmetric] not_less)
  with sk3 show ?thesis by blast
qed

section \<open>Deadlines\<close>

definition is_read_timeout :: "maker_error \<Rightarrow> bool" where
  "is_read_timeout e \<longleftrightarrow> e = MIO WouldBlock \<or> e = MIO TimedOut"

lemma sock_read_time: "sock_read timeout n sk = (r, sk') \<Longrightarrow> sk_now sk \<le> sk_now sk' \<and> sk_now sk' \<le> sk_now sk + timeout"
  by (auto simp: sock_read_def split: list.splits if_splits sock_event.splits)

lemma sock_read_failed: "sock_read timeout n sk = (Inl k, sk') \<Longrightarrow> sock_bytes sk' = sock_bytes sk"
  by (auto simp: sock_read_def sock_bytes_def split: list.splits if_splits sock_event.splits)

text \<open>The runs of the loop, one rule per way an iteration can end.\<close>

inductive read_run :: "nat option \<Rightarrow> nat \<Rightarrow> sock \<Rightarrow> maker_error + bytes \<Rightarrow> sock \<Rightarrow> bool" for deadline where
  full: "read_run deadline 0 s (Inr []) s"
| expired: "n \<noteq> 0 \<Longrightarrow> read_timeout_at deadline (sk_now s) = Inl e \<Longrightarrow> read_run deadline n s (Inl e) s"
| set_timeout: "n \<noteq> 0 \<Longrightarrow> read_run deadline n s (Inl (MIO OtherKind)) s"
| closed: "n \<noteq> 0 \<Longrightarrow> read_timeout_at deadline (sk_now s) = Inr t \<Longrightarrow> sock_read t n s = (Inr [], s')
    \<Longrightarrow> read_run deadline n s (Inl (MIO UnexpectedEof)) s'"
| failed: "n \<noteq> 0 \<Longrightarrow> read_timeout_at deadline (sk_now s) = Inr t \<Longrightarrow> sock_read t n s = (Inl k, s') \<Longrightarrow> k \<noteq> Interrupted
    \<Longrightarrow> read_run deadline n s (Inl (read_failed deadline k)) s'"
| interrupted: "n \<noteq> 0 \<Longrightarrow> read_timeout_at deadline (sk_now s) = Inr t \<Longrightarrow> sock_read t n s = (Inl Interrupted, s1)
    \<Longrightarrow> read_run deadline n s1 r s' \<Longrightarrow> read_run deadline n s r s'"
| more: "n \<noteq> 0 \<Longrightarrow> read_timeout_at deadline (sk_now s) = Inr t \<Longrightarrow> sock_read t n s = (Inr (b # bs), s1)
    \<Longrightarrow> read_run deadline (n - length (b # bs)) s1 r s'
    \<Longrightarrow> read_run deadline n s (res_bind r (\<lambda>rest. Inr ((b # bs) @ rest))) s'"

lemma read_exact_run: "read_run deadline n s (fst (read_exact_until deadline n s)) (snd (read_exact_until deadline n s))"
proof (induction deadline n s rule: read_exact_until.induct)
  case (1 deadline n s)
  show ?case
  proof (cases "n = 0 \<or> \<not> sk_set_timeout_ok s \<or> (\<exists>e. read_timeout_at deadline (sk_now s) = Inl e)")
    case True
    then show ?thesis
      by (auto simp: read_exact_until.simps [of deadline n s] intro: full expired set_timeout split: sum.splits)
  next
    case False
    then obtain t where n: "n \<noteq> 0" and ok: "sk_set_timeout_ok s" and t: "read_timeout_at deadline (sk_now s) = Inr t"
      by (cases "read_timeout_at deadline (sk_now s)") auto
    obtain x s1 where read: "sock_read t n s = (x, s1)" by (cases "sock_read t n s")
    note eq = read_exact_until.simps [of deadline n s]
    consider "x = Inl Interrupted" | k where "x = Inl k" "k \<noteq> Interrupted" | "x = Inr []" | b bs where "x = Inr (b # bs)"
      by (metis neq_Nil_conv sum.exhaust)
    then show ?thesis
    proof cases
      case 1
      have "read_run deadline n s1 (fst (read_exact_until deadline n s1)) (snd (read_exact_until deadline n s1))"
        by (rule "1.IH"(1) [OF n t _ read [symmetric] 1 refl]) (simp add: ok)
      with read n ok t 1 show ?thesis by (auto simp: eq intro: interrupted)
    next
      case 4
      have "read_run deadline (n - length (b # bs)) s1 (fst (read_exact_until deadline (n - length (b # bs)) s1))
          (snd (read_exact_until deadline (n - length (b # bs)) s1))"
        by (rule "1.IH"(2) [OF n t _ read [symmetric] 4 refl]) (simp add: ok)
      from more [OF n t read [unfolded 4] this] n ok t read 4 show ?thesis
        by (cases "read_exact_until deadline (n - length (b # bs)) s1") (auto simp: eq res_bind_def split: sum.splits)
    qed (use n ok t read in \<open>auto simp: eq intro: closed failed\<close>)
  qed
qed

lemma read_exact_runI: "read_exact_until deadline n s = (r, s') \<Longrightarrow> read_run deadline n s r s'"
  using read_exact_run [of deadline n s] by simp

lemma read_run_time: "read_run (Some d) n s r s' \<Longrightarrow> sk_now s' \<le> max (sk_now s) (d + 1000000)"
  by (induction rule: read_run.induct) (auto simp: read_timeout_at_def dest!: sock_read_time split: if_splits)

lemma expired_no_timeout: "read_timeout_at deadline now = Inl e \<Longrightarrow> \<not> is_read_timeout e"
  by (auto simp: read_timeout_at_def is_read_timeout_def split: option.splits if_splits)

lemma read_run_timeout: "read_run deadline n s r s' \<Longrightarrow> r = Inl e \<Longrightarrow> is_read_timeout e \<Longrightarrow> deadline = None"
  by (induction rule: read_run.induct)
    (auto simp: read_failed_def res_bind_def is_read_timeout_def dest: expired_no_timeout [unfolded is_read_timeout_def] split: sum.splits if_splits)

text \<open>The first byte is read in one go: a timeout while waiting for it has consumed nothing.\<close>

lemma read_run_first_byte:
  "read_run deadline n s r s' \<Longrightarrow> n = 1 \<Longrightarrow> r = Inl e \<Longrightarrow> is_read_timeout e \<Longrightarrow> sock_bytes s' = sock_bytes s"
proof (induction rule: read_run.induct)
  case (more n s t b bs s1 r s')
  then have "read_run deadline 0 s1 r s'" by simp
  then have "r = Inr []" by (cases rule: read_run.cases) auto
  with more show ?case by (simp add: res_bind_def)
qed (auto dest: sock_read_failed expired_no_timeout simp: is_read_timeout_def)

text \<open>
  A call of \<open>read_message\<close> fails at the first byte, or goes on with the deadline of the frame, after which no
  error is a read timeout.
\<close>

definition frame_deadline :: "nat option \<Rightarrow> sock \<Rightarrow> nat" where
  "frame_deadline pending sk = (case pending of None \<Rightarrow> sk_now sk + MESSAGE_ASSEMBLY_TIMEOUT
     | Some p \<Rightarrow> min p (sk_now sk + MESSAGE_ASSEMBLY_TIMEOUT))"

lemma read_message_cases:
  assumes "read_message from_slice pending sk = (r, sk')"
  obtains (first) e where "read_run pending 1 sk (Inl e) sk'" "r = Inl e"
  | (frame) b0 sk1 x2 sk2 x3 n where "read_run pending 1 sk (Inr b0) sk1" "read_run (Some (frame_deadline pending sk1)) 3 sk1 x2 sk2"
      "sk' = sk2 \<or> read_run (Some (frame_deadline pending sk1)) n sk2 x3 sk'" "\<not> (\<exists>e. r = Inl e \<and> is_read_timeout e)"
proof (cases "read_exact_until pending 1 sk")
  case (Pair x sk1)
  show thesis
  proof (cases x)
    case (Inl e)
    with assms Pair have "r = Inl e" "sk' = sk1" by (simp_all add: read_message_def act_bind_def)
    with read_exact_runI [OF Pair] Inl show thesis by (intro first) simp_all
  next
    case (Inr b0)
    let ?D = "Some (frame_deadline pending sk1)"
    obtain x2 sk2 where second: "read_exact_until ?D 3 sk1 = (x2, sk2)" by (cases "read_exact_until ?D 3 sk1")
    obtain n x3 sk3 where third: "read_exact_until ?D n sk2 = (x3, sk3)" "\<And>b1. x2 = Inr b1 \<Longrightarrow> n = from_be_bytes (b0 @ b1)"
      by (cases x2; cases "read_exact_until ?D (from_be_bytes (b0 @ projr x2)) sk2") auto
    from assms Pair Inr second third
    have sk': "sk' = sk2 \<or> sk' = sk3"
      and err: "r = Inl e \<Longrightarrow> x2 = Inl e \<or> x3 = Inl e \<or> (\<exists>m. e = MGeneral m)" for e
      by (auto simp: read_message_def act_bind_def act_get_def act_ensure_def act_lift_def ensure_def
        ok_or_def Let_def frame_deadline_def [symmetric] split: prod.splits sum.splits if_splits option.splits)
    have "\<not> (\<exists>e. r = Inl e \<and> is_read_timeout e)"
      using err read_run_timeout [OF read_exact_runI [OF second]] read_run_timeout [OF read_exact_runI [OF third(1)]]
      by (auto simp: is_read_timeout_def)
    with sk' show thesis
      using Inr read_exact_runI [OF Pair] read_exact_runI [OF second] read_exact_runI [OF third(1)] by (intro frame) auto
  qed
qed

text \<open>
  Reading cannot be drawn out and keeps the frames aligned. On a connection that is not yet identified
  \<open>read_message\<close> returns within a millisecond of its deadline, however slowly the peer sends; and when it
  reports a read timeout, on which the handler goes on reading, it was waiting for the first byte of a frame without a
  deadline and has consumed none of the peer's bytes.
\<close>

lemma read_message_deadline:
  assumes "read_message from_slice pending sk = (r, sk')"
  shows "(pending = Some p \<longrightarrow> sk_now sk' \<le> max (sk_now sk) (p + 1000000))
    \<and> (\<forall>e. r = Inl e \<and> is_read_timeout e \<longrightarrow> pending = None \<and> sock_bytes sk' = sock_bytes sk)"
  using assms
proof (cases rule: read_message_cases)
  case (first e)
  then show ?thesis using read_run_timeout [OF first(1) refl] read_run_first_byte [OF first(1) refl refl]
    by (auto dest: read_run_time)
next
  case (frame b0 sk1 x2 sk2 x3 n)
  have "sk_now sk' \<le> max (sk_now sk) (p + 1000000)" if p: "pending = Some p"
  proof -
    have "frame_deadline pending sk1 \<le> p" by (simp add: p frame_deadline_def)
    moreover note read_run_time [OF frame(1) [unfolded p]] read_run_time [OF frame(2)]
    moreover have "sk_now sk' \<le> max (sk_now sk2) (frame_deadline pending sk1 + 1000000)"
      using frame(3) by (auto dest: read_run_time)
    ultimately show ?thesis by linarith
  qed
  with frame(4) show ?thesis by blast
qed

section \<open>Concrete runs\<close>

lemma sample_acquire: "try_acquire 0 (limiter_new 0) =
    (Some \<lparr>pm_pending = True\<rparr>, \<lparr>lm_active = 1, lm_pending = 1, lm_tokens = 29, lm_last_refill = 0\<rparr>)"
  using fl_of_nat [of 30, simplified] fl_of_nat [of 29, simplified]
  by (simp add: try_acquire_def limiter_new_def as_secs_f64_def f64_of_nat_def f64_add_def f64_div_def f64_mul_def f64_sub_def
    Let_def MAX_INBOUND_CONNECTIONS_def MAX_PENDING_CONNECTIONS_def MAX_CONCURRENT_SWAPS_def)

lemma sample_limiter_run:
  "limiter_step\<^sup>*\<^sup>* (limiter_new 0, []) (\<lparr>lm_active = 1, lm_pending = 0, lm_tokens = 29, lm_last_refill = 0\<rparr>, [\<lparr>pm_pending = False\<rparr>])"
proof -
  have "limiter_step (limiter_new 0, [])
      (\<lparr>lm_active = 1, lm_pending = 1, lm_tokens = 29, lm_last_refill = 0\<rparr>, [\<lparr>pm_pending = True\<rparr>])"
    using limiter_step.acquired [OF sample_acquire, of "[]"] by simp
  moreover have "limiter_step (\<lparr>lm_active = 1, lm_pending = 1, lm_tokens = 29, lm_last_refill = 0\<rparr>, [\<lparr>pm_pending = True\<rparr>])
      (\<lparr>lm_active = 1, lm_pending = 0, lm_tokens = 29, lm_last_refill = 0\<rparr>, [\<lparr>pm_pending = False\<rparr>])"
    using limiter_step.established [of "\<lparr>pm_pending = True\<rparr>" "\<lparr>lm_active = 1, lm_pending = 1, lm_tokens = 29, lm_last_refill = 0\<rparr>" _ _ "[]" "[]"]
    by (simp add: mark_established_def checked_sub_def)
  ultimately show ?thesis by (meson converse_rtranclp_into_rtranclp rtranclp.rtrancl_refl)
qed

theorem connection_budget_witness:
  "mark_established \<lparr>pm_pending = False\<rparr> \<lparr>lm_active = 1, lm_pending = 0, lm_tokens = 29, lm_last_refill = 0\<rparr> \<noteq> None"
  using connection_budget [OF sample_limiter_run] by simp

lemma connection_admitted_witness:
  "\<exists>l'. try_acquire 250000000 (limiter_new 0) = (Some \<lparr>pm_pending = True\<rparr>, l') \<and> lm_active l' = 1"
  using connection_admitted [of 0 "limiter_new 0" "[]" 250000000]
  by (simp add: limiter_new_def MAX_INBOUND_CONNECTIONS_def MAX_PENDING_CONNECTIONS_def MAX_CONCURRENT_SWAPS_def)

definition sample_sock :: sock where
  "sample_sock = \<lparr>sk_now = 0, sk_set_timeout_ok = True,
     sk_events = [(5, Arrive [0, 0]), (3, Arrive [0, 2, 7]), (0, Arrive [8, 9])]\<rparr>"

theorem frame_roundtrip_witness:
  "\<exists>sk'. read_message (\<lambda>bs. if bs = [7, 8] then Some () else None) (Some 20) sample_sock = (Inr (), sk')
     \<and> sock_bytes sk' = [9] \<and> delivers 8 sk'"
  using frame_roundtrip [of "\<lambda>_. Some [7, 8]" "()" "[7, 8]" "\<lambda>bs. if bs = [7, 8] then Some () else None" "\<lambda>_. None"
      "[0, 0, 0, 2, 7, 8]" 8 sample_sock "[9]" "Some 20"]
  by (simp add: MAX_RPC_MESSAGE_SIZE_def utill_send_message_def frame_def to_be_bytes_def delivers_def sample_sock_def
    total_delay_def sock_bytes_def MESSAGE_ASSEMBLY_TIMEOUT_def nanos_per_sec_def)

definition slow_sock :: sock where
  "slow_sock = \<lparr>sk_now = 0, sk_set_timeout_ok = True, sk_events = [(30 * nanos_per_sec, Arrive [0])]\<rparr>"

lemma read_message_deadline_witness:
  "sk_now (snd (read_message (\<lambda>_. Some ()) (Some PENDING_CONNECTION_TIMEOUT) slow_sock)) \<le> PENDING_CONNECTION_TIMEOUT + 1000000"
  using read_message_deadline [of "\<lambda>_. Some ()" "Some PENDING_CONNECTION_TIMEOUT" slow_sock
      "fst (read_message (\<lambda>_. Some ()) (Some PENDING_CONNECTION_TIMEOUT) slow_sock)"
      "snd (read_message (\<lambda>_. Some ()) (Some PENDING_CONNECTION_TIMEOUT) slow_sock)" PENDING_CONNECTION_TIMEOUT]
  by (simp add: slow_sock_def)

end
