(* ===== verification/MakerConnection.thy ===== *)
theory MakerConnection
  imports MakerFunding MakerNet
begin

text \<open>
  One connection of the maker server: \<open>handle_connection\<close> of \<open>maker/server.rs\<close> with the frames of
  \<open>MakerNet\<close>, the dispatch of \<open>MakerHandlers\<close> and the server of \<open>MakerServer\<close>. What the thread
  does not control is the record \<open>'x conn_env\<close>: the codec, the outcome of writes, the shutdown flag, the
  time a message takes, and what the other threads do to the server while this one waits. The thread's clock is
  the clock of its socket. A value \<open>MPanic\<close> unwinds the thread, which still drops the permit.
\<close>

section \<open>The environment of the thread\<close>

definition IDLE_CONNECTION_TIMEOUT :: nat where "IDLE_CONNECTION_TIMEOUT = 900"

record 'x conn_env =
  ce_lib :: btc
  ce_world :: "'x world"
  ce_openswap_keys :: "nat \<Rightarrow> public_key \<times> seckey"
  ce_contract_keys :: "nat \<Rightarrow> seckey \<times> seckey"
  ce_from_slice :: "bytes \<Rightarrow> taker_to_maker_message option"
  ce_to_vec :: "maker_to_taker_message \<Rightarrow> bytes option"
  ce_write :: "'x server \<Rightarrow> bytes \<Rightarrow> io_kind option"
  ce_shutdown :: "'x server \<Rightarrow> bool"
  ce_others :: "nat \<Rightarrow> 'x server \<Rightarrow> 'x server"
  ce_handling :: "taker_to_maker_message \<Rightarrow> 'x server \<Rightarrow> nat"
  ce_clock :: "taker_to_maker_message \<Rightarrow> 'x server \<Rightarrow> nat \<Rightarrow> nat"

record 'x handler =
  hd_server :: "'x server"
  hd_conn :: conn
  hd_permit :: permit
  hd_limiter :: limiter
  hd_sock :: sock
  hd_pending_deadline :: nat
  hd_last_keepalive :: "nat option"

datatype flow = Next | Done "maker_error + unit"

definition now_ms :: "'x handler \<Rightarrow> nat" where
  "now_ms h = sk_now (hd_sock h) div 1000000"

definition wait_sock :: "nat \<Rightarrow> sock \<Rightarrow> sock" where
  "wait_sock d sk = sk\<lparr>sk_now := sk_now sk + d\<rparr>"

section \<open>A completed swap\<close>

definition fully_swept :: "btc \<Rightarrow> conn \<Rightarrow> recovery_outcome \<Rightarrow> bool" where
  "fully_swept B c outcome \<longleftrightarrow> cs_incoming c \<noteq> [] \<and>
     list_all (\<lambda>coin. list_ex (\<lambda>(resolved_txid, _). resolved_txid = b_txid B (inc_contract_tx coin)) (ro_resolved outcome)) (cs_incoming c)"

definition contract_watches :: "btc \<Rightarrow> transaction \<Rightarrow> (outpoint \<times> script) list" where
  "contract_watches B tx = map (\<lambda>(vout, out). (\<lparr>op_txid = b_txid B tx, op_vout = vout\<rparr>, to_spk out)) (enumerate 0 (tx_output tx))"

definition unwatch_all :: "btc \<Rightarrow> 'x world \<Rightarrow> conn \<Rightarrow> 'x server \<Rightarrow> 'x server" where
  "unwatch_all B X c = fold (\<lambda>(op, spk). sv_unwatch_outpoint X op spk)
     (concat (map (contract_watches B \<circ> inc_contract_tx) (cs_incoming c))
      @ concat (map (contract_watches B \<circ> og_contract_tx) (cs_outgoing c)))"

definition on_swap_id :: "conn \<Rightarrow> (swap_id \<Rightarrow> ('x, unit) sact) \<Rightarrow> ('x, unit) sact" where
  "on_swap_id c f = (case cs_swap_id c of Some swap_id \<Rightarrow> f swap_id | None \<Rightarrow> act_ret ())"

definition settle :: "btc \<Rightarrow> 'x world \<Rightarrow> conn \<Rightarrow> ('x, unit) sact" where
  "settle B X c =
     act_seq (on_swap_id c remove_swap_state) (
     act_try (sv_sweep_incoming_swapcoins B X (cs_incoming c)) (\<lambda>sweep_outcome.
     act_seq (act_ensure (sweep_outcome \<noteq> Inl MPanic) MPanic) (
     act_try (sv_sync_and_save_wallet X) (\<lambda>synced.
     act_seq (act_ensure (synced \<noteq> Inl MPanic) MPanic) (
     let settlement_complete = (case sweep_outcome of
           Inr outcome \<Rightarrow> cs_swap_id c \<noteq> None \<and> fully_swept B c outcome | Inl _ \<Rightarrow> False) in
     if \<not> settlement_complete then on_swap_id c (\<lambda>swap_id. sv_store_connection_state X swap_id c False)
     else act_upd (unwatch_all B X c))))))"

section \<open>The loop\<close>

definition swap_is_quiet :: "nat \<Rightarrow> conn \<Rightarrow> 'x server \<Rightarrow> bool" where
  "swap_is_quiet now c s = (case cs_swap_id c of
     Some swap_id \<Rightarrow> (case fst (sv_get_connection_state swap_id s) of
         Inr (Some stored) \<Rightarrow> is_timed_out now stored IDLE_CONNECTION_TIMEOUT
       | _ \<Rightarrow> is_timed_out now c IDLE_CONNECTION_TIMEOUT)
   | None \<Rightarrow> is_timed_out now c IDLE_CONNECTION_TIMEOUT)"

text \<open>The keep-alive check: \<open>None\<close> lets the message through.\<close>

definition check_heartbeat :: "taker_to_maker_message \<Rightarrow> 'x handler \<Rightarrow> (maker_error + unit) option \<times> 'x handler" where
  "check_heartbeat message h = (case message of
     TmWaitingFundingConfirmation swap_id \<Rightarrow>
       (case sv_get_connection_state swap_id (hd_server h) of
          (Inl e, s) \<Rightarrow> (Some (Inl e), h\<lparr>hd_server := s\<rparr>)
        | (Inr stored, s) \<Rightarrow>
            (case admit_heartbeat (stored \<noteq> None) (sk_now (hd_sock h)) (hd_last_keepalive h) (hd_permit h) (hd_limiter h) of
               None \<Rightarrow> (Some (Inl MPanic), h)
             | Some (action, last_keepalive, permit, limiter) \<Rightarrow>
                 (if action = HbAccept then None else Some (Inr ()),
                  h\<lparr>hd_server := s, hd_last_keepalive := last_keepalive, hd_permit := permit, hd_limiter := limiter\<rparr>)))
   | _ \<Rightarrow> (None, h))"

definition identified :: "'x handler \<Rightarrow> 'x handler option" where
  "identified h = (if cs_swap_id (hd_conn h) \<noteq> None
     then map_option (\<lambda>(permit, limiter). h\<lparr>hd_permit := permit, hd_limiter := limiter\<rparr>) (mark_established (hd_permit h) (hd_limiter h))
     else Some h)"

definition reply_and_settle :: "'x conn_env \<Rightarrow> maker_to_taker_message option \<Rightarrow> 'x handler \<Rightarrow> flow \<times> 'x handler" where
  "reply_and_settle E response h =
     (case (case response of None \<Rightarrow> Inr [] | Some m \<Rightarrow> send_message (ce_to_vec E) (ce_write E (hd_server h)) m) of
        Inl _ \<Rightarrow> (Done (Inr ()), h)
      | Inr _ \<Rightarrow>
          if cs_phase (hd_conn h) = Completed
          then (case settle (ce_lib E) (ce_world E) (hd_conn h) (hd_server h) of (r, s) \<Rightarrow> (Done r, h\<lparr>hd_server := s\<rparr>))
          else (Next, h))"

definition process_message :: "'x conn_env \<Rightarrow> taker_to_maker_message \<Rightarrow> 'x handler \<Rightarrow> flow \<times> 'x handler" where
  "process_message E message h =
     (let took = ce_handling E message (hd_server h);
          clk = ce_clock E message (hd_server h) in
      case handle_message (ce_lib E) (server_maker (ce_lib E) (ce_world E) (ce_openswap_keys E)) (ce_contract_keys E) clk message
             (hd_server h, hd_conn h) of
        (Inl e, (s, c)) \<Rightarrow> (Done (if e = MPanic then Inl MPanic else Inr ()), h\<lparr>hd_server := s, hd_conn := c\<rparr>)
      | (Inr response, (s, c)) \<Rightarrow>
          let h = h\<lparr>hd_server := s, hd_conn := c, hd_sock := wait_sock took (hd_sock h),
                hd_pending_deadline := hd_pending_deadline h + (if pm_pending (hd_permit h) then took else 0)\<rparr> in
          (case identified h of
             None \<Rightarrow> (Done (Inl MPanic), h)
           | Some h \<Rightarrow> reply_and_settle E response (h\<lparr>hd_conn := touch (now_ms h) (hd_conn h)\<rparr>)))"

definition conn_iteration :: "'x conn_env \<Rightarrow> 'x handler \<Rightarrow> flow \<times> 'x handler" where
  "conn_iteration E h =
     (if ce_shutdown E (hd_server h) \<or> is_timed_out (now_ms h) (hd_conn h) IDLE_CONNECTION_TIMEOUT then (Done (Inr ()), h)
      else case read_message (ce_from_slice E) (if pm_pending (hd_permit h) then Some (hd_pending_deadline h) else None) (hd_sock h) of
        (r, sk) \<Rightarrow>
          let h = h\<lparr>hd_sock := sk, hd_server := ce_others E (sk_now sk - sk_now (hd_sock h)) (hd_server h)\<rparr> in
          (case r of
             Inl e \<Rightarrow> (if is_read_timeout e \<and> \<not> swap_is_quiet (now_ms h) (hd_conn h) (hd_server h) then Next else Done (Inr ()), h)
           | Inr message \<Rightarrow>
               (case check_heartbeat message h of
                  (Some r, h) \<Rightarrow> (Done r, h)
                | (None, h) \<Rightarrow> process_message E message h)))"

fun conn_loop :: "nat \<Rightarrow> 'x conn_env \<Rightarrow> 'x handler \<Rightarrow> ((maker_error + unit) \<times> 'x handler) option" where
  "conn_loop 0 E h = None"
| "conn_loop (Suc fuel) E h = (case conn_iteration E h of
     (Next, h) \<Rightarrow> conn_loop fuel E h
   | (Done r, h) \<Rightarrow> Some (r, h))"

text \<open>The whole handler; the permit is dropped at the end, panics included. \<open>None\<close> is no result within the fuel.\<close>

definition handle_connection ::
    "nat \<Rightarrow> 'x conn_env \<Rightarrow> 'x server \<Rightarrow> sock \<Rightarrow> permit \<Rightarrow> limiter \<Rightarrow> ((maker_error + unit) \<times> 'x server \<times> limiter option) option" where
  "handle_connection fuel E s sk permit limiter =
     (if \<not> sk_set_timeout_ok sk then Some (Inl (MIO OtherKind), s, drop_permit permit limiter)
      else map_option (\<lambda>(r, h). (r, hd_server h, drop_permit (hd_permit h) (hd_limiter h)))
        (conn_loop fuel E \<lparr>hd_server = s, hd_conn = conn_default (sk_now sk div 1000000), hd_permit = permit, hd_limiter = limiter,
           hd_sock = sk, hd_pending_deadline = sk_now sk + PENDING_CONNECTION_TIMEOUT, hd_last_keepalive = None\<rparr>))"

section \<open>Every connection ends\<close>

text \<open>What the peer can still make the handler do: its pending events, their bytes and their delays.\<close>

definition event_work :: "nat \<times> sock_event \<Rightarrow> nat" where
  "event_work = (\<lambda>(d, ev). 1 + d + (case ev of Arrive bs \<Rightarrow> length bs | Fail _ \<Rightarrow> 0))"

definition sock_work :: "sock \<Rightarrow> nat" where
  "sock_work sk = sum_list (map event_work (sk_events sk))"

lemma wait_sock_work [simp]: "sock_work (wait_sock d sk) = sock_work sk"
  by (simp add: sock_work_def wait_sock_def)

lemma sock_read_work:
  assumes "sock_read t n s = (r, s')" "0 < t" "0 < n"
  shows "sock_work s' < sock_work s \<or> r = Inr [] \<and> s' = s"
  using assms by (auto simp: sock_read_def sock_work_def event_work_def split: list.splits if_splits sock_event.splits)

lemma read_timeout_pos: "read_timeout_at deadline now = Inr t \<Longrightarrow> 0 < t"
  by (auto simp: read_timeout_at_def split: option.splits if_splits)

lemma read_run_work: "read_run deadline n s r s' \<Longrightarrow> sock_work s' \<le> sock_work s
    \<and> (n \<noteq> 0 \<and> (\<forall>e. r = Inl e \<longrightarrow> is_read_timeout e) \<longrightarrow> sock_work s' < sock_work s)"
proof (induction rule: read_run.induct)
  case (more n s t b bs s1 r s')
  with sock_read_work [OF more(3) read_timeout_pos [OF more(2)]] show ?case by auto
next
  case (interrupted n s t s1 r s')
  with sock_read_work [OF interrupted(3) read_timeout_pos [OF interrupted(2)]] show ?case by auto
next
  case (failed n s t k s')
  with sock_read_work [OF failed(3) read_timeout_pos [OF failed(2)]] show ?case by auto
next
  case (closed n s t s')
  with sock_read_work [OF closed(3) read_timeout_pos [OF closed(2)]] show ?case by (auto simp: is_read_timeout_def)
qed (auto simp: is_read_timeout_def dest: expired_no_timeout)

lemma read_message_work:
  assumes "read_message from_slice pending sk = (r, sk')" "\<forall>e. r = Inl e \<longrightarrow> is_read_timeout e"
  shows "sock_work sk' < sock_work sk"
  using assms(1)
proof (cases rule: read_message_cases)
  case (first e)
  with assms(2) read_run_work [OF first(1)] show ?thesis by simp
next
  case (frame b0 sk1 x2 sk2 x3 n)
  moreover have "sock_work sk' \<le> sock_work sk2" using frame(3) by (auto dest: read_run_work)
  moreover have "sock_work sk1 < sock_work sk" using read_run_work [OF frame(1)] by simp
  ultimately show ?thesis using read_run_work [OF frame(2)] by linarith
qed

text \<open>A handler holds one slot: what its permit still owes the limiter.\<close>

definition slot :: "'x handler \<Rightarrow> nat \<times> nat \<times> bool" where
  "slot h = (lm_active (hd_limiter h), lm_pending (hd_limiter h) - (if pm_pending (hd_permit h) then 1 else 0),
     pm_pending (hd_permit h) \<longrightarrow> lm_pending (hd_limiter h) \<noteq> 0)"

lemma heartbeat_keeps: "check_heartbeat message h = (r, h') \<Longrightarrow> hd_sock h' = hd_sock h \<and> (snd (snd (slot h)) \<longrightarrow> slot h' = slot h)"
  by (auto simp: check_heartbeat_def slot_def established_counters dest!: heartbeat_counters
    split: taker_to_maker_message.splits prod.splits sum.splits option.splits if_splits)

lemma identified_keeps: "identified h = Some h' \<Longrightarrow> hd_sock h' = hd_sock h \<and> (snd (snd (slot h)) \<longrightarrow> slot h' = slot h)"
  by (auto simp: identified_def slot_def established_counters split: if_splits)

lemma reply_keeps: "reply_and_settle E response h = (r, h') \<Longrightarrow> hd_sock h' = hd_sock h \<and> slot h' = slot h"
  by (auto simp: reply_and_settle_def slot_def split: sum.splits if_splits prod.splits)

lemma process_keeps:
  assumes "process_message E message h = (r, h')"
  shows "sock_work (hd_sock h') = sock_work (hd_sock h) \<and> (snd (snd (slot h)) \<longrightarrow> slot h' = slot h)"
proof -
  obtain x s c where run: "handle_message (ce_lib E) (server_maker (ce_lib E) (ce_world E) (ce_openswap_keys E)) (ce_contract_keys E)
      (ce_clock E message (hd_server h)) message (hd_server h, hd_conn h) = (x, (s, c))" by (metis surj_pair)
  show ?thesis
  proof (cases x)
    case (Inl e)
    with assms run show ?thesis by (auto simp: process_message_def slot_def)
  next
    case (Inr response)
    let ?took = "ce_handling E message (hd_server h)"
    let ?h = "h\<lparr>hd_server := s, hd_conn := c, hd_sock := wait_sock ?took (hd_sock h),
      hd_pending_deadline := hd_pending_deadline h + (if pm_pending (hd_permit h) then ?took else 0)\<rparr>"
    have "slot ?h = slot h" by (simp add: slot_def)
    with assms run Inr show ?thesis
      by (cases "identified ?h")
        (auto simp: process_message_def Let_def slot_def dest!: identified_keeps reply_keeps)
  qed
qed

lemma iteration_keeps:
  assumes "conn_iteration E h = (r, h')" "snd (snd (slot h))"
  shows "slot h' = slot h \<and> (r = Next \<longrightarrow> sock_work (hd_sock h') < sock_work (hd_sock h))"
proof -
  obtain x sk where read: "read_message (ce_from_slice E) (if pm_pending (hd_permit h) then Some (hd_pending_deadline h) else None) (hd_sock h) = (x, sk)"
    by (cases "read_message (ce_from_slice E) (if pm_pending (hd_permit h) then Some (hd_pending_deadline h) else None) (hd_sock h)")
  let ?h = "h\<lparr>hd_sock := sk, hd_server := ce_others E (sk_now sk - sk_now (hd_sock h)) (hd_server h)\<rparr>"
  have slot: "slot ?h = slot h" by (simp add: slot_def)
  show ?thesis
  proof (cases "ce_shutdown E (hd_server h) \<or> is_timed_out (now_ms h) (hd_conn h) IDLE_CONNECTION_TIMEOUT")
    case True
    with assms show ?thesis by (auto simp: conn_iteration_def)
  next
    case False
    show ?thesis
    proof (cases x)
      case (Inl e)
      with assms read False read_message_work [OF read] slot show ?thesis
        by (auto simp: conn_iteration_def Let_def split: if_splits)
    next
      case (Inr message)
      obtain hb h1 where hb: "check_heartbeat message ?h = (hb, h1)" by (cases "check_heartbeat message ?h")
      from read_message_work [OF read] Inr have "sock_work sk < sock_work (hd_sock h)" by simp
      with assms read False Inr hb slot heartbeat_keeps [OF hb] process_keeps [of E message h1] show ?thesis
        by (cases hb) (auto simp: conn_iteration_def Let_def)
    qed
  qed
qed

lemma conn_loop_ends:
  "snd (snd (slot h)) \<Longrightarrow> sock_work (hd_sock h) < fuel \<Longrightarrow> \<exists>r h'. conn_loop fuel E h = Some (r, h') \<and> slot h' = slot h"
proof (induction fuel arbitrary: h)
  case (Suc fuel)
  obtain r h' where it: "conn_iteration E h = (r, h')" by (cases "conn_iteration E h")
  note keeps = iteration_keeps [OF it Suc.prems(1)]
  show ?case
  proof (cases r)
    case Next
    with keeps Suc.prems have "snd (snd (slot h'))" "sock_work (hd_sock h') < fuel" by auto
    from Suc.IH [OF this] it Next keeps show ?thesis by auto
  qed (use it keeps in simp)
qed simp


section \<open>The read timeout\<close>

lemma long_wait_times_out:
  assumes "CONNECTION_READ_TIMEOUT < d" "sk_set_timeout_ok sk" "sk_events sk = (d, ev) # evs"
  shows "read_message from_slice None sk = (Inl (MIO WouldBlock),
    sk\<lparr>sk_now := sk_now sk + CONNECTION_READ_TIMEOUT, sk_events := (d - CONNECTION_READ_TIMEOUT, ev) # evs\<rparr>)"
proof -
  have "max CONNECTION_READ_TIMEOUT 1000000 = CONNECTION_READ_TIMEOUT"
    by (simp add: CONNECTION_READ_TIMEOUT_def nanos_per_sec_def)
  with assms show ?thesis
    by (simp add: read_message_def act_bind_def read_exact_until.simps [of None 1] read_exact_until.simps [of None "Suc 0"]
      read_timeout_at_def sock_read_def read_failed_def)
qed

text \<open>
  C35. A read timeout always closes the connection. When nothing arrives for the 30 minutes of the read timeout
  the handler returns and what the peer sends next is never read, also when the stored swap shows recent activity and the
  handler goes on to the next iteration: the idle check there looks only at the connection itself, which has
  been silent for longer than its limit of 15 minutes.
\<close>

theorem read_timeout_closes_connection:
  assumes "\<not> pm_pending (hd_permit h)" "sk_set_timeout_ok (hd_sock h)" "sk_events (hd_sock h) = (d, ev) # evs"
    "CONNECTION_READ_TIMEOUT < d" "\<not> ce_shutdown E (hd_server h)" "cs_last_activity (hd_conn h) \<le> now_ms h"
    "\<not> is_timed_out (now_ms h) (hd_conn h) IDLE_CONNECTION_TIMEOUT"
  shows "\<exists>h'. conn_loop (Suc (Suc fuel)) E h = Some (Inr (), h') \<and> hd_conn h' = hd_conn h
    \<and> sk_events (hd_sock h') = (d - CONNECTION_READ_TIMEOUT, ev) # evs"
proof -
  let ?sk = "hd_sock h\<lparr>sk_now := sk_now (hd_sock h) + CONNECTION_READ_TIMEOUT, sk_events := (d - CONNECTION_READ_TIMEOUT, ev) # evs\<rparr>"
  let ?h = "h\<lparr>hd_sock := ?sk, hd_server := ce_others E CONNECTION_READ_TIMEOUT (hd_server h)\<rparr>"
  have first: "conn_iteration E h = (if \<not> swap_is_quiet (now_ms ?h) (hd_conn h) (hd_server ?h) then Next else Done (Inr ()), ?h)"
    using assms long_wait_times_out [OF assms(4,2,3), of "ce_from_slice E"]
    by (simp add: conn_iteration_def Let_def is_read_timeout_def)
  have "now_ms ?h = now_ms h + 1800000"
    by (simp add: now_ms_def CONNECTION_READ_TIMEOUT_def nanos_per_sec_def)
  then have "is_timed_out (now_ms ?h) (hd_conn ?h) IDLE_CONNECTION_TIMEOUT"
    using assms(6) by (simp add: is_timed_out_def IDLE_CONNECTION_TIMEOUT_def)
  then have "conn_iteration E ?h = (Done (Inr ()), ?h)" by (simp add: conn_iteration_def)
  with first show ?thesis by simp
qed

section \<open>Settlement\<close>

abbreviation table_is :: "(swap_id \<times> swap_state) list \<Rightarrow> bool \<Rightarrow> 'x server \<Rightarrow> bool" where
  "table_is swaps poisoned \<equiv> \<lambda>s. sv_swaps s = swaps \<and> sv_swaps_poisoned s = poisoned"

lemma table_kept [hoare_intros]:
  "act_inv (table_is swaps p) lock_wallet" "act_inv (table_is swaps p) (on_world h f)" "act_inv (table_is swaps p) (on_both g)"
  by (auto simp: act_inv_iff lock_wallet_def on_world_def on_both_def split: prod.splits)

lemma sweep_keeps_table: "act_inv (table_is swaps p) (sv_sweep_incoming_swapcoins B X coins)"
  by (auto simp: sv_sweep_incoming_swapcoins_def sv_sync_and_save_wallet_def intro!: hoare_intros)

lemma sync_keeps_table: "act_inv (table_is swaps p) (sv_sync_and_save_wallet X)"
  by (auto simp: sv_sync_and_save_wallet_def intro!: hoare_intros)

lemma unwatch_keeps_table: "sv_swaps (unwatch_all B X c s) = sv_swaps s"
proof -
  have "sv_swaps (fold (\<lambda>(op, spk). sv_unwatch_outpoint X op spk) ws s) = sv_swaps s" for ws s
    by (induction ws arbitrary: s) (auto simp: sv_unwatch_outpoint_def)
  then show ?thesis by (simp add: unwatch_all_def)
qed

text \<open>
  C20. A completed swap leaves the table of ongoing swaps exactly when all its incoming coins were swept. Otherwise, also when
  the sweep fails, the table afterwards holds the swap with all its coins, marked as completed, where the
  idle checker finds it and starts recovery; no other swap is touched.
\<close>

theorem settlement_accounts_for_coins:
  assumes "cs_swap_id c = Some i" "settle B X c s = (Inr (), s')"
  shows "if \<exists>outcome. fst (sv_sweep_incoming_swapcoins B X (cs_incoming c) (snd (remove_swap_state i s))) = Inr outcome \<and> fully_swept B c outcome
    then sv_swaps s' = AList.delete i (sv_swaps s)
    else \<exists>now. sv_swaps s' = AList.delete i (sv_swaps s) @ [(i, write_swap_state now c (swap_state_default now))]"
proof -
  from assms obtain s1 where s1: "remove_swap_state i s = (Inr (), s1)"
    by (auto simp: settle_def on_swap_id_def act_bind_Inr_iff)
  then have t1: "sv_swaps s1 = AList.delete i (sv_swaps s)" "\<not> sv_swaps_poisoned s1"
    by (auto simp: remove_swap_state_def act_simps)
  obtain o1 s2 where s2: "sv_sweep_incoming_swapcoins B X (cs_incoming c) s1 = (o1, s2)"
    by (cases "sv_sweep_incoming_swapcoins B X (cs_incoming c) s1")
  obtain o2 s3 where s3: "sv_sync_and_save_wallet X s2 = (o2, s3)" by (cases "sv_sync_and_save_wallet X s2")
  have "table_is (AList.delete i (sv_swaps s)) False s2"
    using act_invD [OF sweep_keeps_table [of "sv_swaps s1" False B X "cs_incoming c"], of s1] t1 s2 by simp
  then have t3: "table_is (AList.delete i (sv_swaps s)) False s3"
    using act_invD [OF sync_keeps_table [of "sv_swaps s2" False X], of s2] s3 by simp
  define settled where "settled = (case o1 of Inr outcome \<Rightarrow> fully_swept B c outcome | Inl _ \<Rightarrow> False)"
  have settled: "(\<exists>outcome. fst (sv_sweep_incoming_swapcoins B X (cs_incoming c) (snd (remove_swap_state i s))) = Inr outcome \<and> fully_swept B c outcome)
      \<longleftrightarrow> settled"
    by (simp add: s1 s2 settled_def split: sum.splits)
  from assms s1 s2 s3 have last: "(if \<not> settled then sv_store_connection_state X i c False else act_upd (unwatch_all B X c)) s3 = (Inr (), s')"
    by (cases o1) (auto simp: settle_def on_swap_id_def act_bind_def act_try_def act_ensure_def act_lift_def ensure_def Let_def settled_def
      split: if_splits sum.splits)
  show ?thesis
  proof (cases settled)
    case True
    with last have "s' = unwatch_all B X c s3" by (simp add: act_upd_def)
    with t3 True settled show ?thesis by (simp add: unwatch_keeps_table)
  next
    case False
    with last have st: "store_locked X i c None s3 = (Inr (), s')"
      by (auto simp: sv_store_connection_state_def act_bind_def act_ret_def)
    have "map_of (AList.delete i (sv_swaps s)) i = None" by (simp add: delete_conv')
    with st t3 have "sv_swaps s' = AList.delete i (sv_swaps s)
        @ [(i, write_swap_state (wx_now X (sv_world s3)) c (swap_state_default (wx_now X (sv_world s3))))]"
      by (auto simp: store_locked_def Let_def lock_swaps_def act_bind_def act_get_def act_upd_def update_fresh)
    with False settled show ?thesis by simp blast
  qed
qed

section \<open>Concrete runs\<close>

text \<open>A peer that greets, then keeps silent; a codec for that one message.\<close>

definition sample_env :: "unit conn_env" where
  "sample_env = \<lparr>ce_lib = sample_lib, ce_world = sample_world, ce_openswap_keys = undefined, ce_contract_keys = undefined,
     ce_from_slice = (\<lambda>bs. if bs = [1] then Some TmTakerHello else None), ce_to_vec = (\<lambda>_. Some [2]), ce_write = (\<lambda>_ _. None),
     ce_shutdown = (\<lambda>_. False), ce_others = (\<lambda>_ s. s), ce_handling = (\<lambda>_ _. 0), ce_clock = (\<lambda>_ _ _. 0)\<rparr>"

definition hello_sock :: sock where
  "hello_sock = \<lparr>sk_now = 0, sk_set_timeout_ok = True, sk_events = [(0, Arrive [0, 0, 0, 1, 1])]\<rparr>"

definition one_pending :: limiter where
  "one_pending = \<lparr>lm_active = 1, lm_pending = 1, lm_tokens = 29, lm_last_refill = 0\<rparr>"


definition silent_handler :: "unit handler" where
  "silent_handler = \<lparr>hd_server = sample_server, hd_conn = conn_default 0, hd_permit = \<lparr>pm_pending = False\<rparr>, hd_limiter = one_pending,
     hd_sock = \<lparr>sk_now = 0, sk_set_timeout_ok = True, sk_events = [(2000 * nanos_per_sec, Arrive [0, 0, 0, 1, 1])]\<rparr>,
     hd_pending_deadline = 0, hd_last_keepalive = None\<rparr>"

theorem read_timeout_closes_connection_witness:
  "\<exists>h'. conn_loop (Suc (Suc 0)) sample_env silent_handler = Some (Inr (), h') \<and> sk_events (hd_sock h') = [(200 * nanos_per_sec, Arrive [0, 0, 0, 1, 1])]"
  using read_timeout_closes_connection [of silent_handler "2000 * nanos_per_sec" "Arrive [0, 0, 0, 1, 1]" "[]" sample_env 0]
  by (auto simp: silent_handler_def sample_env_def CONNECTION_READ_TIMEOUT_def nanos_per_sec_def now_ms_def conn_default_def
    is_timed_out_def simp del: conn_loop.simps)

definition completed_conn :: conn where
  "completed_conn = (conn_default 0)\<lparr>cs_phase := Completed, cs_swap_id := Some ''a''\<rparr>"

lemma sample_world_sweep:
  "wx_sync_and_save sample_world = act_ret ()" "wx_sweep_incoming_swapcoins sample_world ts = act_ret \<lparr>ro_resolved = [], ro_discarded = []\<rparr>"
  by (simp_all add: sample_world_def)

lemma sample_settle: "\<exists>s'. settle sample_lib sample_world completed_conn sample_server = (Inr (), s')"
  by (simp add: settle_def completed_conn_def conn_default_def on_swap_id_def remove_swap_state_def act_bind_def act_try_def lock_swaps_def
    sample_server_fields act_upd_def sv_sweep_incoming_swapcoins_def sv_sync_and_save_wallet_def lock_wallet_def on_world_def on_both_def
    sample_world_ops act_ensure_def act_lift_def ensure_def Let_def fully_swept_def sv_store_connection_state_def store_locked_def
    sample_world_sweep act_ret_def act_get_def split_def)

theorem settlement_accounts_for_coins_witness:
  "\<exists>s' now. settle sample_lib sample_world completed_conn sample_server = (Inr (), s')
     \<and> sv_swaps s' = AList.delete ''a'' (sv_swaps sample_server) @ [(''a'', write_swap_state now completed_conn (swap_state_default now))]"
proof -
  obtain s' where s': "settle sample_lib sample_world completed_conn sample_server = (Inr (), s')" using sample_settle by blast
  have "\<not> fully_swept sample_lib completed_conn outcome" for outcome
    by (simp add: fully_swept_def completed_conn_def conn_default_def)
  with settlement_accounts_for_coins [OF _ s', of "''a''"] s' show ?thesis by (simp add: completed_conn_def)
qed

end
