(* ===== verification/ChainWait.thy ===== *)
theory ChainWait
  imports MakerTypes
begin

text \<open>
  The wallet's view of the chain and the bounded wait for confirmations, \<open>wait_for_tx_confirmation\<close> of
  \<open>wallet/api.rs\<close>. The \<open>Blockchain\<close> trait is the record \<open>'c chain\<close> of calls on the state \<open>'c\<close> of
  the network behind the wallet; \<open>get_tx_out\<close> and \<open>get_raw_transaction_info\<close> return the
  confirmations the callers read. The clock is in milliseconds and belongs to \<open>'c\<close>; \<open>ch_sleep\<close> is one second
  of \<open>thread::sleep\<close>.
\<close>

section \<open>The chain\<close>

record 'c chain =
  ch_get_block_count :: "('c, wallet_error, nat) act"
  ch_get_tx_out :: "txid \<Rightarrow> nat \<Rightarrow> bool option \<Rightarrow> ('c, wallet_error, nat option) act"
  ch_tx_block_height :: "txid \<Rightarrow> ('c, wallet_error, nat option) act"
  ch_is_confirmed_spend :: "outpoint \<Rightarrow> script \<Rightarrow> ('c, wallet_error, bool) act"
  ch_get_raw_transaction_info :: "txid \<Rightarrow> ('c, wallet_error, nat option) act"
  ch_send_raw_transaction :: "transaction \<Rightarrow> ('c, wallet_error, txid) act"
  ch_spending_transaction :: "outpoint \<Rightarrow> script \<Rightarrow> ('c, wallet_error, transaction option) act"
  ch_now :: "'c \<Rightarrow> nat"
  ch_sleep :: "'c \<Rightarrow> 'c"

section \<open>Waiting for confirmations\<close>

definition TX_BROADCAST_TIMEOUT :: nat where "TX_BROADCAST_TIMEOUT = 120 * 1000"
definition TX_CONFIRMATION_TIMEOUT :: nat where "TX_CONFIRMATION_TIMEOUT = 3600 * 1000"

type_synonym poll = "bool \<times> nat \<times> txid list \<times> (txid \<times> nat) list"

definition poll_tx :: "'c chain \<Rightarrow> nat \<Rightarrow> nat \<Rightarrow> poll \<Rightarrow> txid \<Rightarrow> ('c, wallet_error, poll) act" where
  "poll_tx C required_confirms arrival_timeout = (\<lambda>(all_confirmed, max_confirm_height, unseen, vanished_at) txid.
     act_try (ch_get_raw_transaction_info C txid) (\<lambda>info. case info of
       Inr confirmations \<Rightarrow>
         let confirms = (case confirmations of None \<Rightarrow> 0 | Some n \<Rightarrow> n); unseen = removeAll txid unseen in
         if confirms < required_confirms then act_ret (False, max_confirm_height, unseen, vanished_at)
         else
           act_bind (ch_tx_block_height C txid) (\<lambda>height.
           act_bind (act_lift (ok_or height (WGeneral ''Confirmed transaction has no block height''))) (\<lambda>confirm_height.
           act_ret (all_confirmed, max max_confirm_height (confirm_height mod 2 ^ 32), unseen, vanished_at)))
     | Inl _ \<Rightarrow>
         if txid \<in> set unseen then act_ret (False, max_confirm_height, unseen, vanished_at)
         else
           act_bind (act_get (ch_now C)) (\<lambda>now.
           let since = (case map_of vanished_at txid of Some t \<Rightarrow> t | None \<Rightarrow> now) in
           act_seq (act_ensure (\<not> now - since > arrival_timeout)
             (WTxConfirmationTimeout ''Tx vanished from our mempool and did not reappear'')) (
           act_ret (False, max_confirm_height, unseen, AList.update txid since vanished_at)))))"

definition check_interrupt :: "('c \<Rightarrow> bool) option \<Rightarrow> ('c \<Rightarrow> bool) option \<Rightarrow> ('c, wallet_error, unit) act" where
  "check_interrupt shutdown abort_check =
     (let is_set = (\<lambda>flag c. case flag of None \<Rightarrow> False | Some f \<Rightarrow> f c) in
      act_bind (act_get (is_set shutdown)) (\<lambda>s.
      act_seq (act_ensure (\<not> s) (WInterrupted ''Shutdown requested'')) (
      act_bind (act_get (is_set abort_check)) (\<lambda>a.
      act_ensure (\<not> a) (WInterrupted ''Abort requested'')))))"

definition backoff_secs :: "nat \<Rightarrow> nat" where
  "backoff_secs attempt = min (min (10 * attempt) (uint_max 64)) 600"

text \<open>One iteration, up to the sleep: \<open>Inl\<close> the height, \<open>Inr\<close> what is still unseen and vanished.\<close>

definition wait_poll ::
    "'c chain \<Rightarrow> txid list \<Rightarrow> nat \<Rightarrow> nat \<Rightarrow> ('c \<Rightarrow> bool) option \<Rightarrow> ('c \<Rightarrow> bool) option \<Rightarrow> nat \<Rightarrow> txid list \<Rightarrow> (txid \<times> nat) list
     \<Rightarrow> ('c, wallet_error, nat + (txid list \<times> (txid \<times> nat) list)) act" where
  "wait_poll C txids required_confirms arrival_timeout shutdown abort_check started unseen vanished_at =
     act_seq (check_interrupt shutdown abort_check) (
     act_bind (act_get (ch_now C)) (\<lambda>now.
     act_seq (act_ensure (\<not> now - started > TX_CONFIRMATION_TIMEOUT)
       (WTxConfirmationTimeout ''Tx did not confirm before the confirmation deadline'')) (
     act_bind (act_foldM (poll_tx C required_confirms arrival_timeout) (True, 0, unseen, vanished_at) txids)
       (\<lambda>(all_confirmed, max_confirm_height, unseen, vanished_at).
     act_bind (act_get (ch_now C)) (\<lambda>now.
     act_seq (act_ensure (\<not> (unseen \<noteq> [] \<and> now - started > arrival_timeout))
       (WTxConfirmationTimeout ''Tx did not reach our mempool before the broadcast timeout'')) (
     act_ret (if all_confirmed then Inl max_confirm_height else Inr (unseen, vanished_at))))))))"

definition wait_sleep :: "'c chain \<Rightarrow> ('c \<Rightarrow> bool) option \<Rightarrow> ('c \<Rightarrow> bool) option \<Rightarrow> nat \<Rightarrow> ('c, wallet_error, unit) act" where
  "wait_sleep C shutdown abort_check total_sleep =
     act_iter (\<lambda>_. act_seq (check_interrupt shutdown abort_check) (act_upd (ch_sleep C))) [0..<total_sleep]"

fun wait_loop ::
    "nat \<Rightarrow> 'c chain \<Rightarrow> txid list \<Rightarrow> nat \<Rightarrow> nat \<Rightarrow> ('c \<Rightarrow> bool) option \<Rightarrow> ('c \<Rightarrow> bool) option \<Rightarrow> nat \<Rightarrow> nat \<Rightarrow> txid list
     \<Rightarrow> (txid \<times> nat) list \<Rightarrow> ('c, wallet_error, nat option) act" where
  "wait_loop 0 C txids required arrival shutdown abort_check started attempt unseen vanished_at = act_ret None"
| "wait_loop (Suc fuel) C txids required arrival shutdown abort_check started attempt unseen vanished_at =
     act_bind (wait_poll C txids required arrival shutdown abort_check started unseen vanished_at) (\<lambda>polled. case polled of
       Inl height \<Rightarrow> act_ret (Some height)
     | Inr (unseen, vanished_at) \<Rightarrow>
         let attempt = saturating_add 64 attempt 1 in
         act_seq (wait_sleep C shutdown abort_check (backoff_secs attempt)) (
         wait_loop fuel C txids required arrival shutdown abort_check started attempt unseen vanished_at))"

definition wait_fuel :: nat where "wait_fuel = 28"

text \<open>\<open>wait_loop_returns\<close> below shows that the fuel is enough: \<open>WPanic\<close> is never the result.\<close>

definition wait_for_tx_confirmation ::
    "'c chain \<Rightarrow> txid list \<Rightarrow> nat \<Rightarrow> nat \<Rightarrow> ('c \<Rightarrow> bool) option \<Rightarrow> ('c \<Rightarrow> bool) option \<Rightarrow> ('c, wallet_error, nat) act" where
  "wait_for_tx_confirmation C txids required_confirms arrival_timeout shutdown abort_check =
     (if required_confirms = 0 \<or> txids = [] then act_ret 0
      else act_bind (act_get (ch_now C)) (\<lambda>started.
        act_bind (wait_loop wait_fuel C txids required_confirms arrival_timeout shutdown abort_check started 0 (remdups txids) [])
          (\<lambda>r. act_lift (ok_or r WPanic))))"

section \<open>The wait returns\<close>

text \<open>
  What the wait relies on: \<open>Instant\<close> is monotone, also across calls to the backend, and \<open>thread::sleep\<close>
  sleeps at least as long as asked.
\<close>

definition clock_ok :: "'c chain \<Rightarrow> bool" where
  "clock_ok C \<longleftrightarrow> (\<forall>c t. ch_now C c \<le> ch_now C (snd (ch_get_raw_transaction_info C t c)))
     \<and> (\<forall>c t. ch_now C c \<le> ch_now C (snd (ch_tx_block_height C t c)))
     \<and> (\<forall>c. ch_now C c + 1000 \<le> ch_now C (ch_sleep C c))"

abbreviation later :: "'c chain \<Rightarrow> nat \<Rightarrow> 'c \<Rightarrow> bool" where
  "later C t \<equiv> \<lambda>c. t \<le> ch_now C c"

lemma info_later [hoare_intros]: "clock_ok C \<Longrightarrow> act_inv (later C t) (ch_get_raw_transaction_info C i)"
  by (auto simp: act_inv_iff clock_ok_def intro: le_trans)

lemma height_later [hoare_intros]: "clock_ok C \<Longrightarrow> act_inv (later C t) (ch_tx_block_height C i)"
  by (auto simp: act_inv_iff clock_ok_def intro: le_trans)

lemma interrupt_later [hoare_intros]: "act_inv I (check_interrupt shutdown abort_check)"
  by (auto simp: check_interrupt_def Let_def intro!: hoare_intros)

lemma poll_later [hoare_intros]: "clock_ok C \<Longrightarrow> act_inv (later C t) (poll_tx C required arrival acc txid)"
  by (auto simp: poll_tx_def Let_def intro!: hoare_intros split: prod.splits sum.splits)

lemma wait_poll_later: "clock_ok C \<Longrightarrow> act_inv (later C t) (wait_poll C txids required arrival shutdown abort_check started unseen vanished)"
  by (auto simp: wait_poll_def intro!: hoare_intros split: prod.splits)

lemma sleep_later:
  assumes "clock_ok C" "wait_sleep C shutdown abort_check n c = (Inr u, c')"
  shows "ch_now C c + n * 1000 \<le> ch_now C c'"
proof -
  have "act_iter (\<lambda>_. act_seq (check_interrupt shutdown abort_check) (act_upd (ch_sleep C))) xs c = (Inr u, c')
      \<Longrightarrow> ch_now C c + length xs * 1000 \<le> ch_now C c'" for xs :: "nat list" and c
  proof (induction xs arbitrary: c)
    case (Cons x xs)
    then obtain c1 v where "check_interrupt shutdown abort_check c = (Inr v, c1)"
      and rest: "act_iter (\<lambda>_. act_seq (check_interrupt shutdown abort_check) (act_upd (ch_sleep C))) xs (ch_sleep C c1) = (Inr u, c')"
      by (auto simp: act_bind_Inr_iff act_upd_iff)
    then have "c1 = c" by (auto simp: check_interrupt_def Let_def act_bind_Inr_iff act_get_iff act_ensure_Inr_iff)
    moreover have "ch_now C c + 1000 \<le> ch_now C (ch_sleep C c)" using assms(1) by (simp add: clock_ok_def)
    ultimately show ?case using Cons.IH [OF rest] by simp
  qed (simp add: act_simps)
  from this [of "[0..<n]"] assms(2) show ?thesis by (simp add: wait_sleep_def)
qed

definition waited :: "nat \<Rightarrow> nat" where
  "waited attempt = sum_list (map backoff_secs [1..<Suc attempt])"

lemma waited_Suc: "waited (Suc n) = waited n + backoff_secs (Suc n)"
  by (simp add: waited_def)

lemma deadline_poll:
  assumes "started + TX_CONFIRMATION_TIMEOUT < ch_now C c"
  shows "\<exists>e c'. wait_poll C txids required arrival shutdown abort_check started unseen vanished c = (Inl e, c')"
proof (cases "check_interrupt shutdown abort_check c")
  case (Pair r c1)
  have "c1 = c" if "r = Inr ()"
    using Pair that by (auto simp: check_interrupt_def Let_def act_bind_Inr_iff act_get_iff act_ensure_Inr_iff)
  with Pair assms show ?thesis
    by (cases r) (auto simp: wait_poll_def act_bind_def act_get_def act_ensure_def act_lift_def ensure_def)
qed

lemma wait_loop_returns:
  assumes "clock_ok C" "28 \<le> fuel + attempt" "attempt \<le> 27" "started + 1000 * waited attempt \<le> ch_now C c"
  shows "fst (wait_loop fuel C txids required arrival shutdown abort_check started attempt unseen vanished c) \<noteq> Inr None"
  using assms(2-)
proof (induction fuel arbitrary: attempt unseen vanished c)
  case (Suc fuel)
  obtain r c1 where poll: "wait_poll C txids required arrival shutdown abort_check started unseen vanished c = (r, c1)"
    by (cases "wait_poll C txids required arrival shutdown abort_check started unseen vanished c")
  show ?case
  proof (cases "attempt = 27")
    case True
    have "waited 27 = 3780" by (simp add: waited_def backoff_secs_def upt_rec)
    with Suc.prems(3) True have "started + TX_CONFIRMATION_TIMEOUT < ch_now C c" by (simp add: TX_CONFIRMATION_TIMEOUT_def)
    from deadline_poll [OF this, of txids required arrival shutdown abort_check unseen vanished] show ?thesis
      by (auto simp: act_bind_def)
  next
    case False
    with Suc.prems(2) have attempt: "saturating_add 64 attempt 1 = Suc attempt" by (simp add: saturating_add_def)
    have c1: "started + 1000 * waited attempt \<le> ch_now C c1"
      using act_invD [OF wait_poll_later [OF assms(1)] Suc.prems(3), of txids required arrival shutdown abort_check started unseen vanished] poll by simp
    have "fst (wait_loop fuel C txids required arrival shutdown abort_check started (Suc attempt) us vs c2) \<noteq> Inr None"
      if "wait_sleep C shutdown abort_check (backoff_secs (Suc attempt)) c1 = (Inr u, c2)" for us vs u c2
      using Suc.prems False c1 sleep_later [OF assms(1) that] by (intro Suc.IH) (auto simp: waited_Suc)
    with poll attempt show ?thesis
      by (auto simp: act_bind_def act_ret_def Let_def split: sum.splits prod.splits)
  qed
qed simp

section \<open>What a result means\<close>

text \<open>\<open>seen_confirmed\<close>: at some point the backend reported the transaction with enough confirmations.\<close>

definition seen_confirmed :: "'c chain \<Rightarrow> nat \<Rightarrow> txid \<Rightarrow> bool" where
  "seen_confirmed C required txid \<longleftrightarrow> (\<exists>c c' n. ch_get_raw_transaction_info C txid c = (Inr (Some n), c') \<and> required \<le> n)"

lemma poll_confirmed:
  assumes "poll_tx C required arrival (flag, h, unseen, vanished) txid c = (Inr (True, rest), c')" "0 < required"
  shows "flag \<and> seen_confirmed C required txid"
  using assms
  by (cases "ch_get_raw_transaction_info C txid c")
    (auto simp: poll_tx_def act_try_def Let_def act_simps seen_confirmed_def not_less
      split: sum.splits if_splits option.splits)

lemma polls_confirmed:
  "act_foldM (poll_tx C required arrival) acc txids c = (Inr (True, rest), c') \<Longrightarrow> 0 < required
   \<Longrightarrow> fst acc \<and> (\<forall>txid \<in> set txids. seen_confirmed C required txid)"
proof (induction txids arbitrary: acc c)
  case (Cons t ts)
  then obtain acc1 c1 where one: "poll_tx C required arrival acc t c = (Inr acc1, c1)"
    and ts: "act_foldM (poll_tx C required arrival) acc1 ts c1 = (Inr (True, rest), c')" by (auto simp: act_bind_Inr_iff)
  obtain flag rest1 where acc1: "acc1 = (flag, rest1)" by (cases acc1)
  from Cons.IH [OF ts Cons.prems(2)] acc1 have "flag" "\<forall>txid \<in> set ts. seen_confirmed C required txid" by auto
  with poll_confirmed [of C required arrival "fst acc" "fst (snd acc)" "fst (snd (snd acc))" "snd (snd (snd acc))" t c rest1 c1]
    one acc1 Cons.prems(2) show ?case by simp
qed (auto simp: act_simps)

lemma wait_poll_confirmed:
  assumes "wait_poll C txids required arrival shutdown abort_check started unseen vanished c = (Inr (Inl h), c')" "0 < required" "txid \<in> set txids"
  shows "seen_confirmed C required txid"
proof -
  from assms(1) obtain rest c1 c2 where "act_foldM (poll_tx C required arrival) (True, 0, unseen, vanished) txids c1 = (Inr (True, rest), c2)"
    by (auto simp: wait_poll_def act_bind_Inr_iff act_ret_iff split: if_splits)
  from polls_confirmed [OF this assms(2)] assms(3) show ?thesis by simp
qed

lemma wait_loop_confirmed:
  "wait_loop fuel C txids required arrival shutdown abort_check started attempt unseen vanished c = (Inr (Some h), c')
   \<Longrightarrow> 0 < required \<Longrightarrow> txid \<in> set txids \<Longrightarrow> seen_confirmed C required txid"
proof (induction fuel arbitrary: attempt unseen vanished c)
  case (Suc fuel)
  from Suc.prems(1) obtain polled c1 where poll: "wait_poll C txids required arrival shutdown abort_check started unseen vanished c = (Inr polled, c1)"
    by (auto simp: act_bind_Inr_iff)
  show ?case
  proof (cases polled)
    case (Inl h')
    from wait_poll_confirmed [OF poll [unfolded Inl] Suc.prems(2,3)] show ?thesis .
  next
    case (Inr more)
    with Suc poll show ?thesis by (auto simp: act_bind_Inr_iff Let_def split: prod.splits)
  qed
qed (simp add: act_simps)

lemma wait_confirmed:
  assumes "wait_for_tx_confirmation C txids required arrival shutdown abort_check c = (Inr h, c')" "0 < required" "txid \<in> set txids"
  shows "seen_confirmed C required txid"
proof -
  from assms obtain started c1 where
    "wait_loop wait_fuel C txids required arrival shutdown abort_check started 0 (remdups txids) [] c1 = (Inr (Some h), c')"
    by (auto simp: wait_for_tx_confirmation_def act_bind_Inr_iff act_lift_def act_get_def ok_or_Inr_iff split: if_splits)
  from wait_loop_confirmed [OF this assms(2,3)] show ?thesis .
qed

text \<open>
  C31. The wait for confirmations ends and does not lie. Whatever the backend answers, after at most 28 polls, which
  back off from 10 seconds to ten minutes, the loop has returned a height or an error; and when
  \<open>wait_for_tx_confirmation\<close> succeeds the backend has reported every transaction with the required number of
  confirmations. It relies on the clock alone: \<open>Instant\<close> is monotone and \<open>thread::sleep\<close> sleeps at
  least as long as asked.
\<close>

theorem wait_terminates:
  assumes "clock_ok C" "0 < required" "txids \<noteq> []"
  shows "fst (wait_loop wait_fuel C txids required arrival shutdown abort_check (ch_now C c) 0 (remdups txids) [] c) \<noteq> Inr None
    \<and> (\<forall>h c'. wait_for_tx_confirmation C txids required arrival shutdown abort_check c = (Inr h, c')
        \<longrightarrow> (\<forall>txid \<in> set txids. seen_confirmed C required txid))"
  using wait_loop_returns [OF assms(1), of wait_fuel 0 "ch_now C c" c txids required arrival shutdown abort_check]
    wait_confirmed [OF _ assms(2)] by (auto simp: wait_fuel_def waited_def)

text \<open>A chain on which nothing is ever confirmed, with a clock of its own.\<close>

definition stuck_chain :: "nat chain" where
  "stuck_chain = \<lparr>ch_get_block_count = act_ret 100, ch_get_tx_out = (\<lambda>_ _ _. act_ret None), ch_tx_block_height = (\<lambda>_. act_ret None),
     ch_is_confirmed_spend = (\<lambda>_ _. act_ret False), ch_get_raw_transaction_info = (\<lambda>_. act_ret (Some 0)),
     ch_send_raw_transaction = (\<lambda>_. act_ret []), ch_spending_transaction = (\<lambda>_ _. act_ret None),
     ch_now = (\<lambda>c. c), ch_sleep = (\<lambda>c. c + 1000)\<rparr>"

theorem wait_terminates_witness:
  "fst (wait_loop wait_fuel stuck_chain [[7]] 1 TX_BROADCAST_TIMEOUT None None 0 0 [[7]] [] 0) \<noteq> Inr None"
  using wait_terminates [of stuck_chain 1 "[[7]]" TX_BROADCAST_TIMEOUT None None 0]
  by (simp add: clock_ok_def stuck_chain_def act_ret_def)

end
