(* ===== verification/WalletRecovery.thy ===== *)
theory WalletRecovery
  imports ChainWait
begin

text \<open>
  Getting coins back: \<open>sweep_incoming_swapcoins\<close> and \<open>recover_timelocked_swapcoins\<close> of \<open>wallet/api.rs\<close>
  with the transactions they build. They run on the wallet and the chain; the wallet guard is taken for short
  sections only. Syncing, deriving a fresh internal address and decoding an address are the record
  \<open>'c wallet_ext\<close>.
\<close>

section \<open>The wallet on the chain\<close>

record 'c wallet_ext =
  wr_sync_and_save :: "(wallet \<times> 'c, wallet_error, unit) act"
  wr_next_internal_address :: "(wallet \<times> 'c, wallet_error, string \<times> script) act"
  wr_address_script :: "string \<Rightarrow> script option"
  wr_poisoned :: "'c \<Rightarrow> bool"
  wr_shutdown :: "'c \<Rightarrow> bool"
  wr_nonces :: "bytes \<times> bytes"

type_synonym ('c, 'a) wact = "(wallet \<times> 'c, wallet_error, 'a) act"

definition on_chain :: "('c, wallet_error, 'a) act \<Rightarrow> ('c, 'a) wact" where
  "on_chain f = (\<lambda>(w, c). case f c of (r, c') \<Rightarrow> (r, (w, c')))"

definition on_w :: "(wallet, wallet_error, 'a) act \<Rightarrow> ('c, 'a) wact" where
  "on_w f = (\<lambda>(w, c). case f w of (r, w') \<Rightarrow> (r, (w', c)))"

definition upd_store :: "(wallet_store \<Rightarrow> wallet_store) \<Rightarrow> ('c, unit) wact" where
  "upd_store f = act_upd (\<lambda>(w, c). (w\<lparr>w_store := f (w_store w)\<rparr>, c))"

definition get_store :: "(wallet_store \<Rightarrow> 'a) \<Rightarrow> ('c, 'a) wact" where
  "get_store f = act_get (\<lambda>(w, _). f (w_store w))"

definition guard :: "'c wallet_ext \<Rightarrow> ('c, unit) wact" where
  "guard W = act_bind (act_get (\<lambda>(_, c). wr_poisoned W c)) (\<lambda>poisoned. act_ensure (\<not> poisoned) (WGeneral ''wallet lock poisoned''))"

definition outcome_default :: recovery_outcome where
  "outcome_default = \<lparr>ro_resolved = [], ro_discarded = []\<rparr>"

definition outcome_is_empty :: "recovery_outcome \<Rightarrow> bool" where
  "outcome_is_empty outcome \<longleftrightarrow> ro_resolved outcome = [] \<and> ro_discarded outcome = []"

definition wait_confirmed_once :: "'c wallet_ext \<Rightarrow> 'c chain \<Rightarrow> txid \<Rightarrow> ('c, nat) wact" where
  "wait_confirmed_once W C txid = on_chain (wait_for_tx_confirmation C [txid] 1 TX_BROADCAST_TIMEOUT (Some (wr_shutdown W)) None)"

section \<open>Timelock recovery\<close>

datatype contract_chain_state = OnChain | Discarded | NotYet

text \<open>\<open>input[0]\<close> and \<open>output[contract_vout]\<close> panic when they are missing.\<close>

definition publish_contract :: "btc \<Rightarrow> 'c chain \<Rightarrow> outgoing_swapcoin \<Rightarrow> outpoint \<Rightarrow> ('c, wallet_error, contract_chain_state) act" where
  "publish_contract B C swapcoin input_outpoint = (case og_create_signed_contract_tx B swapcoin of
     Inl e \<Rightarrow> if e = WPanic then act_fail WPanic else act_ret NotYet
   | Inr signed_contract_tx \<Rightarrow>
       act_try (ch_send_raw_transaction C signed_contract_tx) (\<lambda>sent. case sent of
         Inr _ \<Rightarrow> act_ret OnChain
       | Inl _ \<Rightarrow>
           act_bind (ch_get_tx_out C (b_txid B (og_contract_tx swapcoin)) (og_get_contract_output_vout swapcoin) (Some True)) (\<lambda>output.
           if output \<noteq> None then act_ret OnChain
           else
             act_bind (ch_get_tx_out C (op_txid input_outpoint) (op_vout input_outpoint) (Some True)) (\<lambda>input_unspent.
             act_ret (if input_unspent = None then Discarded else NotYet)))))"

definition ensure_contract_on_chain :: "btc \<Rightarrow> 'c chain \<Rightarrow> outgoing_swapcoin \<Rightarrow> ('c, wallet_error, contract_chain_state) act" where
  "ensure_contract_on_chain B C swapcoin =
     (let contract_txid = b_txid B (og_contract_tx swapcoin);
          contract_vout = og_get_contract_output_vout swapcoin in
      act_bind (ch_get_tx_out C contract_txid contract_vout (Some False)) (\<lambda>confirmed_output.
      if confirmed_output \<noteq> None then act_ret OnChain
      else
        act_bind (ch_tx_block_height C contract_txid) (\<lambda>height.
        if height \<noteq> None
        then
          act_bind (act_lift (ok_or (nth_opt (tx_output (og_contract_tx swapcoin)) contract_vout) WPanic)) (\<lambda>out.
          act_bind (ch_is_confirmed_spend C \<lparr>op_txid = contract_txid, op_vout = contract_vout\<rparr> (to_spk out)) (\<lambda>spent.
          act_ret (if spent then Discarded else NotYet)))
        else
          act_bind (act_lift (ok_or (nth_opt (tx_input (og_contract_tx swapcoin)) 0) WPanic)) (\<lambda>input.
          act_bind (ch_get_tx_out C (op_txid (ti_prev input)) (op_vout (ti_prev input)) (Some True)) (\<lambda>input_unspent.
          if input_unspent \<noteq> None \<and> og_protocol swapcoin = Taproot then act_ret Discarded
          else publish_contract B C swapcoin (ti_prev input))))))"

text \<open>\<open>Sequence::ENABLE_LOCKTIME_NO_RBF\<close>.\<close>

definition ENABLE_LOCKTIME_NO_RBF :: nat where "ENABLE_LOCKTIME_NO_RBF = 4294967294"

definition create_timelock_recovery_tx :: "btc \<Rightarrow> outgoing_swapcoin \<Rightarrow> f64 \<Rightarrow> script \<Rightarrow> wallet_error + transaction" where
  "create_timelock_recovery_tx B swapcoin fee_rate recovery_script =
     res_bind (ok_or (get_timelock B swapcoin) (WGeneral ''Could not extract timelock from swapcoin'')) (\<lambda>timelock.
     let contract_txid = b_txid B (og_contract_tx swapcoin);
         contract_vout = og_get_contract_output_vout swapcoin in
     res_bind (ok_or (nth_opt (tx_output (og_contract_tx swapcoin)) contract_vout) (WGeneral ''No output in contract tx'')) (\<lambda>contract_output.
     let fee = f64_u64 (f64_mul (f64_of_nat (contract_and_timelock_vsize (og_protocol swapcoin) Timelock)) fee_rate) in
     res_bind (ok_or (checked_sub (to_value contract_output) fee) (WGeneral ''Insufficient funds for recovery fee'')) (\<lambda>output_amount.
     let (lock_time, sequence) =
           (if og_protocol swapcoin = Taproot then (if timelock < LOCK_TIME_THRESHOLD then timelock else 0, ENABLE_LOCKTIME_NO_RBF)
            else (0, timelock mod 2 ^ 16)) in
     sign_timelock_recovery B swapcoin
       \<lparr>tx_version = 2, tx_lock_time = lock_time,
        tx_input = [\<lparr>ti_prev = \<lparr>op_txid = contract_txid, op_vout = contract_vout\<rparr>, ti_sequence = sequence, ti_witness = [], ti_script_sig = []\<rparr>],
        tx_output = [\<lparr>to_value = output_amount, to_spk = recovery_script\<rparr>]\<rparr>)))"

type_synonym candidate = "txid \<times> outgoing_swapcoin \<times> nat"

definition recovery_candidates :: "btc \<Rightarrow> wallet_store \<Rightarrow> candidate list" where
  "recovery_candidates B s = List.map_filter (\<lambda>(swap_id, sc). if og_my_privkey sc = None then None
     else map_option (\<lambda>timelock. (swap_id, sc, timelock)) (get_timelock B sc)) (ws_outgoing s)"

text \<open>A retry must rebuild the same transaction: the destination is stored before the broadcast.\<close>

definition recovery_script :: "'c wallet_ext \<Rightarrow> txid \<Rightarrow> ('c, script) wact" where
  "recovery_script W swap_id =
     act_seq (guard W) (
     act_bind (get_store (\<lambda>s. Option.bind (map_of (ws_outgoing s) swap_id) og_recovery_address)) (\<lambda>stored.
     act_bind (case stored of
         Some address \<Rightarrow> act_ret address
       | None \<Rightarrow>
           act_bind (wr_next_internal_address W) (\<lambda>(address, _).
           act_bind (get_store (\<lambda>s. map_of (ws_outgoing s) swap_id)) (\<lambda>coin.
           act_bind (act_lift (ok_or coin (WGeneral ''outgoing swapcoin disappeared during recovery''))) (\<lambda>coin.
           act_seq (upd_store (\<lambda>s. s\<lparr>ws_outgoing := AList.update swap_id (coin\<lparr>og_recovery_address := Some address\<rparr>) (ws_outgoing s)\<rparr>)) (
           act_seq (on_w save_to_disk) (
           act_ret address)))))) (\<lambda>address.
     act_lift (ok_or (wr_address_script W address) (WGeneral ''invalid recovery address network'')))))"

type_synonym recovery_acc = "(txid \<times> txid) list \<times> txid list"

definition reclaim_coin :: "btc \<Rightarrow> 'c wallet_ext \<Rightarrow> 'c chain \<Rightarrow> f64 \<Rightarrow> recovery_acc \<Rightarrow> txid \<times> outgoing_swapcoin \<Rightarrow> ('c, recovery_acc) wact" where
  "reclaim_coin B W C fee_rate = (\<lambda>(resolved, discarded) (swap_id, swapcoin).
     act_bind (recovery_script W swap_id) (\<lambda>script.
     case create_timelock_recovery_tx B swapcoin fee_rate script of
       Inl e \<Rightarrow> if e = WPanic then act_fail WPanic else act_ret (resolved, discarded)
     | Inr recovery_tx \<Rightarrow>
         act_try (on_chain (ch_send_raw_transaction C recovery_tx)) (\<lambda>sent. case sent of
           Inl _ \<Rightarrow> act_ret (resolved, discarded)
         | Inr txid \<Rightarrow>
             act_seq (wait_confirmed_once W C txid) (
             act_seq (guard W) (
             act_seq (upd_store (remove_outgoing_swapcoin swap_id)) (
             act_ret (resolved @ [(b_txid B (og_contract_tx swapcoin), txid)], discarded)))))))"

definition recover_one :: "btc \<Rightarrow> 'c wallet_ext \<Rightarrow> 'c chain \<Rightarrow> f64 \<Rightarrow> recovery_acc \<Rightarrow> candidate \<Rightarrow> ('c, recovery_acc) wact" where
  "recover_one B W C fee_rate = (\<lambda>(resolved, discarded) (swap_id, swapcoin, timelock).
     act_bind (on_chain (ensure_contract_on_chain B C swapcoin)) (\<lambda>state.
     if state = Discarded then act_ret (resolved, discarded @ [swap_id])
     else if state = NotYet then act_ret (resolved, discarded)
     else
       let required_confirmations = (if og_protocol swapcoin = Taproot then 1 else timelock) in
       act_bind (on_chain (ch_get_tx_out C (b_txid B (og_contract_tx swapcoin)) (og_get_contract_output_vout swapcoin) (Some False))) (\<lambda>utxo_info.
       case utxo_info of
         None \<Rightarrow> act_ret (resolved, discarded)
       | Some confirmations \<Rightarrow>
           if confirmations < required_confirmations then act_ret (resolved, discarded)
           else reclaim_coin B W C fee_rate (resolved, discarded) (swap_id, swapcoin))))"

definition discard_coin :: "btc \<Rightarrow> txid \<Rightarrow> txid list \<times> (txid \<times> outgoing_swapcoin) list \<Rightarrow> txid list \<times> (txid \<times> outgoing_swapcoin) list" where
  "discard_coin B swap_id = (\<lambda>(txids, coins). (case map_of coins swap_id of
     None \<Rightarrow> txids | Some sc \<Rightarrow> txids @ [b_txid B (og_contract_tx sc)], AList.delete swap_id coins))"

definition record_recovery :: "btc \<Rightarrow> 'c wallet_ext \<Rightarrow> recovery_acc \<Rightarrow> ('c, recovery_outcome) wact" where
  "record_recovery B W = (\<lambda>(resolved, discarded).
     act_seq (guard W) (
     act_bind (get_store (\<lambda>s. fold (discard_coin B) discarded ([], ws_outgoing s))) (\<lambda>(discarded_txids, coins).
     act_seq (upd_store (\<lambda>s. s\<lparr>ws_outgoing := coins\<rparr>)) (
     act_seq (if resolved \<noteq> [] \<or> discarded \<noteq> [] then on_w save_to_disk else act_ret ()) (
     act_ret \<lparr>ro_resolved = resolved, ro_discarded = discarded_txids\<rparr>)))))"

definition recover_timelocked_swapcoins :: "btc \<Rightarrow> 'c wallet_ext \<Rightarrow> 'c chain \<Rightarrow> f64 \<Rightarrow> ('c, recovery_outcome) wact" where
  "recover_timelocked_swapcoins B W C fee_rate =
     act_seq (guard W) (
     act_bind (get_store (recovery_candidates B)) (\<lambda>candidates.
     if candidates = [] then act_ret outcome_default
     else
       act_seq (wr_sync_and_save W) (
       act_bind (on_chain (ch_get_block_count C)) (\<lambda>height.
       let current_height = height mod 2 ^ 32;
           to_recover = filter (\<lambda>(_, sc, timelock). og_protocol sc = Taproot \<longrightarrow> timelock \<le> current_height) candidates in
       act_bind (act_foldM (recover_one B W C fee_rate) ([], []) to_recover) (record_recovery B W)))))"

section \<open>Sweeping incoming coins\<close>

definition spend_source :: "btc \<Rightarrow> incoming_swapcoin \<Rightarrow> (txid \<times> nat \<times> amount) option" where
  "spend_source B swapcoin =
     (let contract_tx = inc_contract_tx swapcoin in
      case inc_protocol swapcoin of
        Legacy \<Rightarrow>
          if inc_other_privkey swapcoin \<noteq> None
          then map_option (\<lambda>input. (op_txid (ti_prev input), op_vout (ti_prev input), inc_funding_amount swapcoin)) (nth_opt (tx_input contract_tx) 0)
          else map_option (\<lambda>out. (b_txid B contract_tx, 0, to_value out)) (nth_opt (tx_output contract_tx) 0)
      | Taproot \<Rightarrow>
          Some (b_txid B contract_tx,
            (case position (\<lambda>out. to_value out = inc_funding_amount swapcoin) (tx_output contract_tx) of Some i \<Rightarrow> i | None \<Rightarrow> 0),
            inc_funding_amount swapcoin))"

definition utxo_seen :: "'c chain \<Rightarrow> txid \<Rightarrow> nat \<Rightarrow> bool option \<Rightarrow> ('c, bool) wact" where
  "utxo_seen C txid vout include_mempool =
     act_try (on_chain (ch_get_tx_out C txid vout include_mempool)) (\<lambda>r. act_ret (case r of Inr (Some _) \<Rightarrow> True | _ \<Rightarrow> False))"

definition is_interrupted :: "wallet_error \<Rightarrow> bool" where
  "is_interrupted e \<longleftrightarrow> (case e of WInterrupted _ \<Rightarrow> True | _ \<Rightarrow> False)"

definition utxo_ready :: "btc \<Rightarrow> 'c wallet_ext \<Rightarrow> 'c chain \<Rightarrow> incoming_swapcoin \<Rightarrow> txid \<Rightarrow> nat \<Rightarrow> ('c, bool) wact" where
  "utxo_ready B W C swapcoin utxo_txid utxo_vout =
     act_bind (utxo_seen C utxo_txid utxo_vout (Some False)) (\<lambda>utxo_confirmed.
     if utxo_confirmed then act_ret True
     else
       act_bind (utxo_seen C utxo_txid utxo_vout None) (\<lambda>in_mempool.
       if in_mempool
       then act_try (wait_confirmed_once W C utxo_txid) (\<lambda>waited. case waited of
              Inr _ \<Rightarrow> act_ret True
            | Inl e \<Rightarrow> if is_interrupted e \<or> e = WPanic then act_fail e else act_ret False)
       else if inc_other_privkey swapcoin = None \<and> inc_others_contract_sig swapcoin \<noteq> None
       then (case inc_create_signed_contract_tx B swapcoin of
              Inl e \<Rightarrow> if e = WPanic then act_fail WPanic else act_ret False
            | Inr signed_contract_tx \<Rightarrow>
                act_try (on_chain (ch_send_raw_transaction C signed_contract_tx)) (\<lambda>sent. case sent of
                  Inl _ \<Rightarrow> act_ret False
                | Inr _ \<Rightarrow> utxo_seen C utxo_txid utxo_vout (Some True)))
       else act_ret False))"

text \<open>The signed spend and, unless it pays a receiver, the address it is marked for.\<close>

definition sweep_spend ::
    "btc \<Rightarrow> 'c wallet_ext \<Rightarrow> f64 \<Rightarrow> incoming_swapcoin \<Rightarrow> amount \<Rightarrow> ('c, script option \<times> (wallet_error + transaction)) wact" where
  "sweep_spend B W feerate swapcoin input_value = (case wr_nonces W of (rnd1, rnd2) \<Rightarrow>
     (case inc_payment_target swapcoin of
        Some target \<Rightarrow> act_ret (None, sign_spend_transaction_with_output_value B rnd1 rnd2 swapcoin input_value (pt_amount target) (pt_script_pubkey target))
      | None \<Rightarrow>
          act_seq (guard W) (
          act_bind (wr_next_internal_address W) (\<lambda>(_, script).
          act_seq (upd_store (\<lambda>s. s\<lparr>ws_swept := List.insert script (ws_swept s)\<rparr>)) (
          act_ret (Some script, sign_spend_transaction B rnd1 rnd2 swapcoin input_value script feerate))))))"

definition unmark_on_failure :: "'c wallet_ext \<Rightarrow> script option \<Rightarrow> ('c, unit) wact" where
  "unmark_on_failure W address = (case address of
     None \<Rightarrow> act_ret ()
   | Some script \<Rightarrow> act_seq (guard W) (upd_store (\<lambda>s. s\<lparr>ws_swept := removeAll script (ws_swept s)\<rparr>)))"

definition sweep_one ::
    "btc \<Rightarrow> 'c wallet_ext \<Rightarrow> 'c chain \<Rightarrow> f64 \<Rightarrow> (txid \<times> txid) list \<Rightarrow> txid \<times> incoming_swapcoin \<Rightarrow> ('c, (txid \<times> txid) list) wact" where
  "sweep_one B W C feerate resolved = (\<lambda>(swap_id, swapcoin). case spend_source B swapcoin of
     None \<Rightarrow> act_ret resolved
   | Some (utxo_txid, utxo_vout, input_value) \<Rightarrow>
       act_bind (utxo_ready B W C swapcoin utxo_txid utxo_vout) (\<lambda>ready.
       if \<not> ready then act_ret resolved
       else
         act_bind (sweep_spend B W feerate swapcoin input_value) (\<lambda>(address, spend_result). case spend_result of
           Inl e \<Rightarrow> if e = WPanic then act_fail WPanic else act_seq (unmark_on_failure W address) (act_ret resolved)
         | Inr spend_tx \<Rightarrow>
             act_try (on_chain (ch_send_raw_transaction C spend_tx)) (\<lambda>sent. case sent of
               Inl _ \<Rightarrow> act_seq (unmark_on_failure W address) (act_ret resolved)
             | Inr txid \<Rightarrow>
                 act_seq (wait_confirmed_once W C txid) (
                 act_seq (guard W) (
                 act_seq (upd_store (\<lambda>s. snd (remove_incoming_swapcoin swap_id s))) (
                 act_ret (resolved @ [(b_txid B (inc_contract_tx swapcoin), txid)]))))))))"

definition completed_swapcoins :: "btc \<Rightarrow> txid list option \<Rightarrow> wallet_store \<Rightarrow> (txid \<times> incoming_swapcoin) list" where
  "completed_swapcoins B contract_txids s = filter (\<lambda>(_, swapcoin).
     (inc_other_privkey swapcoin \<noteq> None \<or> inc_hash_preimage swapcoin \<noteq> None)
     \<and> (case contract_txids of None \<Rightarrow> True | Some txids \<Rightarrow> b_txid B (inc_contract_tx swapcoin) \<in> set txids)) (ws_incoming s)"

definition sweep_incoming_swapcoins :: "btc \<Rightarrow> 'c wallet_ext \<Rightarrow> 'c chain \<Rightarrow> f64 \<Rightarrow> txid list option \<Rightarrow> ('c, recovery_outcome) wact" where
  "sweep_incoming_swapcoins B W C feerate contract_txids =
     act_seq (guard W) (
     act_bind (get_store (completed_swapcoins B contract_txids)) (\<lambda>completed.
     if completed = [] then act_ret outcome_default
     else
       act_seq (wr_sync_and_save W) (
       act_bind (act_foldM (sweep_one B W C feerate) [] completed) (\<lambda>resolved.
       act_seq (guard W) (
       act_seq (on_w save_to_disk) (
       act_ret \<lparr>ro_resolved = resolved, ro_discarded = []\<rparr>))))))"

section \<open>What the steps keep\<close>

definition wallet_is :: "(wallet \<Rightarrow> bool) \<Rightarrow> wallet \<times> 'c \<Rightarrow> bool" where
  "wallet_is J = (\<lambda>(w, _). J w)"

abbreviation coins_are :: "(txid \<times> incoming_swapcoin) list \<Rightarrow> (txid \<times> outgoing_swapcoin) list \<Rightarrow> wallet \<times> 'c \<Rightarrow> bool" where
  "coins_are inc og \<equiv> wallet_is (\<lambda>w. ws_incoming (w_store w) = inc \<and> ws_outgoing (w_store w) = og)"

text \<open>Syncing the wallet and deriving an address do not touch the swap coins.\<close>

definition keeps_coins :: "'c wallet_ext \<Rightarrow> bool" where
  "keeps_coins W \<longleftrightarrow> (\<forall>inc og. act_inv (coins_are inc og) (wr_sync_and_save W) \<and> act_inv (coins_are inc og) (wr_next_internal_address W))"

lemma on_chain_iff: "on_chain f (w, c) = (r, t) \<longleftrightarrow> (\<exists>c'. f c = (r, c') \<and> t = (w, c'))"
  by (auto simp: on_chain_def split: prod.splits)

lemma on_chain_keeps [hoare_intros]: "act_inv (wallet_is J) (on_chain f)"
  by (auto simp: act_inv_iff wallet_is_def on_chain_def split: prod.splits)

lemma save_keeps [hoare_intros]: "act_inv (coins_are inc og) (on_w save_to_disk)"
  by (auto simp: act_inv_iff wallet_is_def on_w_def save_to_disk_def split: prod.splits)

lemma guard_keeps [hoare_intros]: "act_inv I (guard W)"
  by (auto simp: guard_def intro!: hoare_intros)

lemma get_store_keeps [hoare_intros]: "act_inv I (get_store f)"
  by (simp add: get_store_def act_inv_get)

lemma upd_store_keeps [hoare_intros]:
  "(\<And>s. ws_incoming (f s) = ws_incoming s \<and> ws_outgoing (f s) = ws_outgoing s) \<Longrightarrow> act_inv (coins_are inc og) (upd_store f)"
  by (auto simp: upd_store_def wallet_is_def act_inv_iff act_upd_def)

lemma wait_keeps [hoare_intros]: "act_inv (wallet_is J) (wait_confirmed_once W C txid)"
  by (simp add: wait_confirmed_once_def on_chain_keeps)

lemma seen_keeps [hoare_intros]: "act_inv (coins_are inc og) (utxo_seen C txid vout m)"
  by (auto simp: utxo_seen_def intro!: hoare_intros)

lemma ready_keeps [hoare_intros]: "act_inv (coins_are inc og) (utxo_ready B W C coin txid vout)"
  by (auto simp: utxo_ready_def intro!: hoare_intros split: sum.splits)

lemma unmark_keeps [hoare_intros]: "act_inv (coins_are inc og) (unmark_on_failure W address)"
  by (auto simp: unmark_on_failure_def intro!: hoare_intros split: option.splits)

lemma act_valid_of_inv: "act_inv I m \<Longrightarrow> act_valid I m (\<lambda>_. I) (\<lambda>_. I)"
  by (simp add: act_inv_def)

lemma act_valid_bind_inv:
  "act_inv I m \<Longrightarrow> (\<And>x. act_valid I (f x) Q (\<lambda>_. I)) \<Longrightarrow> act_valid I (act_bind m f) Q (\<lambda>_. I)"
  by (rule act_valid_bind [OF act_valid_of_inv])

lemma act_valid_try:
  "(\<And>r. act_valid (\<lambda>t. \<exists>s. P s \<and> m s = (r, t)) (f r) Q E) \<Longrightarrow> act_valid P (act_try m f) Q E"
  by (fastforce simp: act_valid_def act_try_def split: prod.splits)

lemma act_valid_ex: "(\<And>i. act_valid (P i) m Q E) \<Longrightarrow> act_valid (\<lambda>s. \<exists>i. P i s) m Q E"
  by (rule act_validI) (blast dest: act_valid_okD act_valid_errD)+

lemma act_valid_ret: "(\<And>s. P s \<Longrightarrow> Q x s) \<Longrightarrow> act_valid P (act_ret x) Q E"
  by (simp add: act_valid_def act_ret_def)

lemma act_valid_fail: "(\<And>s. P s \<Longrightarrow> E e s) \<Longrightarrow> act_valid P (act_fail e) Q E"
  by (simp add: act_valid_def act_fail_def)

lemma act_valid_foldM:
  assumes "\<And>acc x. x \<in> set xs \<Longrightarrow> act_valid (I acc) (f acc x) I E"
  shows "act_valid (I acc) (act_foldM f acc xs) I E"
  using assms by (induction xs arbitrary: acc) (auto intro!: act_valid_ret act_valid_bind)

section \<open>Sweeping loses no coin\<close>

definition spend_of :: "btc \<Rightarrow> 'c wallet_ext \<Rightarrow> incoming_swapcoin \<Rightarrow> transaction \<Rightarrow> bool" where
  "spend_of B W coin tx \<longleftrightarrow> (\<exists>input_value. case inc_payment_target coin of
     Some target \<Rightarrow> sign_spend_transaction_with_output_value B (fst (wr_nonces W)) (snd (wr_nonces W)) coin input_value
         (pt_amount target) (pt_script_pubkey target) = Inr tx
   | None \<Rightarrow> \<exists>script feerate. sign_spend_transaction B (fst (wr_nonces W)) (snd (wr_nonces W)) coin input_value script feerate = Inr tx)"

definition swept_by :: "btc \<Rightarrow> 'c wallet_ext \<Rightarrow> 'c chain \<Rightarrow> incoming_swapcoin \<Rightarrow> txid \<Rightarrow> bool" where
  "swept_by B W C coin txid \<longleftrightarrow> (\<exists>tx c c'. spend_of B W coin tx \<and> ch_send_raw_transaction C tx c = (Inr txid, c')) \<and> seen_confirmed C 1 txid"

lemma wait_valid:
  "act_valid (wallet_is J) (wait_confirmed_once W C txid) (\<lambda>_ s. wallet_is J s \<and> seen_confirmed C 1 txid) (\<lambda>_. wallet_is J)"
  by (auto simp: act_valid_def wait_confirmed_once_def on_chain_def wallet_is_def split: prod.splits sum.splits intro: wait_confirmed)

lemma spend_valid:
  assumes "keeps_coins W"
  shows "act_valid (coins_are inc og) (sweep_spend B W feerate coin v)
    (\<lambda>(_, r) s. coins_are inc og s \<and> (\<forall>tx. r = Inr tx \<longrightarrow> spend_of B W coin tx)) (\<lambda>_. coins_are inc og)"
proof (cases "inc_payment_target coin")
  case None
  have "act_valid (coins_are inc og) (act_seq (guard W) (act_bind (wr_next_internal_address W) (\<lambda>(_, script).
          act_seq (upd_store (\<lambda>s. s\<lparr>ws_swept := List.insert script (ws_swept s)\<rparr>)) (
          act_ret (Some script, sign_spend_transaction B (fst (wr_nonces W)) (snd (wr_nonces W)) coin v script feerate)))))
      (\<lambda>(_, r) s. coins_are inc og s \<and> (\<forall>tx. r = Inr tx \<longrightarrow> spend_of B W coin tx)) (\<lambda>_. coins_are inc og)"
    using assms None
    by (auto intro!: act_valid_bind_inv guard_keeps upd_store_keeps act_valid_ret split: prod.splits simp: keeps_coins_def spend_of_def)
  with None show ?thesis by (simp add: sweep_spend_def split_def)
next
  case (Some target)
  then show ?thesis by (auto simp: sweep_spend_def split_def spend_of_def intro!: act_valid_ret)
qed

lemma sent_valid:
  assumes "\<And>e. act_valid (wallet_is J) (f (Inl e)) Q (\<lambda>_. wallet_is J)"
    "\<And>txid c c'. ch_send_raw_transaction C tx c = (Inr txid, c') \<Longrightarrow> act_valid (wallet_is J) (f (Inr txid)) Q (\<lambda>_. wallet_is J)"
  shows "act_valid (wallet_is J) (act_try (on_chain (ch_send_raw_transaction C tx)) f) Q (\<lambda>_. wallet_is J)"
proof (rule act_valid_try)
  fix r
  show "act_valid (\<lambda>t. \<exists>s. wallet_is J s \<and> on_chain (ch_send_raw_transaction C tx) s = (r, t)) (f r) Q (\<lambda>_. wallet_is J)"
  proof (cases "\<exists>c c'. ch_send_raw_transaction C tx c = (r, c')")
    case True
    then have "act_valid (wallet_is J) (f r) Q (\<lambda>_. wallet_is J)" using assms by (cases r) auto
    then show ?thesis
      by (rule act_valid_conseq) (auto simp: on_chain_iff wallet_is_def)
  next
    case False
    then show ?thesis by (auto simp: act_valid_def on_chain_iff)
  qed
qed

lemma sweep_one_valid:
  assumes "keeps_coins W"
  shows "act_valid (coins_are inc og) (sweep_one B W C feerate acc (k, coin))
    (\<lambda>acc' s. coins_are inc og s \<and> acc' = acc \<or> coins_are (AList.delete k inc) og s \<and>
        (\<exists>txid. acc' = acc @ [(b_txid B (inc_contract_tx coin), txid)] \<and> swept_by B W C coin txid))
    (\<lambda>_. coins_are inc og)" (is "act_valid ?I _ ?Q ?E")
proof (cases "spend_source B coin")
  case None
  then show ?thesis by (simp add: sweep_one_def act_valid_ret)
next
  case (Some src)
  obtain t v a where src: "src = (t, v, a)" by (cases src)
  have skip: "act_valid ?I (act_ret acc) ?Q ?E" by (rule act_valid_ret) simp
  have unmark: "act_valid ?I (act_seq (unmark_on_failure W address) (act_ret acc)) ?Q ?E" for address
    by (rule act_valid_bind_inv [OF unmark_keeps skip])
  have finish: "act_valid ?I (act_seq (wait_confirmed_once W C txid) (act_seq (guard W) (
        act_seq (upd_store (\<lambda>s. snd (remove_incoming_swapcoin k s))) (act_ret (acc @ [(b_txid B (inc_contract_tx coin), txid)]))))) ?Q ?E"
    if "spend_of B W coin tx" "ch_send_raw_transaction C tx c = (Inr txid, c')" for tx txid c c'
  proof (rule act_valid_bind [OF wait_valid])
    show "act_valid (\<lambda>s. ?I s \<and> seen_confirmed C 1 txid) (act_seq (guard W) (
        act_seq (upd_store (\<lambda>s. snd (remove_incoming_swapcoin k s))) (act_ret (acc @ [(b_txid B (inc_contract_tx coin), txid)])))) ?Q ?E"
      using that by (auto simp: act_valid_def guard_def upd_store_def act_bind_def act_get_def act_ensure_def act_lift_def ensure_def act_upd_def act_ret_def
        wallet_is_def remove_incoming_swapcoin_def swept_by_def split: prod.splits)
  qed
  have "act_valid ?I (act_bind (sweep_spend B W feerate coin a) (\<lambda>(address, spend_result). case spend_result of
           Inl e \<Rightarrow> if e = WPanic then act_fail WPanic else act_seq (unmark_on_failure W address) (act_ret acc)
         | Inr spend_tx \<Rightarrow>
             act_try (on_chain (ch_send_raw_transaction C spend_tx)) (\<lambda>sent. case sent of
               Inl _ \<Rightarrow> act_seq (unmark_on_failure W address) (act_ret acc)
             | Inr txid \<Rightarrow>
                 act_seq (wait_confirmed_once W C txid) (
                 act_seq (guard W) (
                 act_seq (upd_store (\<lambda>s. snd (remove_incoming_swapcoin k s))) (
                 act_ret (acc @ [(b_txid B (inc_contract_tx coin), txid)]))))))) ?Q ?E" (is "act_valid _ (act_bind _ ?f) _ _")
  proof (rule act_valid_bind [OF spend_valid [OF assms]])
    fix x :: "script option \<times> (wallet_error + transaction)"
    obtain address r where x: "x = (address, r)" by (cases x)
    show "act_valid ((\<lambda>(_, r) s. ?I s \<and> (\<forall>tx. r = Inr tx \<longrightarrow> spend_of B W coin tx)) x) (?f x) ?Q ?E"
    proof (cases r)
      case (Inl e)
      show ?thesis
        using unmark [of address] by (auto simp: x Inl act_valid_fail)
    next
      case (Inr tx)
      show ?thesis
      proof (cases "spend_of B W coin tx")
        case True
        then show ?thesis by (auto simp: x Inr intro!: sent_valid unmark finish [of tx])
      qed (simp add: x Inr act_valid_def)
    qed
  qed
  then show ?thesis
    by (auto simp: sweep_one_def Some src intro!: act_valid_bind_inv ready_keeps skip)
qed

text \<open>What is true of the table after sweeping some of the coins of \<open>inc0\<close>.\<close>

definition sweep_ok ::
    "btc \<Rightarrow> 'c wallet_ext \<Rightarrow> 'c chain \<Rightarrow> (txid \<times> incoming_swapcoin) list \<Rightarrow> (txid \<times> incoming_swapcoin) list \<Rightarrow> (txid \<times> txid) list
     \<Rightarrow> (txid \<times> incoming_swapcoin) list \<Rightarrow> bool" where
  "sweep_ok B W C inc0 selected resolved inc \<longleftrightarrow> (\<forall>k. map_of inc k = map_of inc0 k
     \<or> map_of inc k = None \<and> (\<exists>coin txid. (k, coin) \<in> set selected \<and> (b_txid B (inc_contract_tx coin), txid) \<in> set resolved
         \<and> swept_by B W C coin txid))"

lemma sweep_ok_step:
  assumes "sweep_ok B W C inc0 selected resolved inc" "(k, coin) \<in> set selected" "swept_by B W C coin txid"
  shows "sweep_ok B W C inc0 selected (resolved @ [(b_txid B (inc_contract_tx coin), txid)]) (AList.delete k inc)"
  unfolding sweep_ok_def
proof
  fix j
  show "map_of (AList.delete k inc) j = map_of inc0 j \<or> map_of (AList.delete k inc) j = None \<and> (\<exists>c t. (j, c) \<in> set selected
      \<and> (b_txid B (inc_contract_tx c), t) \<in> set (resolved @ [(b_txid B (inc_contract_tx coin), txid)]) \<and> swept_by B W C c t)"
    using assms spec [OF assms(1) [unfolded sweep_ok_def], of j] by (cases "j = k") (auto simp: delete_conv')
qed

lemma sweep_all_valid:
  assumes "keeps_coins W" "set selected \<subseteq> set inc0"
  shows "act_valid (coins_are inc0 og) (act_foldM (sweep_one B W C feerate) [] selected)
    (\<lambda>resolved s. \<exists>inc. coins_are inc og s \<and> sweep_ok B W C inc0 selected resolved inc) (\<lambda>_ _. True)"
proof (rule act_valid_conseq [OF act_valid_foldM [where I = "\<lambda>resolved s. \<exists>inc. coins_are inc og s \<and> sweep_ok B W C inc0 selected resolved inc"
        and E = "\<lambda>_ _. True"]])
  fix acc x assume x: "x \<in> set selected"
  obtain k coin where kc: "x = (k, coin)" by (cases x)
  have "act_valid (\<lambda>s. coins_are inc og s \<and> sweep_ok B W C inc0 selected acc inc) (sweep_one B W C feerate acc x)
      (\<lambda>resolved s. \<exists>inc. coins_are inc og s \<and> sweep_ok B W C inc0 selected resolved inc) (\<lambda>_ _. True)" for inc
  proof (cases "sweep_ok B W C inc0 selected acc inc")
    case True
    show ?thesis
      by (rule act_valid_conseq [OF sweep_one_valid [OF assms(1), of inc og B C feerate acc k coin, folded kc]])
        (use True x in \<open>auto simp: kc intro: sweep_ok_step\<close>)
  qed (simp add: act_valid_def)
  then show "act_valid (\<lambda>s. \<exists>inc. coins_are inc og s \<and> sweep_ok B W C inc0 selected acc inc) (sweep_one B W C feerate acc x)
      (\<lambda>resolved s. \<exists>inc. coins_are inc og s \<and> sweep_ok B W C inc0 selected resolved inc) (\<lambda>_ _. True)"
    by (rule act_valid_ex)
qed (auto simp: sweep_ok_def)


section \<open>Timelock recovery loses no coin\<close>

text \<open>The coins up to the stored destination of a recovery, the only field of a stored coin that recovery writes.\<close>

definition strip_address :: "(txid \<times> outgoing_swapcoin) list \<Rightarrow> (txid \<times> outgoing_swapcoin) list" where
  "strip_address og = map (\<lambda>(k, coin). (k, coin\<lparr>og_recovery_address := None\<rparr>)) og"

abbreviation stripped_are :: "(txid \<times> incoming_swapcoin) list \<Rightarrow> (txid \<times> outgoing_swapcoin) list \<Rightarrow> wallet \<times> 'c \<Rightarrow> bool" where
  "stripped_are inc og \<equiv> wallet_is (\<lambda>w. ws_incoming (w_store w) = inc \<and> strip_address (ws_outgoing (w_store w)) = og)"

lemma strip_update: "map_of og k = Some coin \<Longrightarrow> strip_address (AList.update k (coin\<lparr>og_recovery_address := a\<rparr>) og) = strip_address og"
  by (induction og) (auto simp: strip_address_def)

lemma strip_delete: "strip_address (AList.delete k og) = AList.delete k (strip_address og)"
  by (induction og) (auto simp: strip_address_def)

lemma stripped_of_coins: "(\<And>inc og. act_inv (coins_are inc og) m) \<Longrightarrow> act_inv (stripped_are inc og) m"
  by (fastforce simp: act_inv_iff wallet_is_def split: prod.splits)

lemma stripped_keeps [hoare_intros]:
  "act_inv (stripped_are inc og) (on_w save_to_disk)"
  "keeps_coins W \<Longrightarrow> act_inv (stripped_are inc og) (wr_next_internal_address W)"
  "keeps_coins W \<Longrightarrow> act_inv (stripped_are inc og) (wr_sync_and_save W)"
  by (auto intro!: stripped_of_coins hoare_intros simp: keeps_coins_def)

lemma address_keeps: "act_inv (stripped_are inc og) m \<Longrightarrow> act_inv (stripped_are inc og)
    (act_bind (get_store (\<lambda>s. map_of (ws_outgoing s) k)) (\<lambda>coin.
     act_bind (act_lift (ok_or coin e)) (\<lambda>coin.
     act_seq (upd_store (\<lambda>s. s\<lparr>ws_outgoing := AList.update k (coin\<lparr>og_recovery_address := Some a\<rparr>) (ws_outgoing s)\<rparr>)) m)))"
  by (auto simp: act_inv_iff get_store_def upd_store_def act_bind_def act_get_def act_lift_def act_upd_def ok_or_def wallet_is_def strip_update
    split: option.splits)

lemma recovery_script_keeps: "keeps_coins W \<Longrightarrow> act_inv (stripped_are inc og) (recovery_script W k)"
  unfolding recovery_script_def
  by (auto intro!: hoare_intros address_keeps split: option.splits)

text \<open>The evidence for giving up a coin, and for having spent it.\<close>

definition contract_gone :: "btc \<Rightarrow> 'c chain \<Rightarrow> outgoing_swapcoin \<Rightarrow> bool" where
  "contract_gone B C coin \<longleftrightarrow>
     (let txid = b_txid B (og_contract_tx coin); vout = og_get_contract_output_vout coin in
      (\<exists>spk c c'. ch_is_confirmed_spend C \<lparr>op_txid = txid, op_vout = vout\<rparr> spk c = (Inr True, c'))
    \<or> (\<exists>input. nth_opt (tx_input (og_contract_tx coin)) 0 = Some input \<and> (\<exists>c c'. ch_tx_block_height C txid c = (Inr None, c')) \<and>
         (og_protocol coin = Taproot \<and> (\<exists>n c c'. ch_get_tx_out C (op_txid (ti_prev input)) (op_vout (ti_prev input)) (Some True) c = (Inr (Some n), c'))
        \<or> (\<exists>c c'. ch_get_tx_out C (op_txid (ti_prev input)) (op_vout (ti_prev input)) (Some True) c = (Inr None, c')))))"

definition reclaimed_by :: "btc \<Rightarrow> 'c chain \<Rightarrow> outgoing_swapcoin \<Rightarrow> nat \<Rightarrow> txid \<Rightarrow> bool" where
  "reclaimed_by B C coin timelock txid \<longleftrightarrow>
     (\<exists>fee_rate script tx c c'. create_timelock_recovery_tx B coin fee_rate script = Inr tx \<and> ch_send_raw_transaction C tx c = (Inr txid, c'))
     \<and> seen_confirmed C 1 txid
     \<and> (\<exists>n c c'. ch_get_tx_out C (b_txid B (og_contract_tx coin)) (og_get_contract_output_vout coin) (Some False) c = (Inr (Some n), c')
         \<and> (if og_protocol coin = Taproot then 1 else timelock) \<le> n)"

lemma publish_discarded:
  assumes "publish_contract B C coin i c = (Inr Discarded, c')"
  shows "\<exists>c c'. ch_get_tx_out C (op_txid i) (op_vout i) (Some True) c = (Inr None, c')"
  using assms
  by (fastforce simp: publish_contract_def act_try_def act_bind_Inr_iff act_ret_iff act_fail_iff split: sum.splits if_splits prod.splits)

lemma ensure_discarded:
  assumes "ensure_contract_on_chain B C coin c = (Inr Discarded, c')"
  shows "contract_gone B C coin"
  using assms
  by (auto simp: ensure_contract_on_chain_def Let_def act_bind_Inr_iff act_ret_iff act_lift_def ok_or_Inr_iff contract_gone_def
    split: if_splits dest!: publish_discarded)

lemma chain_valid:
  assumes "\<And>x c c'. f c = (Inr x, c') \<Longrightarrow> act_valid (wallet_is J) (g x) Q (\<lambda>_. wallet_is J)"
  shows "act_valid (wallet_is J) (act_bind (on_chain f) g) Q (\<lambda>_. wallet_is J)"
proof (rule act_valid_bind)
  show "act_valid (wallet_is J) (on_chain f) (\<lambda>x s. wallet_is J s \<and> (\<exists>c c'. f c = (Inr x, c'))) (\<lambda>_. wallet_is J)"
    by (auto simp: act_valid_def on_chain_def wallet_is_def split: prod.splits sum.splits)
  fix x
  show "act_valid (\<lambda>s. wallet_is J s \<and> (\<exists>c c'. f c = (Inr x, c'))) (g x) Q (\<lambda>_. wallet_is J)"
  proof (cases "\<exists>c c'. f c = (Inr x, c')")
    case True
    then obtain c c' where "f c = (Inr x, c')" by blast
    from assms [OF this] show ?thesis by (rule act_valid_conseq) auto
  qed (simp add: act_valid_def)
qed

lemma reclaim_valid:
  assumes "keeps_coins W"
    and mature: "ch_get_tx_out C (b_txid B (og_contract_tx coin)) (og_get_contract_output_vout coin) (Some False) c1 = (Inr (Some n), c2)"
      "(if og_protocol coin = Taproot then 1 else timelock) \<le> n"
  shows "act_valid (stripped_are inc og) (reclaim_coin B W C fee_rate (resolved, discarded) (k, coin))
    (\<lambda>acc s. stripped_are inc og s \<and> acc = (resolved, discarded)
       \<or> stripped_are inc (AList.delete k og) s
         \<and> (\<exists>txid. acc = (resolved @ [(b_txid B (og_contract_tx coin), txid)], discarded) \<and> reclaimed_by B C coin timelock txid))
    (\<lambda>_. stripped_are inc og)" (is "act_valid ?I _ ?Q ?E")
proof -
  let ?finish = "\<lambda>txid. act_seq (guard W) (act_seq (upd_store (remove_outgoing_swapcoin k))
    (act_ret (resolved @ [(b_txid B (og_contract_tx coin), txid)], discarded)))"
  have skip: "act_valid ?I (act_ret (resolved, discarded)) ?Q ?E" by (rule act_valid_ret) simp
  have finish: "act_valid ?I (act_seq (wait_confirmed_once W C txid) (?finish txid)) ?Q ?E"
    if "create_timelock_recovery_tx B coin fee_rate script = Inr tx" "ch_send_raw_transaction C tx c = (Inr txid, c')" for script tx txid c c'
  proof (rule act_valid_bind [OF wait_valid])
    have "reclaimed_by B C coin timelock txid" if "seen_confirmed C 1 txid"
      unfolding reclaimed_by_def using \<open>create_timelock_recovery_tx B coin fee_rate script = Inr tx\<close>
        \<open>ch_send_raw_transaction C tx c = (Inr txid, c')\<close> mature that by blast
    then show "act_valid (\<lambda>s. ?I s \<and> seen_confirmed C 1 txid) (?finish txid) ?Q ?E"
      by (auto simp: act_valid_def guard_def upd_store_def act_bind_def act_get_def act_ensure_def act_lift_def ensure_def act_upd_def act_ret_def
        wallet_is_def remove_outgoing_swapcoin_def strip_delete split: prod.splits)
  qed
  show ?thesis unfolding reclaim_coin_def split
  proof (rule act_valid_bind_inv [OF recovery_script_keeps [OF assms(1)]])
    fix script
    show "act_valid ?I (case create_timelock_recovery_tx B coin fee_rate script of
       Inl e \<Rightarrow> if e = WPanic then act_fail WPanic else act_ret (resolved, discarded)
     | Inr recovery_tx \<Rightarrow> act_try (on_chain (ch_send_raw_transaction C recovery_tx)) (\<lambda>sent. case sent of
           Inl _ \<Rightarrow> act_ret (resolved, discarded)
         | Inr txid \<Rightarrow> act_seq (wait_confirmed_once W C txid) (?finish txid))) ?Q ?E"
      by (cases "create_timelock_recovery_tx B coin fee_rate script") (auto intro!: skip act_valid_fail sent_valid finish)
  qed
qed

lemma recover_one_valid:
  assumes "keeps_coins W"
  shows "act_valid (stripped_are inc og) (recover_one B W C fee_rate (resolved, discarded) (k, coin, timelock))
    (\<lambda>acc s. stripped_are inc og s \<and> acc = (resolved, discarded)
       \<or> stripped_are inc og s \<and> acc = (resolved, discarded @ [k]) \<and> contract_gone B C coin
       \<or> stripped_are inc (AList.delete k og) s
         \<and> (\<exists>txid. acc = (resolved @ [(b_txid B (og_contract_tx coin), txid)], discarded) \<and> reclaimed_by B C coin timelock txid))
    (\<lambda>_. stripped_are inc og)" (is "act_valid ?I _ ?Q ?E")
proof -
  have skip: "act_valid ?I (act_ret (resolved, discarded)) ?Q ?E" by (rule act_valid_ret) simp
  have reclaim: "act_valid ?I (reclaim_coin B W C fee_rate (resolved, discarded) (k, coin)) ?Q ?E"
    if "ch_get_tx_out C (b_txid B (og_contract_tx coin)) (og_get_contract_output_vout coin) (Some False) c1 = (Inr (Some n), c2)"
      "\<not> n < (if og_protocol coin = Taproot then 1 else timelock)" for c1 n c2
    by (rule act_valid_conseq [OF reclaim_valid [OF assms that(1) that(2) [unfolded not_less]]]) auto
  show ?thesis
    unfolding recover_one_def split Let_def
    by (rule chain_valid)
      (auto split: option.splits intro!: skip act_valid_ret chain_valid reclaim dest: ensure_discarded
        intro: contract_chain_state.exhaust)
qed

definition recover_ok ::
    "btc \<Rightarrow> 'c chain \<Rightarrow> (txid \<times> outgoing_swapcoin) list \<Rightarrow> candidate list \<Rightarrow> recovery_acc \<Rightarrow> (txid \<times> outgoing_swapcoin) list \<Rightarrow> bool" where
  "recover_ok B C og0 selected = (\<lambda>(resolved, discarded) og.
     (\<forall>k. map_of og k = map_of og0 k \<or> map_of og k = None \<and> (\<exists>coin t txid. (k, coin, t) \<in> set selected
        \<and> (b_txid B (og_contract_tx coin), txid) \<in> set resolved \<and> reclaimed_by B C coin t txid))
     \<and> (\<forall>k \<in> set discarded. \<exists>coin t. (k, coin, t) \<in> set selected \<and> contract_gone B C coin))"

lemma recover_ok_step:
  assumes "recover_ok B C og0 selected (resolved, discarded) og" "(k, coin, t) \<in> set selected" "reclaimed_by B C coin t txid"
  shows "recover_ok B C og0 selected (resolved @ [(b_txid B (og_contract_tx coin), txid)], discarded) (AList.delete k og)"
proof -
  note ok = assms(1) [unfolded recover_ok_def split]
  have "map_of (AList.delete k og) j = map_of og0 j \<or> map_of (AList.delete k og) j = None \<and> (\<exists>c u x. (j, c, u) \<in> set selected
      \<and> (b_txid B (og_contract_tx c), x) \<in> set (resolved @ [(b_txid B (og_contract_tx coin), txid)]) \<and> reclaimed_by B C c u x)" for j
    using assms(2,3) spec [OF conjunct1 [OF ok], of j] by (cases "j = k") (auto simp: delete_conv')
  with ok show ?thesis by (simp add: recover_ok_def)
qed

lemma recover_all_valid:
  assumes "keeps_coins W"
  shows "act_valid (stripped_are inc og0) (act_foldM (recover_one B W C fee_rate) ([], []) selected)
    (\<lambda>acc s. \<exists>og. stripped_are inc og s \<and> recover_ok B C og0 selected acc og) (\<lambda>_ _. True)"
proof (rule act_valid_conseq [OF act_valid_foldM [where I = "\<lambda>acc s. \<exists>og. stripped_are inc og s \<and> recover_ok B C og0 selected acc og"
        and E = "\<lambda>_ _. True"]])
  fix acc :: recovery_acc and x assume x: "x \<in> set selected"
  obtain k coin t where kc: "x = (k, coin, t)" by (cases x)
  obtain resolved discarded where acc: "acc = (resolved, discarded)" by (cases acc)
  have "act_valid (\<lambda>s. stripped_are inc og s \<and> recover_ok B C og0 selected acc og) (recover_one B W C fee_rate acc x)
      (\<lambda>acc s. \<exists>og. stripped_are inc og s \<and> recover_ok B C og0 selected acc og) (\<lambda>_ _. True)" for og
  proof (cases "recover_ok B C og0 selected acc og")
    case True
    then have discard: "contract_gone B C coin \<Longrightarrow> recover_ok B C og0 selected (resolved, discarded @ [k]) og"
      using x by (auto simp: recover_ok_def acc kc)
    show ?thesis
      by (rule act_valid_conseq [OF recover_one_valid [OF assms(1), of inc og B C fee_rate resolved discarded k coin t, folded kc acc]])
        (use True x discard recover_ok_step in \<open>fastforce simp: acc kc\<close>)+
  qed (simp add: act_valid_def)
  then show "act_valid (\<lambda>s. \<exists>og. stripped_are inc og s \<and> recover_ok B C og0 selected acc og) (recover_one B W C fee_rate acc x)
      (\<lambda>acc s. \<exists>og. stripped_are inc og s \<and> recover_ok B C og0 selected acc og) (\<lambda>_ _. True)"
    by (rule act_valid_ex)
qed (auto simp: recover_ok_def)

lemma discard_fold:
  "fold (discard_coin B) ks (txids, og) = (txids', og') \<Longrightarrow>
     (\<forall>k. map_of og' k = (if k \<in> set ks then None else map_of og k)) \<and> set txids \<subseteq> set txids'
     \<and> (\<forall>k \<in> set ks. \<forall>sc. map_of og k = Some sc \<longrightarrow> b_txid B (og_contract_tx sc) \<in> set txids')"
proof (induction ks arbitrary: txids og)
  case (Cons k ks)
  then have "fold (discard_coin B) ks (fst (discard_coin B k (txids, og)), AList.delete k og) = (txids', og')"
    by (simp add: discard_coin_def [of _ k])
  from Cons.IH [OF this] show ?case
    by (auto simp: discard_coin_def delete_conv' split: option.splits if_splits)
qed simp

lemma strip_map_of: "map_of (strip_address og) k = map_option (\<lambda>coin. coin\<lparr>og_recovery_address := None\<rparr>) (map_of og k)"
  by (induction og) (auto simp: strip_address_def)

lemma strip_contract: "map_of (strip_address og) k = map_of (strip_address og') k \<Longrightarrow> map_of og k = Some sc \<Longrightarrow>
    \<exists>sc'. map_of og' k = Some sc' \<and> og_contract_tx sc' = og_contract_tx sc"
  by (cases "map_of og' k") (auto simp: strip_map_of dest: arg_cong [of _ _ og_contract_tx])


section \<open>Concrete runs\<close>

text \<open>A chain that confirms everything at once, and one that has never seen a contract.\<close>

definition good_chain :: "nat chain" where
  "good_chain = stuck_chain\<lparr>ch_get_tx_out := (\<lambda>_ _ _. act_ret (Some 3)), ch_tx_block_height := (\<lambda>_. act_ret (Some 90)),
     ch_get_raw_transaction_info := (\<lambda>_. act_ret (Some 3)), ch_send_raw_transaction := (\<lambda>_. act_ret [5])\<rparr>"

definition unseen_chain :: "nat chain" where
  "unseen_chain = stuck_chain\<lparr>ch_get_tx_out := (\<lambda>_ _ m. act_ret (if m = Some True then Some 1 else None))\<rparr>"

definition sample_ext :: "nat wallet_ext" where
  "sample_ext = \<lparr>wr_sync_and_save = act_ret (), wr_next_internal_address = act_ret ([], []), wr_address_script = (\<lambda>_. Some []),
     wr_poisoned = (\<lambda>_. False), wr_shutdown = (\<lambda>_. False), wr_nonces = ([], [])\<rparr>"

definition paid_coin :: incoming_swapcoin where
  "paid_coin = sample_coin\<lparr>inc_payment_target := Some \<lparr>pt_script_pubkey = [4], pt_amount = 900\<rparr>\<rparr>"

definition paid_wallet :: wallet where
  "paid_wallet = empty_wallet\<lparr>w_store := empty_store\<lparr>ws_incoming := [([1], paid_coin)]\<rparr>\<rparr>"

lemma sample_ext_keeps: "keeps_coins sample_ext"
  by (simp add: keeps_coins_def sample_ext_def act_inv_ret)

lemma sample_ext_fields:
  "\<not> wr_poisoned sample_ext c" "\<not> wr_shutdown sample_ext c" "wr_nonces sample_ext = ([], [])" "wr_sync_and_save sample_ext = act_ret ()"
  by (simp_all add: sample_ext_def)

lemma good_chain_fields:
  "ch_get_tx_out good_chain t v m c = (Inr (Some 3), c)" "ch_tx_block_height good_chain t c = (Inr (Some 90), c)"
  "ch_get_raw_transaction_info good_chain t c = (Inr (Some 3), c)" "ch_send_raw_transaction good_chain tx c = (Inr [5], c)"
  "ch_now good_chain c = c"
  by (simp_all add: good_chain_def stuck_chain_def act_ret_def)

lemma good_loop: "wait_loop (Suc fuel) good_chain [[5]] 1 arrival (Some (wr_shutdown sample_ext)) None c 0 [[5]] [] c = (Inr (Some 90), c)"
  by (simp add: wait_poll_def poll_tx_def check_interrupt_def sample_ext_fields good_chain_fields act_bind_def act_get_def act_ret_def act_try_def
      act_lift_def act_ensure_def ensure_def ok_or_def Let_def)

lemma good_wait: "wait_confirmed_once sample_ext good_chain [5] (w, c) = (Inr 90, (w, c))"
proof -
  have "wait_loop wait_fuel good_chain [[5]] 1 TX_BROADCAST_TIMEOUT (Some (wr_shutdown sample_ext)) None c 0 [[5]] [] c = (Inr (Some 90), c)"
    using good_loop [of 27] by (simp add: wait_fuel_def del: wait_loop.simps)
  then show ?thesis
    by (simp add: wait_confirmed_once_def on_chain_iff wait_for_tx_confirmation_def good_chain_fields act_bind_def act_get_def act_lift_def ok_or_def)
qed

lemma paid_spend: "\<exists>tx. sign_spend_transaction_with_output_value sample_lib [] [] paid_coin 1000 900 [4] = Inr tx"
  by (simp add: sign_spend_transaction_with_output_value_def spend_previous_output_def sign_legacy_spend_def
      paid_coin_def sample_coin_def inc_set_other_privkey_def inc_new_legacy_def Let_def sample_lib_def)

lemma paid_one: "sweep_one sample_lib sample_ext good_chain fee acc (k, paid_coin) (w, c)
    = (Inr (acc @ [(b_txid sample_lib (inc_contract_tx paid_coin), [5])]), (w\<lparr>w_store := snd (remove_incoming_swapcoin k (w_store w))\<rparr>, c))"
proof -
  obtain tx where tx: "sign_spend_transaction_with_output_value sample_lib [] [] paid_coin 1000 900 [4] = Inr tx" using paid_spend by blast
  have fields: "inc_payment_target paid_coin = Some \<lparr>pt_script_pubkey = [4], pt_amount = 900\<rparr>"
    "spend_source sample_lib paid_coin = Some ([9], 0, 1000)"
    by (simp_all add: paid_coin_def sample_coin_def inc_set_other_privkey_def inc_new_legacy_def spend_source_def nth_opt_def Let_def)
  have ready: "utxo_ready sample_lib sample_ext good_chain paid_coin [9] 0 (w, c) = (Inr True, (w, c))" for w c
    by (simp add: utxo_ready_def utxo_seen_def act_bind_def act_try_def on_chain_def good_chain_fields act_ret_def)
  show ?thesis
    using tx fields
    by (simp add: sweep_one_def act_bind_def ready sweep_spend_def sample_ext_fields act_ret_def act_try_def
      on_chain_def good_chain_fields good_wait guard_def act_get_def act_ensure_def act_lift_def ensure_def upd_store_def act_upd_def)
qed

lemma paid_sweep: "\<exists>s. sweep_incoming_swapcoins sample_lib sample_ext good_chain fee None (paid_wallet, c)
    = (Inr \<lparr>ro_resolved = [(b_txid sample_lib (inc_contract_tx paid_coin), [5])], ro_discarded = []\<rparr>,
       (paid_wallet\<lparr>w_store := empty_store, w_disk := Some empty_store\<rparr>, s))"
proof -
  have "inc_other_privkey paid_coin \<noteq> None" by (simp add: paid_coin_def sample_coin_def inc_set_other_privkey_def inc_new_legacy_def)
  then show ?thesis
    by (simp add: sweep_incoming_swapcoins_def act_bind_def guard_def get_store_def act_get_def act_ensure_def act_lift_def ensure_def
      sample_ext_fields completed_swapcoins_def paid_one paid_wallet_def empty_wallet_def empty_store_def act_ret_def on_w_def save_to_disk_def
      remove_incoming_swapcoin_def)
qed


text \<open>A taproot coin past its timelock whose contract was never broadcast.\<close>

definition lost_coin :: outgoing_swapcoin where
  "lost_coin = (og_new_taproot [] [] [1, 50, 0, 0, 0, 0]
     \<lparr>tx_version = 2, tx_lock_time = 0,
      tx_input = [\<lparr>ti_prev = \<lparr>op_txid = [9], op_vout = 0\<rparr>, ti_sequence = 0, ti_witness = [], ti_script_sig = []\<rparr>],
      tx_output = [\<lparr>to_value = 700, to_spk = [8]\<rparr>]\<rparr> 700)\<lparr>og_my_privkey := Some []\<rparr>"

definition lost_wallet :: "txid \<Rightarrow> wallet" where
  "lost_wallet k = empty_wallet\<lparr>w_store := empty_store\<lparr>ws_outgoing := [(k, lost_coin)]\<rparr>\<rparr>"

lemma lost_recovery: "\<exists>s. recover_timelocked_swapcoins sample_lib sample_ext unseen_chain fee (lost_wallet k, c)
    = (Inr \<lparr>ro_resolved = [], ro_discarded = [b_txid sample_lib (og_contract_tx lost_coin)]\<rparr>,
       (lost_wallet k\<lparr>w_store := empty_store, w_disk := Some empty_store\<rparr>, s))"
proof -
  have timelock: "get_timelock sample_lib lost_coin = Some 50" and key: "og_my_privkey lost_coin \<noteq> None" and prot: "og_protocol lost_coin = Taproot"
    by (simp_all add: lost_coin_def get_timelock_def og_new_taproot_def)
  have one: "recover_one sample_lib sample_ext unseen_chain fee ([], []) (k, lost_coin, 50) (w, c) = (Inr ([], [k]), (w, c))" for w c
    by (simp add: recover_one_def act_bind_def on_chain_def ensure_contract_on_chain_def unseen_chain_def stuck_chain_def act_ret_def act_lift_def
      ok_or_def nth_opt_def lost_coin_def og_new_taproot_def Let_def)
  from timelock key prot show ?thesis
    by (simp add: recover_timelocked_swapcoins_def record_recovery_def act_bind_def guard_def get_store_def act_get_def act_ensure_def act_lift_def
      ensure_def sample_ext_fields recovery_candidates_def one lost_wallet_def empty_wallet_def empty_store_def act_ret_def on_w_def save_to_disk_def
      on_chain_def unseen_chain_def [THEN arg_cong [of _ _ ch_get_block_count]] stuck_chain_def upd_store_def act_upd_def discard_coin_def map_filter_def)
qed


end
