(* ===== verification/MakerTracker.thy ===== *)
theory MakerTracker
  imports MakerTypes
begin

text \<open>
  The maker's persistent record of recovery progress, \<open>maker/swap_tracker.rs\<close>. The file is replaced
  atomically: the data is written to a temporary file, which is then renamed. A disk is the two files; an
  operation on it succeeds, fails half-way, or is cut short by a crash. \<open>serde_cbor\<close> is a pair of
  parameters.
\<close>

section \<open>Records\<close>

datatype maker_swap_phase = Active | TakerDropped | Recovering | Recovered | SwapCompleted

datatype maker_recovery_phase =
    NotStarted | Monitoring | HashlockRecovered | TimelockWaiting | TimelockRecovered | CleanedUp

text \<open>The derived order is that of the declaration.\<close>

primrec recovery_rank :: "maker_recovery_phase \<Rightarrow> nat" where
  "recovery_rank NotStarted = 0"
| "recovery_rank Monitoring = 1"
| "recovery_rank HashlockRecovered = 2"
| "recovery_rank TimelockWaiting = 3"
| "recovery_rank TimelockRecovered = 4"
| "recovery_rank CleanedUp = 5"

instantiation maker_recovery_phase :: linorder
begin

definition less_eq_maker_recovery_phase :: "maker_recovery_phase \<Rightarrow> maker_recovery_phase \<Rightarrow> bool" where
  "p \<le> q \<longleftrightarrow> recovery_rank p \<le> recovery_rank q"

definition less_maker_recovery_phase :: "maker_recovery_phase \<Rightarrow> maker_recovery_phase \<Rightarrow> bool" where
  "p < q \<longleftrightarrow> recovery_rank p < recovery_rank q"

instance
proof
  fix p q r :: maker_recovery_phase
  show "p < q \<longleftrightarrow> p \<le> q \<and> \<not> q \<le> p" "p \<le> p" "p \<le> q \<or> q \<le> p"
    and "p \<le> q \<Longrightarrow> q \<le> r \<Longrightarrow> p \<le> r"
    by (auto simp: less_eq_maker_recovery_phase_def less_maker_recovery_phase_def)
  show "p \<le> q \<Longrightarrow> q \<le> p \<Longrightarrow> p = q"
    by (cases p; cases q) (simp_all add: less_eq_maker_recovery_phase_def)
qed

end

record maker_recovery_state =
  rs_phase :: maker_recovery_phase
  rs_incoming_swept :: "txid list"
  rs_outgoing_recovered :: "txid list"
  rs_outgoing_discarded :: "txid list"

definition recovery_state_default :: maker_recovery_state where
  "recovery_state_default = \<lparr>rs_phase = NotStarted, rs_incoming_swept = [], rs_outgoing_recovered = [], rs_outgoing_discarded = []\<rparr>"

record maker_swap_record =
  mr_swap_id :: swap_id
  mr_protocol :: protocol_version
  mr_phase :: maker_swap_phase
  mr_swap_amount_sat :: nat
  mr_incoming_count :: nat
  mr_outgoing_count :: nat
  mr_funding_broadcast :: bool
  mr_recovery :: maker_recovery_state
  mr_created_at :: nat
  mr_updated_at :: nat

type_synonym tracker_data = "(swap_id \<times> maker_swap_record) list"

section \<open>The files\<close>

record disk =
  dk_file :: "bytes option"
  dk_tmp :: "bytes option"

datatype fs_op = CreateDir | WriteTmp bytes | RenameTmp

text \<open>\<open>rename\<close> fails without the temporary file, which the code has just written.\<close>

fun fs_exec :: "fs_op \<Rightarrow> disk \<Rightarrow> disk" where
  "fs_exec CreateDir d = d"
| "fs_exec (WriteTmp bytes) d = d\<lparr>dk_tmp := Some bytes\<rparr>"
| "fs_exec RenameTmp d = (case dk_tmp d of Some bytes \<Rightarrow> \<lparr>dk_file = Some bytes, dk_tmp = None\<rparr> | None \<Rightarrow> d)"

text \<open>An operation that does not complete has written \<open>n\<close> bytes; a rename has then not happened.\<close>

fun fs_partial :: "nat \<Rightarrow> fs_op \<Rightarrow> disk \<Rightarrow> disk" where
  "fs_partial n (WriteTmp bytes) d = d\<lparr>dk_tmp := Some (take n bytes)\<rparr>"
| "fs_partial n CreateDir d = d"
| "fs_partial n RenameTmp d = d"

section \<open>The tracker\<close>

text \<open>
  \<open>tk_fault\<close> says which operation the file system refuses and how far it gets. \<open>cbor\<close> is the
  serializer and its inverse.
\<close>

record tracker =
  tk_data :: tracker_data
  tk_disk :: disk
  tk_fault :: "fs_op \<Rightarrow> nat option"

type_synonym cbor = "(tracker_data \<Rightarrow> bytes option) \<times> (bytes \<Rightarrow> tracker_data option)"

definition load_data :: "cbor \<Rightarrow> disk \<Rightarrow> tracker_data" where
  "load_data S d = (case dk_file d of
     None \<Rightarrow> []
   | Some bytes \<Rightarrow> (case snd S bytes of None \<Rightarrow> [] | Some data \<Rightarrow> data))"

definition load_or_create :: "cbor \<Rightarrow> (fs_op \<Rightarrow> nat option) \<Rightarrow> disk \<Rightarrow> tracker" where
  "load_or_create S fault d = \<lparr>tk_data = load_data S d, tk_disk = d, tk_fault = fault\<rparr>"

definition fs_do :: "fs_op \<Rightarrow> (tracker, maker_error, unit) act" where
  "fs_do op t = (case tk_fault t op of
     None \<Rightarrow> (Inr (), t\<lparr>tk_disk := fs_exec op (tk_disk t)\<rparr>)
   | Some n \<Rightarrow> (Inl (MIO OtherKind), t\<lparr>tk_disk := fs_partial n op (tk_disk t)\<rparr>))"

definition flush :: "cbor \<Rightarrow> (tracker, maker_error, unit) act" where
  "flush S =
     act_seq (fs_do CreateDir) (
     act_bind (act_get tk_data) (\<lambda>data.
     act_bind (act_lift (ok_or (fst S data) (MIO OtherKind))) (\<lambda>bytes.
     act_seq (fs_do (WriteTmp bytes)) (
     fs_do RenameTmp))))"

definition save_record :: "cbor \<Rightarrow> maker_swap_record \<Rightarrow> (tracker, maker_error, unit) act" where
  "save_record S record =
     act_seq (act_upd (\<lambda>t. t\<lparr>tk_data := AList.update (mr_swap_id record) record (tk_data t)\<rparr>)) (flush S)"

definition get_record :: "swap_id \<Rightarrow> tracker \<Rightarrow> maker_swap_record option" where
  "get_record swap_id t = map_of (tk_data t) swap_id"

text \<open>\<open>get_record_mut\<close> with the change \<open>f\<close> the caller makes through the reference.\<close>

definition get_record_mut :: "swap_id \<Rightarrow> (maker_swap_record \<Rightarrow> maker_swap_record) \<Rightarrow> tracker \<Rightarrow> tracker" where
  "get_record_mut swap_id f t = (case map_of (tk_data t) swap_id of
     None \<Rightarrow> t
   | Some r \<Rightarrow> t\<lparr>tk_data := AList.update swap_id (f r) (tk_data t)\<rparr>)"

definition is_incomplete :: "maker_swap_record \<Rightarrow> bool" where
  "is_incomplete r \<longleftrightarrow> mr_phase r \<notin> {Recovered, SwapCompleted} \<or> rs_phase (mr_recovery r) < CleanedUp"

definition incomplete_swaps :: "tracker \<Rightarrow> maker_swap_record list" where
  "incomplete_swaps t = filter is_incomplete (map snd (tk_data t))"

definition update_tracker :: "cbor \<Rightarrow> nat \<Rightarrow> swap_id \<Rightarrow> (maker_swap_record \<Rightarrow> maker_swap_record) \<Rightarrow> tracker \<Rightarrow> tracker" where
  "update_tracker S now swap_id f t =
     (let t = get_record_mut swap_id (\<lambda>r. (f r)\<lparr>mr_updated_at := now\<rparr>) t in
      case get_record swap_id t of
        None \<Rightarrow> t
      | Some cloned \<Rightarrow> snd (save_record S cloned t))"

section \<open>Crashes\<close>

text \<open>The disks a crash during \<open>save_record\<close> can leave: any number of its operations has run and the next one in part.\<close>

definition flush_ops :: "bytes \<Rightarrow> fs_op list" where
  "flush_ops bytes = [CreateDir, WriteTmp bytes, RenameTmp]"

inductive crash_disk :: "fs_op list \<Rightarrow> disk \<Rightarrow> disk \<Rightarrow> bool" where
  complete: "crash_disk [] d d"
| cut: "crash_disk (op # ops) d (fs_partial n op d)"
| later: "crash_disk ops (fs_exec op d) d' \<Longrightarrow> crash_disk (op # ops) d d'"

inductive_simps crash_disk_Nil: "crash_disk [] d d'"
inductive_simps crash_disk_Cons: "crash_disk (op # ops) d d'"

definition cbor_ok :: "cbor \<Rightarrow> bool" where
  "cbor_ok S \<longleftrightarrow> (\<forall>data bytes. fst S data = Some bytes \<longrightarrow> snd S bytes = Some data)"

lemma fs_do_disk:
  "fs_do op t = (r, t') \<Longrightarrow> tk_data t' = tk_data t \<and> tk_fault t' = tk_fault t
     \<and> (r = Inr () \<and> tk_disk t' = fs_exec op (tk_disk t) \<or> (\<exists>n. r = Inl (MIO OtherKind) \<and> tk_disk t' = fs_partial n op (tk_disk t)))"
  by (auto simp: fs_do_def split: option.splits)

text \<open>Every way a flush can end leaves a disk that a crash could have left.\<close>

lemma flush_run:
  assumes "flush S t = (r, t')"
  shows "tk_data t' = tk_data t \<and> tk_fault t' = tk_fault t
    \<and> (fst S (tk_data t) = None \<and> r \<noteq> Inr () \<and> tk_disk t' = tk_disk t
       \<or> (\<exists>bytes. fst S (tk_data t) = Some bytes \<and> crash_disk (flush_ops bytes) (tk_disk t) (tk_disk t')
            \<and> (r = Inr () \<longrightarrow> tk_disk t' = \<lparr>dk_file = Some bytes, dk_tmp = None\<rparr>)))"
proof -
  obtain r1 t1 where t1: "fs_do CreateDir t = (r1, t1)" by (cases "fs_do CreateDir t")
  note d1 = fs_do_disk [OF t1]
  show ?thesis
  proof (cases "fst S (tk_data t)")
    case None
    with assms t1 d1 show ?thesis by (auto simp: flush_def act_bind_def act_get_def act_lift_def ok_or_def split: sum.splits)
  next
    case (Some bytes)
    obtain r2 t2 where t2: "fs_do (WriteTmp bytes) t1 = (r2, t2)" by (cases "fs_do (WriteTmp bytes) t1")
    obtain r3 t3 where t3: "fs_do RenameTmp t2 = (r3, t3)" by (cases "fs_do RenameTmp t2")
    note d2 = fs_do_disk [OF t2] and d3 = fs_do_disk [OF t3]
    from assms Some t1 t2 t3 d1 d2 d3 show ?thesis
      by (auto simp: flush_def act_bind_def act_get_def act_lift_def ok_or_def flush_ops_def crash_disk_Cons crash_disk_Nil split: sum.splits)
  qed
qed

lemma crash_loads:
  assumes "cbor_ok S" "fst S data = Some bytes" "crash_disk (flush_ops bytes) d d'"
  shows "load_data S d' = load_data S d \<or> load_data S d' = data"
  using assms by (auto simp: flush_ops_def crash_disk_Cons crash_disk_Nil load_data_def cbor_ok_def)

lemma load_saved: "cbor_ok S \<Longrightarrow> fst S data = Some bytes \<Longrightarrow> load_data S \<lparr>dk_file = Some bytes, dk_tmp = tmp\<rparr> = data"
  by (simp add: load_data_def cbor_ok_def)


lemma update_tracker_data:
  "tk_data (update_tracker S now swap_id f t) = (case map_of (tk_data t) swap_id of
     None \<Rightarrow> tk_data t
   | Some r \<Rightarrow> let r' = (f r)\<lparr>mr_updated_at := now\<rparr> in AList.update (mr_swap_id r') r' (AList.update swap_id r' (tk_data t)))"
proof -
  have "tk_data (snd (flush S t)) = tk_data t" for t
    by (cases "flush S t") (use flush_run [of S t] in auto)
  then show ?thesis
    by (simp add: update_tracker_def get_record_mut_def get_record_def save_record_def act_bind_def act_upd_def Let_def
      update_conv' split: option.splits)
qed

lemma update_tracker_record:
  assumes "map_of (tk_data t) swap_id = Some r" "mr_swap_id (f r) = swap_id"
  shows "get_record swap_id (update_tracker S now swap_id f t) = Some ((f r)\<lparr>mr_updated_at := now\<rparr>)"
  using assms by (simp add: get_record_def update_tracker_data Let_def update_conv')

section \<open>Concrete runs\<close>

text \<open>A serializer for the empty table only: enough to see the laws hold.\<close>

definition sample_record :: maker_swap_record where
  "sample_record = \<lparr>mr_swap_id = ''a'', mr_protocol = Taproot, mr_phase = TakerDropped, mr_swap_amount_sat = 1000, mr_incoming_count = 1,
     mr_outgoing_count = 1, mr_funding_broadcast = True, mr_recovery = recovery_state_default, mr_created_at = 0, mr_updated_at = 0\<rparr>"

definition sample_cbor :: cbor where
  "sample_cbor = (\<lambda>data. if data = [(''a'', sample_record)] then Some [1] else None, \<lambda>bytes. if bytes = [1] then Some [(''a'', sample_record)] else None)"

definition full_disk :: tracker where
  "full_disk = \<lparr>tk_data = [], tk_disk = \<lparr>dk_file = None, dk_tmp = None\<rparr>, tk_fault = (\<lambda>op. if op = WriteTmp [1] then Some 0 else None)\<rparr>"


end
