(* ===== verification/MakerRecovery.thy ===== *)
theory MakerRecovery
  imports MakerConnection WalletRecovery MakerTracker
begin

text \<open>
  How the maker gets its funds back when a taker drops out, \<open>maker/server.rs\<close>: the idle checker that starts a
  recovery thread, the grouping of unfinished coins after a restart, and the recovery itself, which reads revealed
  preimages, sweeps the incoming coins or reclaims the outgoing ones, and keeps the tracker. A recovery thread works on the
  wallet, the chain and the tracker. The watch service and the clock are parameters.
\<close>

section \<open>The recovery thread\<close>

datatype watcher_event = UtxoSpent outpoint "transaction option" | NoOutpoint | EventError string

record 'c recovery =
  rc_wallet :: wallet
  rc_chain :: 'c
  rc_tracker :: tracker

text \<open>\<open>re_wait\<close> is \<open>wait_for_shutdown\<close> over one heartbeat, false once a shutdown is requested.\<close>

record 'c recovery_env =
  re_lib :: btc
  re_wallet :: "'c wallet_ext"
  re_chain :: "'c chain"
  re_cbor :: cbor
  re_alive :: "'c \<Rightarrow> bool"
  re_watch_request :: "outpoint \<Rightarrow> ('c, watcher_error, watcher_event) act"
  re_new_connection :: "('c, wallet_error, unit) act"
  re_wait :: "'c \<Rightarrow> bool \<times> 'c"
  re_sleep :: "'c \<Rightarrow> 'c"
  re_now_secs :: "'c \<Rightarrow> nat"
  re_tracker_poisoned :: "'c \<Rightarrow> bool"

type_synonym ('c, 'a) ract = "('c recovery, maker_error, 'a) act"

definition on_net :: "('e \<Rightarrow> maker_error) \<Rightarrow> ('c, 'e, 'a) act \<Rightarrow> ('c, 'a) ract" where
  "on_net g f s = (case f (rc_chain s) of (r, c) \<Rightarrow> (map_err g r, s\<lparr>rc_chain := c\<rparr>))"

definition on_funds :: "('c, 'a) wact \<Rightarrow> ('c, 'a) ract" where
  "on_funds f s = (case f (rc_wallet s, rc_chain s) of (r, (w, c)) \<Rightarrow> (map_err (werr MWallet) r, s\<lparr>rc_wallet := w, rc_chain := c\<rparr>))"

definition ask :: "('c \<Rightarrow> 'a) \<Rightarrow> ('c, 'a) ract" where
  "ask f = act_get (\<lambda>s. f (rc_chain s))"

definition lock_funds :: "'c recovery_env \<Rightarrow> ('c, unit) ract" where
  "lock_funds E = act_bind (ask (wr_poisoned (re_wallet E))) (\<lambda>poisoned. act_ensure (\<not> poisoned) (MGeneral ''Failed to lock wallet''))"

definition track :: "'c recovery_env \<Rightarrow> swap_id \<Rightarrow> (maker_swap_record \<Rightarrow> maker_swap_record) \<Rightarrow> ('c, unit) ract" where
  "track E swap_id f = act_upd (\<lambda>s. if re_tracker_poisoned E (rc_chain s) then s
     else s\<lparr>rc_tracker := update_tracker (re_cbor E) (re_now_secs E (rc_chain s)) swap_id f (rc_tracker s)\<rparr>)"

abbreviation set_recovery :: "maker_recovery_phase \<Rightarrow> maker_swap_record \<Rightarrow> maker_swap_record" where
  "set_recovery p r \<equiv> r\<lparr>mr_recovery := (mr_recovery r)\<lparr>rs_phase := p\<rparr>\<rparr>"

section \<open>Revealed preimages\<close>

definition MIN_WITNESS_ITEM_FOR_HASHLOCK :: nat where "MIN_WITNESS_ITEM_FOR_HASHLOCK = 2"
definition PREIMAGE_LEN :: nat where "PREIMAGE_LEN = 32"

definition extract_preimage :: "txin \<Rightarrow> outpoint list \<times> preimage list \<Rightarrow> outpoint list \<times> preimage list" where
  "extract_preimage input = (\<lambda>(seen, preimages).
     if ti_prev input \<in> set seen then (seen, preimages)
     else (ti_prev input # seen,
       if MIN_WITNESS_ITEM_FOR_HASHLOCK \<le> length (ti_witness input) \<and> length (ti_witness input ! 1) = PREIMAGE_LEN
       then preimages @ [ti_witness input ! 1] else preimages))"

text \<open>The spend of one output, from the backend itself when the watcher is gone.\<close>

definition contract_spend :: "'c recovery_env \<Rightarrow> bool \<Rightarrow> outpoint \<times> script \<Rightarrow> ('c, transaction option) ract" where
  "contract_spend E direct = (\<lambda>(outpoint, script).
     if direct then on_net (werr MWallet) (ch_spending_transaction (re_chain E) outpoint script)
     else act_bind (on_net (\<lambda>_. MGeneral ''watchtower query failed'') (re_watch_request E outpoint))
       (\<lambda>event. act_ret (case event of UtxoSpent _ spending_tx \<Rightarrow> spending_tx | _ \<Rightarrow> None)))"

definition collect_preimages :: "'c recovery_env \<Rightarrow> bool \<Rightarrow> outgoing_swapcoin list \<Rightarrow> ('c, outpoint list \<times> preimage list) ract" where
  "collect_preimages E direct outgoing_swapcoins =
     act_foldM (\<lambda>acc watch. act_bind (contract_spend E direct watch) (\<lambda>spending_tx.
         act_ret (case spending_tx of None \<Rightarrow> acc | Some tx \<Rightarrow> fold extract_preimage (tx_input tx) acc)))
       ([], []) (concat (map (contract_watches (re_lib E) \<circ> og_contract_tx) outgoing_swapcoins))"

definition preimage_matches :: "btc \<Rightarrow> incoming_swapcoin \<Rightarrow> preimage \<Rightarrow> bool" where
  "preimage_matches B incoming preimage = (case inc_contract_redeemscript incoming of
     Some redeemscript \<Rightarrow> read_hashvalue_from_contract B redeemscript = Inr (b_hash160 B preimage)
   | None \<Rightarrow> (case inc_hashlock_script incoming of
       Some script \<Rightarrow> 34 \<le> length script \<and> take 32 (drop 2 script) = b_sha256 B preimage
     | None \<Rightarrow> False))"

definition apply_preimage :: "btc \<Rightarrow> preimage list \<Rightarrow> incoming_swapcoin \<Rightarrow> wallet_store \<Rightarrow> wallet_store" where
  "apply_preimage B preimages incoming s = (case find (preimage_matches B incoming) preimages of
     None \<Rightarrow> s
   | Some preimage \<Rightarrow> find_incoming_swapcoin_mut (b_txid B (inc_contract_tx incoming))
       (\<lambda>coin. if inc_hash_preimage coin = None then inc_set_preimage preimage coin else coin) s)"

definition check_for_preimage :: "'c recovery_env \<Rightarrow> outgoing_swapcoin list \<Rightarrow> incoming_swapcoin list \<Rightarrow> ('c, unit) ract" where
  "check_for_preimage E outgoing_swapcoins incoming_swapcoins =
     act_seq (lock_funds E) (
     act_bind (ask (re_alive E)) (\<lambda>alive.
     act_seq (if alive then act_ret () else on_net (werr MWallet) (re_new_connection E)) (
     act_bind (collect_preimages E (\<not> alive) outgoing_swapcoins) (\<lambda>(_, preimages).
     if preimages = [] then act_ret ()
     else
       act_seq (lock_funds E) (
       act_seq (on_funds (upd_store (fold (apply_preimage (re_lib E) preimages) incoming_swapcoins))) (
       on_funds (on_w save_to_disk)))))))"

section \<open>The two paths\<close>

definition incoming_keys :: "btc \<Rightarrow> incoming_swapcoin list \<Rightarrow> txid list" where
  "incoming_keys B = map (\<lambda>coin. b_txid B (inc_contract_tx coin))"

definition outgoing_keys :: "btc \<Rightarrow> outgoing_swapcoin list \<Rightarrow> txid list" where
  "outgoing_keys B = map (\<lambda>coin. b_txid B (og_contract_tx coin))"

definition hashlock_path :: "'c recovery_env \<Rightarrow> swap_id \<Rightarrow> incoming_swapcoin list \<Rightarrow> outgoing_swapcoin list \<Rightarrow> ('c, bool) ract" where
  "hashlock_path E swap_id incoming_swapcoins outgoing_swapcoins =
     act_seq (lock_funds E) (
     act_seq (on_funds (wr_sync_and_save (re_wallet E))) (
     act_bind (on_funds (sweep_incoming_swapcoins (re_lib E) (re_wallet E) (re_chain E) (f64_of_nat MIN_FEE_RATE)
       (Some (incoming_keys (re_lib E) incoming_swapcoins)))) (\<lambda>swept.
     if outcome_is_empty swept then act_ret False
     else
       act_seq (track E swap_id (\<lambda>r. r\<lparr>mr_recovery := (mr_recovery r)\<lparr>rs_incoming_swept := map snd (ro_resolved swept), rs_phase := HashlockRecovered\<rparr>\<rparr>)) (
       act_seq (lock_funds E) (
       act_seq (on_funds (upd_store (fold remove_outgoing_swapcoin (outgoing_keys (re_lib E) outgoing_swapcoins)))) (
       act_seq (on_funds (on_w save_to_disk)) (
       act_seq (track E swap_id (\<lambda>r. set_recovery CleanedUp (r\<lparr>mr_phase := Recovered\<rparr>))) (
       act_ret True))))))))"

fun outputs_gone :: "'c chain \<Rightarrow> (txid \<times> nat) list \<Rightarrow> ('c, wallet_error, bool) act" where
  "outputs_gone C [] = act_ret True"
| "outputs_gone C ((txid, vout) # rest) = act_bind (ch_get_tx_out C txid vout None) (\<lambda>out.
     if out \<noteq> None then act_ret False else outputs_gone C rest)"

definition all_swap_contracts_resolved :: "'c recovery_env \<Rightarrow> incoming_swapcoin list \<Rightarrow> outgoing_swapcoin list \<Rightarrow> ('c, bool) ract" where
  "all_swap_contracts_resolved E incoming_swapcoins outgoing_swapcoins =
     act_seq (lock_funds E) (
     on_net (werr MWallet) (outputs_gone (re_chain E)
       (map (\<lambda>coin. (b_txid (re_lib E) (og_contract_tx coin), og_get_contract_output_vout coin)) outgoing_swapcoins
        @ map (\<lambda>coin. (b_txid (re_lib E) (inc_contract_tx coin), inc_get_contract_output_vout coin)) incoming_swapcoins)))"

definition timelock_path ::
    "'c recovery_env \<Rightarrow> swap_id \<Rightarrow> incoming_swapcoin list \<Rightarrow> outgoing_swapcoin list \<Rightarrow> txid list \<Rightarrow> ('c, bool \<times> txid list) ract" where
  "timelock_path E swap_id incoming_swapcoins outgoing_swapcoins recovery_txids =
     act_seq (track E swap_id (set_recovery TimelockWaiting)) (
     act_bind (on_funds (recover_timelocked_swapcoins (re_lib E) (re_wallet E) (re_chain E) (f64_of_nat MIN_FEE_RATE))) (\<lambda>recovered.
     if outcome_is_empty recovered then act_ret (False, recovery_txids)
     else
       let recovery_txids = recovery_txids @ map snd (ro_resolved recovered) in
       act_seq (track E swap_id (\<lambda>r. r\<lparr>mr_recovery := (mr_recovery r)\<lparr>rs_outgoing_recovered := recovery_txids, rs_phase := TimelockRecovered\<rparr>\<rparr>)) (
       act_try (all_swap_contracts_resolved E incoming_swapcoins outgoing_swapcoins) (\<lambda>resolved.
       if resolved = Inl MPanic then act_fail MPanic
       else if resolved = Inr True
       then act_seq (track E swap_id (\<lambda>r. set_recovery CleanedUp (r\<lparr>mr_phase := Recovered\<rparr>))) (act_ret (True, recovery_txids))
       else act_ret (False, recovery_txids)))))"

section \<open>The recovery loop\<close>

definition all_preimages_known :: "btc \<Rightarrow> incoming_swapcoin list \<Rightarrow> wallet_store \<Rightarrow> bool" where
  "all_preimages_known B incoming_swapcoins s \<longleftrightarrow> list_all (\<lambda>incoming.
     case find_incoming_swapcoin (b_txid B (inc_contract_tx incoming)) s of Some coin \<Rightarrow> inc_is_preimage_known coin | None \<Rightarrow> False) incoming_swapcoins"

definition recover_pass ::
    "'c recovery_env \<Rightarrow> swap_id \<Rightarrow> nat \<Rightarrow> incoming_swapcoin list \<Rightarrow> outgoing_swapcoin list \<Rightarrow> txid list \<Rightarrow> ('c, bool \<times> txid list) ract" where
  "recover_pass E swap_id timelock_expiry incoming_swapcoins outgoing_swapcoins recovery_txids =
     act_try (check_for_preimage E outgoing_swapcoins incoming_swapcoins) (\<lambda>checked.
     if checked = Inl MPanic then act_fail MPanic
     else if checked \<noteq> Inr ()
     then act_bind (on_net (\<lambda>e. e) (\<lambda>c. case re_wait E c of (b, c') \<Rightarrow> (Inr b, c'))) (\<lambda>go_on. act_ret (\<not> go_on, recovery_txids))
     else
       act_bind (ask (wr_shutdown (re_wallet E))) (\<lambda>shutdown.
       if shutdown then act_ret (True, recovery_txids)
       else
         act_seq (lock_funds E) (
         act_bind (on_funds (get_store (all_preimages_known (re_lib E) incoming_swapcoins))) (\<lambda>known.
         act_seq (lock_funds E) (
         act_bind (on_net (werr MWallet) (ch_get_block_count (re_chain E))) (\<lambda>height.
         let hashlock = (known \<and> incoming_swapcoins \<noteq> []); expired = (timelock_expiry \<le> height mod 2 ^ 32) in
         act_seq (if hashlock \<or> expired then act_seq (lock_funds E) (on_net (werr MWallet) (re_new_connection E)) else act_ret ()) (
         act_bind (if hashlock then hashlock_path E swap_id incoming_swapcoins outgoing_swapcoins else act_ret False) (\<lambda>finished.
         if finished then act_ret (True, recovery_txids)
         else
           act_bind (if expired then timelock_path E swap_id incoming_swapcoins outgoing_swapcoins recovery_txids
             else act_ret (False, recovery_txids)) (\<lambda>(finished, recovery_txids).
           if finished then act_ret (True, recovery_txids)
           else act_seq (act_upd (\<lambda>s. s\<lparr>rc_chain := re_sleep E (rc_chain s)\<rparr>)) (act_ret (False, recovery_txids)))))))))))"

text \<open>The loop runs until a pass ends it or a shutdown is requested; \<open>None\<close> is no end within the fuel.\<close>

fun recover_loop ::
    "nat \<Rightarrow> 'c recovery_env \<Rightarrow> swap_id \<Rightarrow> nat \<Rightarrow> incoming_swapcoin list \<Rightarrow> outgoing_swapcoin list \<Rightarrow> txid list \<Rightarrow> ('c, unit option) ract" where
  "recover_loop 0 E swap_id timelock_expiry incoming_swapcoins outgoing_swapcoins recovery_txids = act_ret None"
| "recover_loop (Suc fuel) E swap_id timelock_expiry incoming_swapcoins outgoing_swapcoins recovery_txids =
     act_bind (ask (wr_shutdown (re_wallet E))) (\<lambda>shutdown.
     if shutdown then act_ret (Some ())
     else
       act_bind (recover_pass E swap_id timelock_expiry incoming_swapcoins outgoing_swapcoins recovery_txids) (\<lambda>(finished, recovery_txids).
       if finished then act_ret (Some ())
       else recover_loop fuel E swap_id timelock_expiry incoming_swapcoins outgoing_swapcoins recovery_txids))"

definition discard_unfunded :: "'c recovery_env \<Rightarrow> swap_id \<Rightarrow> incoming_swapcoin list \<Rightarrow> outgoing_swapcoin list \<Rightarrow> ('c, unit option) ract" where
  "discard_unfunded E swap_id incoming_swapcoins outgoing_swapcoins =
     act_seq (lock_funds E) (
     act_seq (on_funds (upd_store (\<lambda>s.
       fold (\<lambda>k s. snd (remove_incoming_swapcoin k s)) (incoming_keys (re_lib E) incoming_swapcoins)
         (fold remove_outgoing_swapcoin (outgoing_keys (re_lib E) outgoing_swapcoins) s)))) (
     act_seq (on_funds (on_w save_to_disk)) (
     act_seq (track E swap_id (\<lambda>r. set_recovery CleanedUp (r\<lparr>mr_phase := Recovered\<rparr>))) (
     act_ret (Some ())))))"

definition recover_from_swap ::
    "nat \<Rightarrow> 'c recovery_env \<Rightarrow> swap_id \<Rightarrow> incoming_swapcoin list \<Rightarrow> outgoing_swapcoin list \<Rightarrow> ('c, unit option) ract" where
  "recover_from_swap fuel E swap_id incoming_swapcoins outgoing_swapcoins =
     act_bind (act_lift (ok_or (Option.bind (nth_opt outgoing_swapcoins 0) (get_timelock (re_lib E)))
       (MGeneral ''missing timelock on outgoing swapcoin''))) (\<lambda>timelock_expiry.
     act_seq (lock_funds E) (
     act_seq (on_net (werr MWallet) (ch_get_block_count (re_chain E))) (
     act_bind (ask (re_tracker_poisoned E)) (\<lambda>poisoned.
     act_seq (act_ensure (\<not> poisoned) MMutexPossion) (
     act_bind (act_get (\<lambda>s. map_option mr_funding_broadcast (get_record swap_id (rc_tracker s)))) (\<lambda>funding_broadcast.
     if funding_broadcast = Some False then discard_unfunded E swap_id incoming_swapcoins outgoing_swapcoins
     else
       act_seq (track E swap_id (\<lambda>r. set_recovery Monitoring (r\<lparr>mr_phase := Recovering\<rparr>))) (
       recover_loop fuel E swap_id timelock_expiry incoming_swapcoins outgoing_swapcoins [])))))))"

section \<open>Starting a recovery\<close>

type_synonym coin_groups = "(swap_id \<times> incoming_swapcoin list \<times> outgoing_swapcoin list) list"

definition group_of :: "coin_groups \<Rightarrow> swap_id \<Rightarrow> incoming_swapcoin list \<times> outgoing_swapcoin list" where
  "group_of groups swap_id = (case map_of groups swap_id of None \<Rightarrow> ([], []) | Some g \<Rightarrow> g)"

definition group_incoming :: "coin_groups \<Rightarrow> incoming_swapcoin \<Rightarrow> maker_error + coin_groups" where
  "group_incoming groups incoming =
     res_bind (ok_or (inc_swap_id incoming) (MGeneral ''Persisted incoming swapcoin missing swap id'')) (\<lambda>swap_id.
     case group_of groups swap_id of (inc, out) \<Rightarrow> Inr (AList.update swap_id (inc @ [incoming], out) groups))"

definition group_outgoing :: "coin_groups \<Rightarrow> outgoing_swapcoin \<Rightarrow> maker_error + coin_groups" where
  "group_outgoing groups outgoing =
     res_bind (ok_or (og_swap_id outgoing) (MGeneral ''Persisted outgoing swapcoin missing swap id'')) (\<lambda>swap_id.
     case group_of groups swap_id of (inc, out) \<Rightarrow> Inr (AList.update swap_id (inc, out @ [outgoing]) groups))"

definition startup_groups :: "wallet_store \<Rightarrow> maker_error + coin_groups" where
  "startup_groups s = (case find_unfinished_swapcoins s of (inc, out) \<Rightarrow>
     res_bind (res_fold group_incoming [] inc) (\<lambda>groups. res_fold group_outgoing groups out))"

section \<open>Coins leave only when accounted for\<close>

text \<open>A predicate on the two tables of coins, as a predicate on the wallet and on the recovery.\<close>

type_synonym coins_pred = "(txid \<times> incoming_swapcoin) list \<Rightarrow> (txid \<times> outgoing_swapcoin) list \<Rightarrow> bool"

abbreviation coins_sat :: "coins_pred \<Rightarrow> wallet \<times> 'c \<Rightarrow> bool" where
  "coins_sat K \<equiv> wallet_is (\<lambda>w. K (ws_incoming (w_store w)) (ws_outgoing (w_store w)))"

abbreviation funds_sat :: "coins_pred \<Rightarrow> 'c recovery \<Rightarrow> bool" where
  "funds_sat K \<equiv> \<lambda>s. K (ws_incoming (w_store (rc_wallet s))) (ws_outgoing (w_store (rc_wallet s)))"

lemma act_valid_pure: "(P \<Longrightarrow> act_valid I m Q E) \<Longrightarrow> act_valid (\<lambda>s. I s \<and> P) m Q E"
  by (auto simp: act_valid_def)

lemma act_valid_bind_weak:
  assumes "act_inv I m" "\<And>x. act_valid I (f x) Q (\<lambda>_ _. True)"
  shows "act_valid I (act_bind m f) Q (\<lambda>_ _. True)"
  by (rule act_valid_bind [OF act_valid_conseq [OF act_valid_of_inv [OF assms(1)]] assms(2)]) auto

lemma get_store_valid:
  assumes "\<And>s. K (ws_incoming s) (ws_outgoing s) \<Longrightarrow> act_valid (coins_sat K) (g (f s)) Q E"
  shows "act_valid (coins_sat K) (act_bind (get_store f) g) Q E"
proof (rule act_validI)
  fix s :: "wallet \<times> 'a" assume s: "coins_sat K s"
  then have "K (ws_incoming (w_store (fst s))) (ws_outgoing (w_store (fst s)))" by (simp add: wallet_is_def split_def)
  note valid = assms [OF this]
  have run: "act_bind (get_store f) g s = g (f (w_store (fst s))) s" by (simp add: act_bind_def get_store_def act_get_def split_def)
  show "Q x t" if "act_bind (get_store f) g s = (Inr x, t)" for x t using act_valid_okD [OF valid s] that run by simp
  show "E e t" if "act_bind (get_store f) g s = (Inl e, t)" for e t using act_valid_errD [OF valid s] that run by simp
qed

lemma coins_inv: "(\<And>inc og. act_inv (coins_are inc og) m) \<Longrightarrow> act_inv (coins_sat K) m"
  by (auto simp: act_inv_iff wallet_is_def split_def)

lemma coins_valid:
  assumes "\<And>inc og. K inc og \<Longrightarrow> act_valid (coins_are inc og) m Q E"
  shows "act_valid (coins_sat K) m Q E"
proof (rule act_validI)
  fix s :: "wallet \<times> 'a" assume "coins_sat K s"
  then have K: "K (ws_incoming (w_store (fst s))) (ws_outgoing (w_store (fst s)))" by (simp add: wallet_is_def split_def)
  have s: "coins_are (ws_incoming (w_store (fst s))) (ws_outgoing (w_store (fst s))) s" by (simp add: wallet_is_def split_def)
  show "Q x t" if "m s = (Inr x, t)" for x t by (rule act_valid_okD [OF assms [OF K] s that])
  show "E e t" if "m s = (Inl e, t)" for e t by (rule act_valid_errD [OF assms [OF K] s that])
qed

lemma on_funds_valid:
  "act_valid (coins_sat K) f (\<lambda>x s. coins_sat K' s \<and> R x) (\<lambda>_. coins_sat K'') \<Longrightarrow>
     act_valid (funds_sat K) (on_funds f) (\<lambda>x s. funds_sat K' s \<and> R x) (\<lambda>_. funds_sat K'')"
  by (fastforce simp: act_valid_def on_funds_def wallet_is_def map_err_def split: prod.splits sum.splits)

lemma on_funds_inv [hoare_intros]: "act_inv (coins_sat K) (f :: ('c, 'a) wact) \<Longrightarrow> act_inv (funds_sat K) (on_funds f)"
proof -
  assume inv: "act_inv (coins_sat K) f"
  show ?thesis
    unfolding act_inv_iff
  proof (intro allI impI)
    fix s :: "'c recovery" assume "funds_sat K s"
    then show "funds_sat K (snd (on_funds f s))"
      using act_invD [OF inv, of "(rc_wallet s, rc_chain s)"] by (simp add: on_funds_def wallet_is_def split_def)
  qed
qed

lemma on_net_inv [hoare_intros]: "act_inv (funds_sat K) (on_net g f)"
  by (auto simp: act_inv_iff on_net_def split: prod.splits)

lemma track_inv [hoare_intros]: "act_inv (funds_sat K) (track E i f)"
  by (auto simp: track_def intro!: hoare_intros)

lemma ask_inv [hoare_intros]: "act_inv I (ask f)"
  by (simp add: ask_def act_inv_get)

lemma lock_inv [hoare_intros]: "act_inv I (lock_funds E)"
  by (auto simp: lock_funds_def intro!: hoare_intros)

lemma upd_store_inv: "(\<And>s. K (ws_incoming s) (ws_outgoing s) \<Longrightarrow> K (ws_incoming (f s)) (ws_outgoing (f s))) \<Longrightarrow> act_inv (coins_sat K) (upd_store f)"
  by (auto simp: upd_store_def wallet_is_def act_inv_iff act_upd_def)

lemma sweep_one_sat:
  assumes "keeps_coins W" "\<And>inc og txid. K inc og \<Longrightarrow> swept_by B W C coin txid \<Longrightarrow> K (AList.delete k inc) og"
  shows "act_valid (coins_sat K) (sweep_one B W C feerate acc (k, coin))
    (\<lambda>acc' s. coins_sat K s \<and> (acc' = acc \<or> (\<exists>txid. acc' = acc @ [(b_txid B (inc_contract_tx coin), txid)] \<and> swept_by B W C coin txid)))
    (\<lambda>_. coins_sat K)"
proof (rule coins_valid)
  fix inc og assume "K inc og"
  then show "act_valid (coins_are inc og) (sweep_one B W C feerate acc (k, coin))
    (\<lambda>acc' s. coins_sat K s \<and> (acc' = acc \<or> (\<exists>txid. acc' = acc @ [(b_txid B (inc_contract_tx coin), txid)] \<and> swept_by B W C coin txid)))
    (\<lambda>_. coins_sat K)"
    by (intro act_valid_conseq [OF sweep_one_valid [OF assms(1)]]) (auto simp: wallet_is_def assms(2))
qed

text \<open>What a coin of the incoming table may leave it for, and one of the outgoing table.\<close>

definition swept_coin :: "btc \<Rightarrow> 'c wallet_ext \<Rightarrow> 'c chain \<Rightarrow> txid \<Rightarrow> bool" where
  "swept_coin B W C k \<longleftrightarrow> (\<exists>coin txid. b_txid B (inc_contract_tx coin) = k \<and> swept_by B W C coin txid)"

definition reclaimed_coin :: "btc \<Rightarrow> 'c chain \<Rightarrow> txid \<Rightarrow> bool" where
  "reclaimed_coin B C k \<longleftrightarrow> (\<exists>coin. b_txid B (og_contract_tx coin) = k
     \<and> ((\<exists>t txid. reclaimed_by B C coin t txid) \<or> contract_gone B C coin))"

definition keyed :: "btc \<Rightarrow> coins_pred" where
  "keyed B inc og \<longleftrightarrow> (\<forall>(k, coin) \<in> set inc. b_txid B (inc_contract_tx coin) = k) \<and> (\<forall>(k, coin) \<in> set og. b_txid B (og_contract_tx coin) = k)"

lemma sweep_sat:
  assumes "keeps_coins W" "\<And>inc og. K inc og \<Longrightarrow> keyed B inc og"
    "\<And>inc og k. K inc og \<Longrightarrow> swept_coin B W C k \<Longrightarrow> K (AList.delete k inc) og"
  shows "act_valid (coins_sat K) (sweep_incoming_swapcoins B W C feerate (Some txids))
    (\<lambda>outcome s. coins_sat K s \<and> (outcome_is_empty outcome \<or> (\<exists>k \<in> set txids. swept_coin B W C k))) (\<lambda>_. coins_sat K)"
    (is "act_valid _ _ ?Q ?E")
proof -
  let ?I = "\<lambda>acc s. coins_sat K s \<and> (acc = [] \<or> (\<exists>k \<in> set txids. swept_coin B W C k))"
  have fold: "act_valid (coins_sat K) (act_foldM (sweep_one B W C feerate) [] sel) ?I ?E"
    if sel: "\<forall>(k, coin) \<in> set sel. b_txid B (inc_contract_tx coin) = k \<and> k \<in> set txids" for sel
  proof (rule act_valid_conseq [OF act_valid_foldM [where I = ?I and acc = "[]" and E = ?E]])
    fix acc :: "(txid \<times> txid) list" and x assume "x \<in> set sel"
    with sel obtain k coin where x: "x = (k, coin)" "b_txid B (inc_contract_tx coin) = k" "k \<in> set txids" by (cases x) auto
    then have swept: "swept_by B W C coin txid \<Longrightarrow> swept_coin B W C k" for txid by (auto simp: swept_coin_def)
    show "act_valid (?I acc) (sweep_one B W C feerate acc x) ?I ?E"
      unfolding x(1)
      by (rule act_valid_pure, rule act_valid_conseq [OF sweep_one_sat [OF assms(1), where K = K]]) (use x swept assms(3) in auto)
  qed auto
  have body: "act_valid (coins_sat K) (if completed = [] then act_ret outcome_default
      else act_seq (wr_sync_and_save W) (act_bind (act_foldM (sweep_one B W C feerate) [] completed) (\<lambda>resolved.
        act_seq (guard W) (act_seq (on_w save_to_disk) (act_ret \<lparr>ro_resolved = resolved, ro_discarded = []\<rparr>))))) ?Q ?E"
    if "\<forall>(k, coin) \<in> set completed. b_txid B (inc_contract_tx coin) = k \<and> k \<in> set txids" for completed
  proof -
    have save: "act_valid (?I resolved) (act_seq (guard W) (act_seq (on_w save_to_disk) (act_ret \<lparr>ro_resolved = resolved, ro_discarded = []\<rparr>))) ?Q ?E" for resolved
      by (rule act_valid_pure, intro act_valid_bind_inv guard_keeps coins_inv [OF save_keeps] act_valid_ret) (auto simp: outcome_is_empty_def)
    have sync: "act_inv (coins_sat K) (wr_sync_and_save W)" by (rule coins_inv) (use assms(1) in \<open>simp add: keeps_coins_def\<close>)
    show ?thesis
      using act_valid_bind_inv [OF sync act_valid_bind [OF fold [OF that] save]]
      by (simp add: act_valid_ret outcome_default_def outcome_is_empty_def)
  qed
  have "\<forall>(k, coin) \<in> set (completed_swapcoins B (Some txids) s). b_txid B (inc_contract_tx coin) = k \<and> k \<in> set txids"
    if "K (ws_incoming s) (ws_outgoing s)" for s
    using assms(2) [OF that] by (auto simp: completed_swapcoins_def keyed_def)
  then show ?thesis
    unfolding sweep_incoming_swapcoins_def by (intro act_valid_bind_inv [OF guard_keeps get_store_valid] body)
qed

lemma stripped_valid:
  assumes "\<And>inc og. K inc og \<Longrightarrow> act_valid (stripped_are inc og) m Q E" "\<And>inc og. K inc (strip_address og) \<longleftrightarrow> K inc og"
  shows "act_valid (coins_sat K) m Q E"
proof (rule act_validI)
  fix s :: "wallet \<times> 'a" assume "coins_sat K s"
  then have K: "K (ws_incoming (w_store (fst s))) (strip_address (ws_outgoing (w_store (fst s))))" by (simp add: wallet_is_def split_def assms(2))
  have s: "stripped_are (ws_incoming (w_store (fst s))) (strip_address (ws_outgoing (w_store (fst s)))) s" by (simp add: wallet_is_def split_def)
  show "Q x t" if "m s = (Inr x, t)" for x t by (rule act_valid_okD [OF assms(1) [OF K] s that])
  show "E e t" if "m s = (Inl e, t)" for e t by (rule act_valid_errD [OF assms(1) [OF K] s that])
qed

lemma recover_one_sat:
  assumes "keeps_coins W" "\<And>inc og. K inc (strip_address og) \<longleftrightarrow> K inc og"
    "\<And>inc og txid. K inc og \<Longrightarrow> reclaimed_by B C coin t txid \<Longrightarrow> K inc (AList.delete k og)"
  shows "act_valid (coins_sat K) (recover_one B W C fee_rate (resolved, discarded) (k, coin, t))
    (\<lambda>acc s. coins_sat K s \<and> (snd acc = discarded \<or> snd acc = discarded @ [k] \<and> contract_gone B C coin)) (\<lambda>_. coins_sat K)"
proof (rule stripped_valid [where K = K, OF _ assms(2)])
  fix inc og assume "K inc og"
  moreover have "coins_sat K s" if "stripped_are inc og' s" "K inc og'" for og' and s :: "wallet \<times> 'a"
    using that assms(2) [of inc "ws_outgoing (w_store (fst s))"] by (auto simp: wallet_is_def split_def)
  ultimately show "act_valid (stripped_are inc og) (recover_one B W C fee_rate (resolved, discarded) (k, coin, t))
    (\<lambda>acc s. coins_sat K s \<and> (snd acc = discarded \<or> snd acc = discarded @ [k] \<and> contract_gone B C coin)) (\<lambda>_. coins_sat K)"
    by (intro act_valid_conseq [OF recover_one_valid [OF assms(1)]]) (auto simp: assms(3))
qed

lemma recover_sat:
  assumes "keeps_coins W" "\<And>inc og. K inc (strip_address og) \<longleftrightarrow> K inc og" "\<And>inc og. K inc og \<Longrightarrow> keyed B inc og"
    "\<And>inc og k. K inc og \<Longrightarrow> reclaimed_coin B C k \<Longrightarrow> K inc (AList.delete k og)"
  shows "act_inv (coins_sat K) (recover_timelocked_swapcoins B W C fee_rate)"
proof -
  let ?E = "\<lambda>_ :: wallet_error. coins_sat K"
  let ?I = "\<lambda>acc s. coins_sat K s \<and> (\<forall>k \<in> set (snd acc). reclaimed_coin B C k)"
  have fold: "act_valid (coins_sat K) (act_foldM (recover_one B W C fee_rate) ([], []) sel) ?I ?E"
    if sel: "\<forall>(k, coin, t) \<in> set sel. b_txid B (og_contract_tx coin) = k" for sel
  proof (rule act_valid_conseq [OF act_valid_foldM [where I = ?I and acc = "([], [])" and E = ?E]])
    fix acc :: recovery_acc and x assume "x \<in> set sel"
    with sel obtain k coin t where x: "x = (k, coin, t)" "b_txid B (og_contract_tx coin) = k" by (cases x) auto
    then have gone: "reclaimed_by B C coin t txid \<Longrightarrow> reclaimed_coin B C k" "contract_gone B C coin \<Longrightarrow> reclaimed_coin B C k" for txid
      by (auto simp: reclaimed_coin_def)
    obtain resolved discarded where acc: "acc = (resolved, discarded)" by (cases acc)
    show "act_valid (?I acc) (recover_one B W C fee_rate acc x) ?I ?E"
      unfolding x(1) acc
      by (rule act_valid_pure, rule act_valid_conseq [OF recover_one_sat [where K = K, OF assms(1,2)]]) (use gone assms(4) in auto)
  qed auto
  have delete: "K inc (snd (fold (discard_coin B) ks (txids, og)))" if "K inc og" "\<forall>k \<in> set ks. reclaimed_coin B C k" for ks inc txids og
    using that by (induction ks arbitrary: txids og) (auto simp: discard_coin_def assms(4))
  have recorded: "act_inv (coins_sat K) (record_recovery B W (resolved, discarded))" if "\<forall>k \<in> set discarded. reclaimed_coin B C k" for resolved discarded
    unfolding act_inv_iff
    using delete [OF _ that] by (auto simp: record_recovery_def act_bind_def guard_def get_store_def upd_store_def act_get_def act_ensure_def
      act_lift_def ensure_def act_upd_def act_ret_def on_w_def save_to_disk_def wallet_is_def split_def)
  have sync: "act_inv (coins_sat K) (wr_sync_and_save W)" by (rule coins_inv) (use assms(1) in \<open>simp add: keeps_coins_def\<close>)
  have run: "act_valid (coins_sat K) (act_bind (act_foldM (recover_one B W C fee_rate) ([], []) sel) (record_recovery B W)) (\<lambda>_. coins_sat K) ?E"
    if "\<forall>(k, coin, t) \<in> set sel. b_txid B (og_contract_tx coin) = k" for sel
  proof (rule act_valid_bind [OF fold [OF that]])
    show "act_valid (?I acc) (record_recovery B W acc) (\<lambda>_. coins_sat K) ?E" for acc
      by (rule act_valid_pure) (use recorded in \<open>cases acc, simp add: act_inv_def\<close>)
  qed
  have cand: "b_txid B (og_contract_tx coin) = k" if "K (ws_incoming s) (ws_outgoing s)" "(k, coin, t) \<in> set (recovery_candidates B s)" for s k coin t
    using assms(3) [OF that(1)] that(2) by (auto simp: recovery_candidates_def keyed_def map_filter_def split: if_splits)
  show ?thesis
    unfolding recover_timelocked_swapcoins_def act_inv_def Let_def
    by (intro act_valid_bind_inv [OF guard_keeps get_store_valid])
      (auto intro!: act_valid_ret act_valid_bind_inv [OF sync] act_valid_bind_inv [OF on_chain_keeps] run dest: cand)
qed

text \<open>
  The ledger of one recovery: every coin of the two tables at its start is still there, or was swept or
  reclaimed, or is an outgoing coin of the swap given up after one of the swap's incoming coins was swept.
\<close>

definition accounted :: "'c recovery_env \<Rightarrow> txid list \<Rightarrow> txid list \<Rightarrow> wallet_store \<Rightarrow> coins_pred" where
  "accounted E own_inc own_og s0 inc og \<longleftrightarrow> keyed (re_lib E) inc og
     \<and> (\<forall>k \<in> fst ` set (ws_incoming s0). k \<in> fst ` set inc \<or> swept_coin (re_lib E) (re_wallet E) (re_chain E) k)
     \<and> (\<forall>k \<in> fst ` set (ws_outgoing s0). k \<in> fst ` set og \<or> reclaimed_coin (re_lib E) (re_chain E) k
          \<or> k \<in> set own_og \<and> (\<exists>j \<in> set own_inc. swept_coin (re_lib E) (re_wallet E) (re_chain E) j))"

lemma dom_delete: "fst ` set (AList.delete k m) = fst ` set m - {k}"
  by (force simp: AList.delete_eq)

lemma set_update_subset: "set (AList.update k v m) \<subseteq> insert (k, v) (set m)"
  by (induction m) auto

lemma strip_keys: "fst ` set (strip_address og) = fst ` set og"
  by (simp add: strip_address_def image_image split_def)

lemma accounted_keyed: "accounted E own_inc own_og s0 inc og \<Longrightarrow> keyed (re_lib E) inc og"
  by (simp add: accounted_def)

lemma accounted_strip: "accounted E own_inc own_og s0 inc (strip_address og) \<longleftrightarrow> accounted E own_inc own_og s0 inc og"
proof -
  have "keyed B inc (strip_address og) \<longleftrightarrow> keyed B inc og" for B by (auto simp: keyed_def strip_address_def)
  then show ?thesis by (simp add: accounted_def strip_keys)
qed

lemma keyed_delete: "keyed B inc og \<Longrightarrow> keyed B (AList.delete k inc) og" "keyed B inc og \<Longrightarrow> keyed B inc (AList.delete k og)"
  by (auto simp: keyed_def AList.delete_eq)

lemma accounted_sweep:
  "accounted E own_inc own_og s0 inc og \<Longrightarrow> swept_coin (re_lib E) (re_wallet E) (re_chain E) k
    \<Longrightarrow> accounted E own_inc own_og s0 (AList.delete k inc) og"
  by (auto simp: accounted_def keyed_delete dom_delete)

lemma accounted_release:
  "accounted E own_inc own_og s0 inc og \<Longrightarrow> reclaimed_coin (re_lib E) (re_chain E) k
      \<or> k \<in> set own_og \<and> (\<exists>j \<in> set own_inc. swept_coin (re_lib E) (re_wallet E) (re_chain E) j)
    \<Longrightarrow> accounted E own_inc own_og s0 inc (AList.delete k og)"
  by (auto simp: accounted_def keyed_delete dom_delete)

lemma accounted_release_all:
  assumes "accounted E own_inc own_og s0 (ws_incoming s) (ws_outgoing s)" "set ks \<subseteq> set own_og"
    "\<exists>j \<in> set own_inc. swept_coin (re_lib E) (re_wallet E) (re_chain E) j"
  shows "accounted E own_inc own_og s0 (ws_incoming (fold remove_outgoing_swapcoin ks s)) (ws_outgoing (fold remove_outgoing_swapcoin ks s))"
  using assms(1,2) by (induction ks arbitrary: s) (simp_all add: remove_outgoing_swapcoin_def accounted_release assms(3))

lemma accounted_preimage:
  assumes "accounted E own_inc own_og s0 (ws_incoming s) (ws_outgoing s)"
  shows "accounted E own_inc own_og s0 (ws_incoming (apply_preimage (re_lib E) preimages coin s)) (ws_outgoing (apply_preimage (re_lib E) preimages coin s))"
proof (cases "apply_preimage (re_lib E) preimages coin s = s")
  case False
  then obtain p k old where k: "apply_preimage (re_lib E) preimages coin s
      = s\<lparr>ws_incoming := AList.update k (if inc_hash_preimage old = None then inc_set_preimage p old else old) (ws_incoming s)\<rparr>"
    "map_of (ws_incoming s) k = Some old"
    by (auto simp: apply_preimage_def find_incoming_swapcoin_mut_def split: option.splits)
  have "b_txid (re_lib E) (inc_contract_tx old) = k"
    using accounted_keyed [OF assms] map_of_SomeD [OF k(2)] by (auto simp: keyed_def)
  then have "keyed (re_lib E) (ws_incoming (apply_preimage (re_lib E) preimages coin s)) (ws_outgoing s)"
    using accounted_keyed [OF assms] by (auto simp: k keyed_def inc_set_preimage_def dest!: subsetD [OF set_update_subset])
  then show ?thesis using assms by (auto simp: accounted_def k dom_update)
qed (use assms in simp)

lemma check_keeps:
  "act_inv (funds_sat (accounted E own_inc own_og s0)) (check_for_preimage E og inc)"
proof -
  have fold: "accounted E own_inc own_og s0 (ws_incoming (fold (apply_preimage (re_lib E) preimages) coins s))
      (ws_outgoing (fold (apply_preimage (re_lib E) preimages) coins s))"
    if "accounted E own_inc own_og s0 (ws_incoming s) (ws_outgoing s)" for preimages coins s
    using that by (induction coins arbitrary: s) (simp_all add: accounted_preimage)
  show ?thesis
    unfolding check_for_preimage_def collect_preimages_def contract_spend_def
    by (auto intro!: hoare_intros upd_store_inv coins_inv [OF save_keeps] fold split: prod.splits)
qed

lemma hashlock_keeps:
  assumes "keeps_coins (re_wallet E)"
  shows "act_inv (funds_sat (accounted E (incoming_keys (re_lib E) inc) (outgoing_keys (re_lib E) og) s0)) (hashlock_path E i inc og)"
    (is "act_inv (funds_sat ?K) _")
proof -
  have sync: "act_inv (coins_sat ?K) (wr_sync_and_save (re_wallet E))" by (rule coins_inv) (use assms in \<open>simp add: keeps_coins_def\<close>)
  note sweep = on_funds_valid [OF sweep_sat [OF assms, where K = ?K]]
  have release: "act_inv (funds_sat ?K) (act_seq (track E i (\<lambda>r. r\<lparr>mr_recovery := (mr_recovery r)\<lparr>rs_incoming_swept := map snd (ro_resolved swept), rs_phase := HashlockRecovered\<rparr>\<rparr>)) (
       act_seq (lock_funds E) (
       act_seq (on_funds (upd_store (fold remove_outgoing_swapcoin (outgoing_keys (re_lib E) og)))) (
       act_seq (on_funds (on_w save_to_disk)) (
       act_seq (track E i (\<lambda>r. set_recovery CleanedUp (r\<lparr>mr_phase := Recovered\<rparr>))) (
       act_ret True))))))"
    if "\<exists>j \<in> set (incoming_keys (re_lib E) inc). swept_coin (re_lib E) (re_wallet E) (re_chain E) j" for swept
    by (intro hoare_intros upd_store_inv coins_inv [OF save_keeps] accounted_release_all) (use that in auto)
  show ?thesis
    unfolding hashlock_path_def act_inv_def
    by (intro act_valid_bind_inv [OF lock_inv] act_valid_bind_inv [OF on_funds_inv [OF sync]] act_valid_bind [OF sweep] act_valid_pure)
      (use release in \<open>auto simp: act_inv_def intro: accounted_keyed accounted_sweep act_valid_ret\<close>)
qed

lemma timelock_keeps:
  assumes "keeps_coins (re_wallet E)"
  shows "act_inv (funds_sat (accounted E own_inc own_og s0)) (timelock_path E i inc og txids)"
proof -
  have "act_inv (coins_sat (accounted E own_inc own_og s0)) (recover_timelocked_swapcoins (re_lib E) (re_wallet E) (re_chain E) fee)" for fee
    by (rule recover_sat [OF assms]) (auto intro: accounted_keyed accounted_release simp: accounted_strip)
  then show ?thesis
    unfolding timelock_path_def all_swap_contracts_resolved_def Let_def by (intro hoare_intros)
qed

lemma pass_keeps:
  assumes "keeps_coins (re_wallet E)"
  shows "act_inv (funds_sat (accounted E (incoming_keys (re_lib E) inc) (outgoing_keys (re_lib E) og) s0)) (recover_pass E i expiry inc og txids)"
  unfolding recover_pass_def Let_def
  by (intro hoare_intros check_keeps hashlock_keeps timelock_keeps assms) (auto split: prod.splits intro!: hoare_intros)

lemma loop_keeps:
  assumes "keeps_coins (re_wallet E)"
  shows "act_inv (funds_sat (accounted E (incoming_keys (re_lib E) inc) (outgoing_keys (re_lib E) og) s0)) (recover_loop fuel E i expiry inc og txids)"
  by (induction fuel arbitrary: txids) (auto intro!: hoare_intros pass_keeps assms split: prod.splits)


section \<open>A revealed preimage is used\<close>

text \<open>The watcher and the backend answer, both with the spend of each output.\<close>

definition answers :: "'c recovery_env \<Rightarrow> (outpoint \<Rightarrow> transaction option) \<Rightarrow> bool" where
  "answers E spent \<longleftrightarrow> (\<forall>op spk c. fst (re_watch_request E op c) = Inr (UtxoSpent op (spent op))
     \<and> fst (ch_spending_transaction (re_chain E) op spk c) = Inr (spent op))"

definition spend_inputs :: "(outpoint \<Rightarrow> transaction option) \<Rightarrow> (outpoint \<times> script) list \<Rightarrow> txin list" where
  "spend_inputs spent watches = concat (map (\<lambda>(op, _). case spent op of None \<Rightarrow> [] | Some tx \<Rightarrow> tx_input tx) watches)"

abbreviation swap_watches :: "btc \<Rightarrow> outgoing_swapcoin list \<Rightarrow> (outpoint \<times> script) list" where
  "swap_watches B og \<equiv> concat (map (contract_watches B \<circ> og_contract_tx) og)"

lemma contract_spend_answered:
  assumes "answers E spent"
  shows "\<exists>c. contract_spend E direct (op, spk) s = (Inr (spent op), s\<lparr>rc_chain := c\<rparr>)"
proof -
  obtain r1 c1 r2 c2 where runs: "re_watch_request E op (rc_chain s) = (r1, c1)" "ch_spending_transaction (re_chain E) op spk (rc_chain s) = (r2, c2)"
    by fastforce
  moreover have "r1 = Inr (UtxoSpent op (spent op))" "r2 = Inr (spent op)"
    using assms runs unfolding answers_def by (metis fst_conv)+
  ultimately show ?thesis by (auto simp: contract_spend_def on_net_def act_bind_def act_ret_def)
qed

lemma collect_answered:
  assumes "answers E spent"
  shows "\<exists>c. act_foldM (\<lambda>acc watch. act_bind (contract_spend E direct watch) (\<lambda>spending_tx.
         act_ret (case spending_tx of None \<Rightarrow> acc | Some tx \<Rightarrow> fold extract_preimage (tx_input tx) acc))) acc watches s
    = (Inr (fold extract_preimage (spend_inputs spent watches) acc), s\<lparr>rc_chain := c\<rparr>)"
proof (induction watches arbitrary: acc s)
  case Nil
  then show ?case by (auto simp: act_ret_def spend_inputs_def intro: exI [of _ "rc_chain s"])
next
  case (Cons w watches)
  obtain op spk where w: "w = (op, spk)" by (cases w)
  obtain c where "contract_spend E direct (op, spk) s = (Inr (spent op), s\<lparr>rc_chain := c\<rparr>)"
    using contract_spend_answered [OF assms] by blast
  then show ?case
    using Cons.IH [of "case spent op of None \<Rightarrow> acc | Some tx \<Rightarrow> fold extract_preimage (tx_input tx) acc" "s\<lparr>rc_chain := c\<rparr>"]
    by (auto simp: w act_bind_def act_ret_def spend_inputs_def split: option.splits)
qed

lemma extract_finds:
  assumes "input \<in> set inputs" "2 \<le> length (ti_witness input)" "length (ti_witness input ! 1) = 32"
    "\<forall>j \<in> set inputs. ti_prev j = ti_prev input \<longrightarrow> ti_witness j = ti_witness input" "ti_prev input \<notin> set seen"
  shows "ti_witness input ! 1 \<in> set (snd (fold extract_preimage inputs (seen, preimages)))"
proof -
  have step: "set (snd acc) \<subseteq> set (snd (extract_preimage i acc))" for i acc by (auto simp: extract_preimage_def split: prod.splits)
  have keep: "set (snd acc) \<subseteq> set (snd (fold extract_preimage inputs acc))" for inputs acc
  proof (induction inputs arbitrary: acc)
    case (Cons i inputs)
    from subset_trans [OF step [of acc i] Cons.IH] show ?case by simp
  qed simp
  show ?thesis
    using assms(1,4,5)
  proof (induction inputs arbitrary: seen preimages)
    case (Cons j inputs)
    show ?case
    proof (cases "ti_prev j = ti_prev input")
      case True
      with Cons.prems assms(2,3) have "extract_preimage j (seen, preimages) = (ti_prev j # seen, preimages @ [ti_witness input ! 1])"
        by (auto simp: extract_preimage_def MIN_WITNESS_ITEM_FOR_HASHLOCK_def PREIMAGE_LEN_def)
      then show ?thesis using keep [of "(ti_prev j # seen, preimages @ [ti_witness input ! 1])" inputs] by simp
    next
      case False
      obtain seen' ps' where x: "extract_preimage j (seen, preimages) = (seen', ps')" by (cases "extract_preimage j (seen, preimages)")
      then have seen: "set seen' \<subseteq> insert (ti_prev j) (set seen)" by (auto simp: extract_preimage_def split: if_splits)
      have "ti_witness input ! 1 \<in> set (snd (fold extract_preimage inputs (seen', ps')))"
        using Cons.prems False seen by (intro Cons.IH) auto
      with x show ?thesis by simp
    qed
  qed simp
qed

lemma extract_length:
  "\<forall>p \<in> set preimages. length p = 32 \<Longrightarrow> \<forall>p \<in> set (snd (fold extract_preimage inputs (seen, preimages))). length p = 32"
proof (induction inputs arbitrary: seen preimages)
  case (Cons i inputs)
  have "\<forall>p \<in> set (snd (extract_preimage i (seen, preimages))). length p = 32"
    using Cons.prems by (auto simp: extract_preimage_def PREIMAGE_LEN_def)
  from Cons.IH [OF this, of "fst (extract_preimage i (seen, preimages))"] show ?case by simp
qed simp

lemma find_member: "find P xs = Some x \<Longrightarrow> x \<in> set xs \<and> P x"
  by (auto simp: find_Some_iff)

text \<open>What the preimages do to the coin stored under a key: nothing, or they set one that opens a coin with this key.\<close>

definition opened_by :: "btc \<Rightarrow> preimage list \<Rightarrow> incoming_swapcoin list \<Rightarrow> txid \<Rightarrow> preimage \<Rightarrow> bool" where
  "opened_by B preimages coins k p \<longleftrightarrow> p \<in> set preimages \<and> (\<exists>i \<in> set coins. b_txid B (inc_contract_tx i) = k \<and> preimage_matches B i p)"

lemma apply_one:
  assumes "map_of (ws_incoming s) k = Some coin"
  obtains coin' where "map_of (ws_incoming (apply_preimage B preimages i s)) k = Some coin'"
    "coin' = coin \<or> (\<exists>p. coin' = coin\<lparr>inc_hash_preimage := Some p\<rparr> \<and> opened_by B preimages [i] k p)"
    "\<forall>p. opened_by B preimages [i] k p \<longrightarrow> inc_hash_preimage coin' \<noteq> None"
    "inc_hash_preimage coin \<noteq> None \<longrightarrow> coin' = coin"
proof (cases "find (preimage_matches B i) preimages")
  case None
  then have "\<not> opened_by B preimages [i] k p" for p by (auto simp: opened_by_def find_None_iff)
  with None assms that show ?thesis by (simp add: apply_preimage_def)
next
  case (Some p)
  with find_member [OF Some] assms show ?thesis
    by (intro that [of "if b_txid B (inc_contract_tx i) = k \<and> inc_hash_preimage coin = None then coin\<lparr>inc_hash_preimage := Some p\<rparr> else coin"])
      (auto simp: apply_preimage_def find_incoming_swapcoin_mut_def update_conv' inc_set_preimage_def opened_by_def split: option.splits)
qed

lemma opened_Cons: "opened_by B preimages (i # coins) k p \<longleftrightarrow> opened_by B preimages [i] k p \<or> opened_by B preimages coins k p"
  by (auto simp: opened_by_def)

lemma apply_coin:
  assumes "map_of (ws_incoming s) k = Some coin"
  shows "\<exists>coin'. map_of (ws_incoming (fold (apply_preimage B preimages) coins s)) k = Some coin'
    \<and> (coin' = coin \<or> (\<exists>p. coin' = coin\<lparr>inc_hash_preimage := Some p\<rparr> \<and> opened_by B preimages coins k p))
    \<and> ((\<exists>p. opened_by B preimages coins k p) \<longrightarrow> inc_hash_preimage coin' \<noteq> None)
    \<and> (inc_hash_preimage coin \<noteq> None \<longrightarrow> coin' = coin)"
  using assms
proof (induction coins arbitrary: s coin)
  case Nil
  then show ?case by (simp add: opened_by_def)
next
  case (Cons i coins)
  obtain coin1 where coin1: "map_of (ws_incoming (apply_preimage B preimages i s)) k = Some coin1"
    "coin1 = coin \<or> (\<exists>p. coin1 = coin\<lparr>inc_hash_preimage := Some p\<rparr> \<and> opened_by B preimages [i] k p)"
    "\<forall>p. opened_by B preimages [i] k p \<longrightarrow> inc_hash_preimage coin1 \<noteq> None" "inc_hash_preimage coin \<noteq> None \<longrightarrow> coin1 = coin"
    using apply_one [OF Cons.prems] by blast
  from Cons.IH [OF coin1(1)] obtain coin2 where
    coin2: "map_of (ws_incoming (fold (apply_preimage B preimages) coins (apply_preimage B preimages i s))) k = Some coin2"
    "coin2 = coin1 \<or> (\<exists>p. coin2 = coin1\<lparr>inc_hash_preimage := Some p\<rparr> \<and> opened_by B preimages coins k p)"
    "(\<exists>p. opened_by B preimages coins k p) \<longrightarrow> inc_hash_preimage coin2 \<noteq> None" "inc_hash_preimage coin1 \<noteq> None \<longrightarrow> coin2 = coin1"
    by blast
  have "coin2 = coin \<or> (\<exists>p. coin2 = coin\<lparr>inc_hash_preimage := Some p\<rparr> \<and> opened_by B preimages (i # coins) k p)"
    using coin1(2) coin2(2) by (auto simp: opened_Cons [of B preimages i coins k])
  moreover have "(\<exists>p. opened_by B preimages (i # coins) k p) \<longrightarrow> inc_hash_preimage coin2 \<noteq> None"
    using coin1(3) coin2(3,4) by (auto simp: opened_Cons [of B preimages i coins k])
  moreover have "inc_hash_preimage coin \<noteq> None \<longrightarrow> coin2 = coin" using coin1(4) coin2(4) by auto
  moreover have "map_of (ws_incoming (fold (apply_preimage B preimages) (i # coins) s)) k = Some coin2" using coin2(1) by simp
  ultimately show ?case by blast
qed

text \<open>
  C26. A revealed preimage is used. Let the watcher, or the backend in its place, report the spends of the outgoing contract outputs, and let one of these
  spends carry a 32-byte second witness item that opens the hashlock of an incoming coin in the wallet. When the check succeeds, the
  wallet's coin has a preimage that opens a coin under its contract, an earlier preimage is kept, nothing else of the coin changes, and the wallet is on disk.
\<close>

theorem revealed_preimage_applied:
  assumes "answers E spent" "check_for_preimage E og inc s = (Inr (), s')"
    and reveal: "(op, spk) \<in> set (swap_watches (re_lib E) og)" "spent op = Some tx" "input \<in> set (tx_input tx)" "2 \<le> length (ti_witness input)"
      "length (ti_witness input ! 1) = 32"
      "\<forall>j \<in> set (spend_inputs spent (swap_watches (re_lib E) og)). ti_prev j = ti_prev input \<longrightarrow> ti_witness j = ti_witness input"
    and opens: "i \<in> set inc" "b_txid (re_lib E) (inc_contract_tx i) = k" "preimage_matches (re_lib E) i (ti_witness input ! 1)"
      "map_of (ws_incoming (w_store (rc_wallet s))) k = Some coin"
  shows "\<exists>p. map_of (ws_incoming (w_store (rc_wallet s'))) k = Some (coin\<lparr>inc_hash_preimage := Some p\<rparr>)
    \<and> (inc_hash_preimage coin = Some p \<or> inc_hash_preimage coin = None \<and> length p = 32
        \<and> (\<exists>j \<in> set inc. b_txid (re_lib E) (inc_contract_tx j) = k \<and> preimage_matches (re_lib E) j p))
    \<and> w_disk (rc_wallet s') = Some (w_store (rc_wallet s'))"
proof -
  define preimages where "preimages = snd (fold extract_preimage (spend_inputs spent (swap_watches (re_lib E) og)) ([], []))"
  have "input \<in> set (spend_inputs spent (swap_watches (re_lib E) og))"
    using reveal(1-3) unfolding spend_inputs_def by (auto intro!: bexI [of _ "(op, spk)"] split: option.splits)
  from extract_finds [OF this reveal(4,5,6), of "[]" "[]"] have p: "ti_witness input ! 1 \<in> set preimages" by (simp add: preimages_def)
  have len: "q \<in> set preimages \<Longrightarrow> length q = 32" for q using extract_length [of "[]"] by (auto simp: preimages_def)
  have w': "rc_wallet s' = (rc_wallet s)\<lparr>w_store := fold (apply_preimage (re_lib E) preimages) inc (w_store (rc_wallet s)),
      w_disk := Some (fold (apply_preimage (re_lib E) preimages) inc (w_store (rc_wallet s)))\<rparr>"
  proof -
    from assms(2) obtain s1 seen ps s2 where
      s1: "(if re_alive E (rc_chain s) then act_ret () else on_net (werr MWallet) (re_new_connection E)) s = (Inr (), s1)"
      and s2: "collect_preimages E (\<not> re_alive E (rc_chain s)) og s1 = (Inr (seen, ps), s2)"
      and rest: "(if ps = [] then act_ret () else act_seq (lock_funds E) (act_seq (on_funds (upd_store (fold (apply_preimage (re_lib E) ps) inc)))
         (on_funds (on_w save_to_disk)))) s2 = (Inr (), s')"
      by (auto simp: check_for_preimage_def lock_funds_def ask_def act_bind_Inr_iff act_get_iff act_ensure_Inr_iff)
    have "rc_wallet s1 = rc_wallet s" using s1 by (auto simp: act_ret_def on_net_def split: if_splits prod.splits)
    moreover have "ps = preimages \<and> rc_wallet s2 = rc_wallet s1"
      using collect_answered [OF assms(1), of "\<not> re_alive E (rc_chain s)" "([], [])" "swap_watches (re_lib E) og" s1] s2
      by (auto simp: collect_preimages_def preimages_def dest: arg_cong [of _ _ snd])
    moreover have "preimages \<noteq> []" using p by auto
    ultimately show ?thesis
      using rest by (auto simp: act_bind_Inr_iff lock_funds_def ask_def act_get_def act_ensure_def act_lift_def ensure_def on_funds_def upd_store_def
        act_upd_def on_w_def save_to_disk_def map_err_def split: if_splits)
  qed
  have "opened_by (re_lib E) preimages inc k (ti_witness input ! 1)" using opens p by (auto simp: opened_by_def)
  with apply_coin [OF opens(4), of "re_lib E" preimages inc] obtain coin' where
    coin': "map_of (ws_incoming (fold (apply_preimage (re_lib E) preimages) inc (w_store (rc_wallet s)))) k = Some coin'"
    "coin' = coin \<or> (\<exists>q. coin' = coin\<lparr>inc_hash_preimage := Some q\<rparr> \<and> opened_by (re_lib E) preimages inc k q)"
    "inc_hash_preimage coin' \<noteq> None" "inc_hash_preimage coin \<noteq> None \<longrightarrow> coin' = coin"
    by blast
  show ?thesis
  proof (cases "inc_hash_preimage coin")
    case (Some q)
    then have "coin\<lparr>inc_hash_preimage := Some q\<rparr> = coin" by simp
    with Some coin' w' show ?thesis by (intro exI [of _ q]) simp
  next
    case None
    with coin'(2,3) obtain q where "coin' = coin\<lparr>inc_hash_preimage := Some q\<rparr>" "opened_by (re_lib E) preimages inc k q" by auto
    with None coin'(1) w' len show ?thesis by (intro exI [of _ q]) (auto simp: opened_by_def)
  qed
qed

section \<open>Grouping after a restart\<close>

lemma group_of_update: "group_of (AList.update i g groups) j = (if j = i then g else group_of groups j)"
  by (simp add: group_of_def update_conv')

lemma group_some:
  "inc_swap_id c = Some i \<Longrightarrow> group_incoming groups c = Inr (AList.update i (fst (group_of groups i) @ [c], snd (group_of groups i)) groups)"
  "og_swap_id d = Some i \<Longrightarrow> group_outgoing groups d = Inr (AList.update i (fst (group_of groups i), snd (group_of groups i) @ [d]) groups)"
  by (simp_all add: group_incoming_def group_outgoing_def ok_or_def split_def)

lemma fold_incoming:
  "res_fold group_incoming groups coins = Inr groups' \<Longrightarrow> list_all (\<lambda>c. inc_swap_id c \<noteq> None) coins
     \<and> group_of groups' i = (fst (group_of groups i) @ filter (\<lambda>c. inc_swap_id c = Some i) coins, snd (group_of groups i))
     \<and> fst ` set groups' = fst ` set groups \<union> {i. \<exists>c \<in> set coins. inc_swap_id c = Some i}"
proof (induction coins arbitrary: groups)
  case (Cons c coins)
  then obtain i' where i': "inc_swap_id c = Some i'" by (auto simp: group_incoming_def res_simps ok_or_Inr_iff)
  with Cons.prems have "res_fold group_incoming (AList.update i' (fst (group_of groups i') @ [c], snd (group_of groups i')) groups) coins = Inr groups'"
    by (simp add: group_some)
  from Cons.IH [OF this] i' show ?case by (auto simp: group_of_update dom_update)
qed simp

lemma fold_outgoing:
  "res_fold group_outgoing groups coins = Inr groups' \<Longrightarrow> list_all (\<lambda>c. og_swap_id c \<noteq> None) coins
     \<and> group_of groups' i = (fst (group_of groups i), snd (group_of groups i) @ filter (\<lambda>c. og_swap_id c = Some i) coins)
     \<and> fst ` set groups' = fst ` set groups \<union> {i. \<exists>c \<in> set coins. og_swap_id c = Some i}"
proof (induction coins arbitrary: groups)
  case (Cons c coins)
  then obtain i' where i': "og_swap_id c = Some i'" by (auto simp: group_outgoing_def res_simps ok_or_Inr_iff)
  with Cons.prems have "res_fold group_outgoing (AList.update i' (fst (group_of groups i'), snd (group_of groups i') @ [c]) groups) coins = Inr groups'"
    by (simp add: group_some)
  from Cons.IH [OF this] i' show ?case by (auto simp: group_of_update dom_update)
qed simp

lemma fold_total:
  "list_all (\<lambda>c. inc_swap_id c \<noteq> None) inc \<Longrightarrow> \<exists>g. res_fold group_incoming groups inc = Inr g"
  "list_all (\<lambda>c. og_swap_id c \<noteq> None) out \<Longrightarrow> \<exists>g. res_fold group_outgoing groups out = Inr g"
proof -
  show "\<exists>g. res_fold group_incoming groups inc = Inr g" if "list_all (\<lambda>c. inc_swap_id c \<noteq> None) inc"
    using that by (induction inc arbitrary: groups) (auto simp: group_some)
  show "\<exists>g. res_fold group_outgoing groups out = Inr g" if "list_all (\<lambda>c. og_swap_id c \<noteq> None) out"
    using that by (induction out arbitrary: groups) (auto simp: group_some)
qed

lemma startup_groups_group:
  assumes "find_unfinished_swapcoins s = (inc, out)" "startup_groups s = Inr groups"
  shows "list_all (\<lambda>c. inc_swap_id c \<noteq> None) inc \<and> list_all (\<lambda>c. og_swap_id c \<noteq> None) out
      \<and> group_of groups i = (filter (\<lambda>c. inc_swap_id c = Some i) inc, filter (\<lambda>c. og_swap_id c = Some i) out)
      \<and> (i \<in> fst ` set groups \<longleftrightarrow> (\<exists>c \<in> set inc. inc_swap_id c = Some i) \<or> (\<exists>c \<in> set out. og_swap_id c = Some i))"
proof -
  from assms obtain g where g: "res_fold group_incoming [] inc = Inr g" "res_fold group_outgoing g out = Inr groups"
    by (auto simp: startup_groups_def res_simps)
  from fold_incoming [OF g(1), of i] fold_outgoing [OF g(2), of i] show ?thesis by (auto simp: group_of_def [of "[]"])
qed

text \<open>
  After a restart every unfinished coin goes to the recovery of its own swap. The grouping succeeds exactly when every unfinished coin has a
  swap id; then the group of a swap holds all its unfinished coins, in the wallet's order, and no other, and there is a group only for a swap
  that has such a coin.
\<close>

lemma startup_groups_exact:
  "case find_unfinished_swapcoins s of (inc, out) \<Rightarrow>
     ((\<exists>groups. startup_groups s = Inr groups) \<longleftrightarrow> list_all (\<lambda>c. inc_swap_id c \<noteq> None) inc \<and> list_all (\<lambda>c. og_swap_id c \<noteq> None) out)
     \<and> (\<forall>groups i. startup_groups s = Inr groups \<longrightarrow>
          group_of groups i = (filter (\<lambda>c. inc_swap_id c = Some i) inc, filter (\<lambda>c. og_swap_id c = Some i) out)
          \<and> (i \<in> fst ` set groups \<longleftrightarrow> (\<exists>c \<in> set inc. inc_swap_id c = Some i) \<or> (\<exists>c \<in> set out. og_swap_id c = Some i)))"
proof -
  obtain inc out where c: "find_unfinished_swapcoins s = (inc, out)" by (cases "find_unfinished_swapcoins s")
  have "\<exists>groups. startup_groups s = Inr groups" if ids: "list_all (\<lambda>c. inc_swap_id c \<noteq> None) inc" "list_all (\<lambda>c. og_swap_id c \<noteq> None) out"
  proof -
    obtain g where g: "res_fold group_incoming [] inc = Inr g" using fold_total(1) [OF ids(1)] by blast
    then show ?thesis using fold_total(2) [OF ids(2), of g] by (simp add: startup_groups_def c)
  qed
  then show ?thesis unfolding c prod.case using startup_groups_group [OF c] by blast
qed

section \<open>A partial sweep\<close>

lemma remove_all_outgoing:
  "fold remove_outgoing_swapcoin ks s = s\<lparr>ws_outgoing := filter (\<lambda>(k, _). k \<notin> set ks) (ws_outgoing s)\<rparr>"
proof (induction ks arbitrary: s)
  case (Cons k ks)
  then show ?case by (auto simp: remove_outgoing_swapcoin_def AList.delete_eq intro!: filter_cong arg_cong [of _ _ "\<lambda>x. s\<lparr>ws_outgoing := x\<rparr>"])
qed simp

lemma hashlock_finished:
  assumes "keeps_coins (re_wallet E)" "keyed (re_lib E) (ws_incoming (w_store (rc_wallet s))) (ws_outgoing (w_store (rc_wallet s)))"
    "hashlock_path E i inc og s = (Inr True, s')"
  shows "ws_outgoing (w_store (rc_wallet s'))
    = filter (\<lambda>(k, _). k \<notin> set (outgoing_keys (re_lib E) og)) (ws_outgoing (w_store (rc_wallet s)))"
proof -
  let ?K = "\<lambda>inc' og'. keyed (re_lib E) inc' og' \<and> og' = ws_outgoing (w_store (rc_wallet s))"
  have sync: "act_inv (coins_sat ?K) (wr_sync_and_save (re_wallet E))" by (rule coins_inv) (use assms(1) in \<open>simp add: keeps_coins_def\<close>)
  have sweep: "act_valid (funds_sat ?K) (on_funds (sweep_incoming_swapcoins (re_lib E) (re_wallet E) (re_chain E) fee (Some txids)))
      (\<lambda>x s. funds_sat ?K s \<and> (outcome_is_empty x \<or> (\<exists>k \<in> set txids. swept_coin (re_lib E) (re_wallet E) (re_chain E) k))) (\<lambda>_. funds_sat ?K)" for fee txids
    by (rule on_funds_valid, rule sweep_sat [where K = ?K, OF assms(1)]) (auto simp: keyed_delete)
  let ?K' = "\<lambda>inc' og'. og' = filter (\<lambda>(k, _). k \<notin> set (outgoing_keys (re_lib E) og)) (ws_outgoing (w_store (rc_wallet s)))"
  let ?Q = "\<lambda>b s. b \<longrightarrow> funds_sat ?K' s" and ?E = "\<lambda>_ _. True"
  have "act_valid (coins_sat ?K) (upd_store (fold remove_outgoing_swapcoin (outgoing_keys (re_lib E) og))) (\<lambda>u s. coins_sat ?K' s \<and> True) (\<lambda>_. coins_sat ?K')"
    by (auto simp: act_valid_def upd_store_def act_upd_def wallet_is_def remove_all_outgoing)
  note remove = act_valid_conseq [OF on_funds_valid [OF this], where E = ?E]
  have save: "act_valid (\<lambda>s. funds_sat ?K' s \<and> True) (act_seq (on_funds (on_w save_to_disk)) (act_seq (track E i f) (act_ret True))) ?Q ?E" for f
    by (rule act_valid_conseq [OF act_valid_of_inv [where I = "funds_sat ?K'"]]) (auto intro!: hoare_intros coins_inv [OF save_keeps])
  have release: "act_valid (funds_sat ?K) (act_seq (track E i f) (act_seq (lock_funds E) (
       act_seq (on_funds (upd_store (fold remove_outgoing_swapcoin (outgoing_keys (re_lib E) og)))) (
       act_seq (on_funds (on_w save_to_disk)) (act_seq (track E i g) (act_ret True)))))) ?Q ?E" for f g
    by (intro act_valid_bind_weak [OF track_inv] act_valid_bind_weak [OF lock_inv] act_valid_bind [OF remove save]) auto
  have sweeps: "act_inv (funds_sat ?K) (on_funds (sweep_incoming_swapcoins (re_lib E) (re_wallet E) (re_chain E) fee (Some txids)))" for fee txids
    unfolding act_inv_def by (rule act_valid_conseq [OF sweep]) auto
  have "act_valid (funds_sat ?K) (hashlock_path E i inc og) ?Q ?E"
    unfolding hashlock_path_def
    by (intro act_valid_bind_weak [OF lock_inv] act_valid_bind_weak [OF on_funds_inv [OF sync]] act_valid_bind_weak [OF sweeps])
      (auto intro!: act_valid_ret release)
  from act_valid_okD [OF this _ assms(3)] assms(2) show ?thesis by simp
qed

text \<open>
  C34. A partial sweep abandons the other coins. The hashlock path ends a recovery as soon as one incoming coin was swept: it drops every outgoing
  coin of the swap and ends the loop. An incoming coin of the swap that is still in the wallet then goes, after
  a restart, to a recovery without outgoing coins, which fails at once and changes nothing.
\<close>

theorem partial_sweep_abandons_coins:
  assumes "keeps_coins (re_wallet E)" "keyed (re_lib E) (ws_incoming (w_store (rc_wallet s))) (ws_outgoing (w_store (rc_wallet s)))"
    and own: "\<forall>(k, c) \<in> set (ws_outgoing (w_store (rc_wallet s))). og_swap_id c = Some i \<longrightarrow> k \<in> set (outgoing_keys (re_lib E) og)"
    and finished: "hashlock_path E i inc og s = (Inr True, s')"
    and left: "(k, coin) \<in> set (ws_incoming (w_store (rc_wallet s')))" "inc_swap_id coin = Some i" "inc_other_privkey coin = None"
    and restart: "startup_groups (w_store (rc_wallet s')) = Inr groups"
  shows "coin \<in> set (fst (group_of groups i))
    \<and> recover_from_swap fuel E' i (fst (group_of groups i)) (snd (group_of groups i)) t = (Inl (MGeneral ''missing timelock on outgoing swapcoin''), t)"
proof -
  let ?s = "w_store (rc_wallet s')"
  obtain inc' out where u: "find_unfinished_swapcoins ?s = (inc', out)" by (cases "find_unfinished_swapcoins ?s")
  from startup_groups_group [OF u restart] have g: "group_of groups i = (filter (\<lambda>c. inc_swap_id c = Some i) inc', filter (\<lambda>c. og_swap_id c = Some i) out)" by blast
  have "filter (\<lambda>c. og_swap_id c = Some i) out = []"
    using own u by (fastforce simp: find_unfinished_swapcoins_def hashlock_finished [OF assms(1,2) finished] filter_empty_conv)
  moreover have "coin \<in> set inc'" using left u by (force simp: find_unfinished_swapcoins_def)
  ultimately show ?thesis
    using left g by (simp add: recover_from_swap_def nth_opt_def act_lift_def ok_or_def act_bind_def)
qed

section \<open>Concrete runs\<close>

text \<open>A recovery thread with a watcher that has seen no spend, and the swap of a coin whose contract was never broadcast.\<close>

definition sample_renv :: "nat chain \<Rightarrow> nat recovery_env" where
  "sample_renv C = \<lparr>re_lib = sample_lib, re_wallet = sample_ext, re_chain = C, re_cbor = sample_cbor, re_alive = (\<lambda>_. True),
     re_watch_request = (\<lambda>op. act_ret (UtxoSpent op None)), re_new_connection = act_ret (), re_wait = (\<lambda>c. (True, c)),
     re_sleep = (\<lambda>c. c), re_now_secs = (\<lambda>_. 0), re_tracker_poisoned = (\<lambda>_. False)\<rparr>"

lemma sample_renv_fields [simp]:
  "re_lib (sample_renv C) = sample_lib" "re_wallet (sample_renv C) = sample_ext" "re_chain (sample_renv C) = C"
  "re_alive (sample_renv C) c" "re_watch_request (sample_renv C) op = act_ret (UtxoSpent op None)"
  "re_new_connection (sample_renv C) = act_ret ()" "\<not> re_tracker_poisoned (sample_renv C) c"
  by (simp_all add: sample_renv_def)

definition lost_key :: txid where "lost_key = b_txid sample_lib (og_contract_tx lost_coin)"

definition lost_recovery_state :: "nat recovery" where
  "lost_recovery_state = \<lparr>rc_wallet = lost_wallet lost_key, rc_chain = 0, rc_tracker = full_disk\<rparr>"

lemma track_unknown: "get_record i (rc_tracker s) = None \<Longrightarrow> track E i f s = (Inr (), s)"
  by (simp add: track_def act_upd_def update_tracker_def get_record_mut_def get_record_def)

lemma lock_sample [simp]: "lock_funds (sample_renv C) s = (Inr (), s)"
  by (simp add: lock_funds_def ask_def act_bind_def act_get_def act_ensure_def act_lift_def ensure_def sample_ext_fields)

lemma unspent_fold:
  "act_foldM (\<lambda>acc watch. act_bind (contract_spend (sample_renv C) False watch) (\<lambda>spending_tx.
     act_ret (case spending_tx of None \<Rightarrow> acc | Some tx \<Rightarrow> fold extract_preimage (tx_input tx) acc))) acc watches s = (Inr acc, s)"
  by (induction watches) (auto simp: contract_spend_def on_net_def act_bind_def act_ret_def split: prod.splits)

lemma check_unspent: "check_for_preimage (sample_renv C) og inc s = (Inr (), s)"
proof -
  have "collect_preimages (sample_renv C) False og s = (Inr ([], []), s)" by (simp only: collect_preimages_def unspent_fold)
  then show ?thesis by (simp add: check_for_preimage_def act_bind_def ask_def act_get_def act_ret_def)
qed

lemma unseen_fields: "ch_get_block_count unseen_chain c = (Inr 100, c)" "ch_get_tx_out unseen_chain t v None c = (Inr None, c)"
  by (simp_all add: unseen_chain_def stuck_chain_def act_ret_def)

lemma lost_timelock: "\<exists>s'. timelock_path (sample_renv unseen_chain) ''a'' [] [lost_coin] [] lost_recovery_state = (Inr (True, []), s')
    \<and> ws_outgoing (w_store (rc_wallet s')) = []"
proof -
  obtain c where run: "recover_timelocked_swapcoins sample_lib sample_ext unseen_chain (f64_of_nat MIN_FEE_RATE) (lost_wallet lost_key, 0)
    = (Inr \<lparr>ro_resolved = [], ro_discarded = [lost_key]\<rparr>, (lost_wallet lost_key\<lparr>w_store := empty_store, w_disk := Some empty_store\<rparr>, c))"
    using lost_recovery unfolding lost_key_def by blast
  have "get_record ''a'' full_disk = None" by (simp add: get_record_def full_disk_def)
  with run show ?thesis
    by (simp add: timelock_path_def act_bind_def track_unknown lost_recovery_state_def on_funds_def outcome_is_empty_def Let_def act_try_def
      all_swap_contracts_resolved_def on_net_def unseen_fields act_ret_def empty_store_def)
qed

lemma lost_run: "\<exists>s'. recover_from_swap 1 (sample_renv unseen_chain) ''a'' [] [lost_coin] lost_recovery_state = (Inr (Some ()), s')
    \<and> ws_outgoing (w_store (rc_wallet s')) = []"
proof -
  have "get_record ''a'' (rc_tracker lost_recovery_state) = None" by (simp add: get_record_def full_disk_def lost_recovery_state_def)
  moreover have "get_timelock sample_lib lost_coin = Some 50" by (simp add: lost_coin_def get_timelock_def og_new_taproot_def)
  moreover have "recover_pass (sample_renv unseen_chain) ''a'' 50 [] [lost_coin] [] s
      = act_bind (timelock_path (sample_renv unseen_chain) ''a'' [] [lost_coin] []) (\<lambda>(finished, txids).
           if finished then act_ret (True, txids)
           else act_seq (act_upd (\<lambda>s. s\<lparr>rc_chain := re_sleep (sample_renv unseen_chain) (rc_chain s)\<rparr>)) (act_ret (False, txids))) s" for s
    by (cases s) (simp add: recover_pass_def act_try_def check_unspent act_bind_def ask_def act_get_def sample_ext_fields get_store_def on_funds_def
      on_net_def unseen_fields act_ret_def)
  ultimately show ?thesis
    using lost_timelock
    by (auto simp: recover_from_swap_def act_bind_def act_lift_def ok_or_def nth_opt_def ask_def act_get_def on_net_def unseen_fields
      act_ensure_def ensure_def track_unknown sample_ext_fields act_ret_def)
qed


definition tagged_coin :: outgoing_swapcoin where
  "tagged_coin = lost_coin\<lparr>og_swap_id := Some ''a''\<rparr>"

lemma tagged_fields: "og_swap_id tagged_coin = Some ''a''" "og_hash_preimage tagged_coin = None" "og_contract_tx tagged_coin = og_contract_tx lost_coin"
  by (simp_all add: tagged_coin_def lost_coin_def og_new_taproot_def)

definition tagged_store :: wallet_store where
  "tagged_store = empty_store\<lparr>ws_outgoing := [(lost_key, tagged_coin)]\<rparr>"

lemma startup_groups_exact_witness:
  "\<exists>groups. startup_groups tagged_store = Inr groups \<and> group_of groups ''a'' = ([], [tagged_coin])"
proof -
  have "find_unfinished_swapcoins tagged_store = ([], [tagged_coin])"
    by (simp add: find_unfinished_swapcoins_def tagged_store_def empty_store_def tagged_fields)
  with startup_groups_exact [of tagged_store] show ?thesis by (auto simp: tagged_fields)
qed

text \<open>A watcher that has seen the hashlock spend of every output, and the coin its preimage opens.\<close>

definition revealing_tx :: transaction where
  "revealing_tx = \<lparr>tx_version = 2, tx_lock_time = 0,
     tx_input = [\<lparr>ti_prev = \<lparr>op_txid = lost_key, op_vout = 0\<rparr>, ti_sequence = 0, ti_witness = [[], replicate 32 7], ti_script_sig = []\<rparr>],
     tx_output = []\<rparr>"

definition revealing_env :: "nat recovery_env" where
  "revealing_env = (sample_renv (good_chain\<lparr>ch_spending_transaction := (\<lambda>_ _. act_ret (Some revealing_tx))\<rparr>))
     \<lparr>re_watch_request := (\<lambda>op. act_ret (UtxoSpent op (Some revealing_tx)))\<rparr>"

definition locked_coin :: incoming_swapcoin where
  "locked_coin = sample_coin\<lparr>inc_contract_redeemscript := None, inc_hashlock_script := Some ([0, 0] @ b_sha256 sample_lib (replicate 32 7)), inc_hash_preimage := None\<rparr>"

definition locked_key :: txid where "locked_key = b_txid sample_lib (inc_contract_tx locked_coin)"

definition locked_state :: "nat recovery" where
  "locked_state = \<lparr>rc_wallet = empty_wallet\<lparr>w_store := empty_store\<lparr>ws_incoming := [(locked_key, locked_coin)]\<rparr>\<rparr>, rc_chain = 0, rc_tracker = full_disk\<rparr>"

lemma revealing_answers: "answers revealing_env (\<lambda>_. Some revealing_tx)"
  by (simp add: answers_def revealing_env_def sample_renv_def act_ret_def)

lemma locked_matches: "preimage_matches sample_lib locked_coin (replicate 32 7)"
  by (simp add: preimage_matches_def locked_coin_def sample_lib_def fit_def)

lemma lost_watches: "(\<lparr>op_txid = lost_key, op_vout = 0\<rparr>, [8]) \<in> set (swap_watches sample_lib [lost_coin])"
  by (simp add: contract_watches_def lost_key_def lost_coin_def og_new_taproot_def)

lemma revealing_fields: "re_lib revealing_env = sample_lib" "re_wallet revealing_env = sample_ext" "re_alive revealing_env c"
  by (simp_all add: revealing_env_def sample_renv_def)

lemma lock_revealing: "lock_funds revealing_env s = (Inr (), s)"
  by (simp add: lock_funds_def ask_def act_bind_def act_get_def act_ensure_def act_lift_def ensure_def sample_ext_fields revealing_fields)

lemma locked_check: "\<exists>s'. check_for_preimage revealing_env [lost_coin] [locked_coin] locked_state = (Inr (), s')"
proof -
  obtain c where "collect_preimages revealing_env False [lost_coin] locked_state
      = (Inr (fold extract_preimage (spend_inputs (\<lambda>_. Some revealing_tx) (swap_watches sample_lib [lost_coin])) ([], [])), locked_state\<lparr>rc_chain := c\<rparr>)"
    using collect_answered [OF revealing_answers, of False "([], [])" "swap_watches sample_lib [lost_coin]" locked_state]
    by (auto simp: collect_preimages_def revealing_fields)
  then show ?thesis
    by (simp add: check_for_preimage_def act_bind_def lock_revealing ask_def act_get_def revealing_fields act_ret_def split_def
      on_funds_def upd_store_def act_upd_def on_w_def save_to_disk_def locked_state_def empty_wallet_def map_err_def)
qed

theorem revealed_preimage_applied_witness:
  "\<exists>s' p. check_for_preimage revealing_env [lost_coin] [locked_coin] locked_state = (Inr (), s')
    \<and> map_of (ws_incoming (w_store (rc_wallet s'))) locked_key = Some (locked_coin\<lparr>inc_hash_preimage := Some p\<rparr>)"
proof -
  obtain s' where s': "check_for_preimage revealing_env [lost_coin] [locked_coin] locked_state = (Inr (), s')" using locked_check by blast
  have input: "hd (tx_input revealing_tx) \<in> set (tx_input revealing_tx)" "ti_witness (hd (tx_input revealing_tx)) = [[], replicate 32 7]"
    by (simp_all add: revealing_tx_def)
  have only: "\<forall>j \<in> set (spend_inputs (\<lambda>_. Some revealing_tx) (swap_watches (re_lib revealing_env) [lost_coin])). j = hd (tx_input revealing_tx)"
    by (auto simp: spend_inputs_def revealing_tx_def)
  have "map_of (ws_incoming (w_store (rc_wallet locked_state))) locked_key = Some locked_coin" by (simp add: locked_state_def)
  with revealed_preimage_applied [OF revealing_answers s' lost_watches [folded revealing_fields(1)] refl input(1), of locked_coin locked_key locked_coin]
  show ?thesis
    using s' locked_matches only by (auto simp: input(2) revealing_fields locked_key_def)
qed

text \<open>Two incoming coins, one of which the chain lets the maker sweep.\<close>

definition dead_coin :: incoming_swapcoin where
  "dead_coin = paid_coin\<lparr>inc_other_privkey := None, inc_hash_preimage := Some [], inc_swap_id := Some ''a'',
     inc_contract_tx := \<lparr>tx_version = 2, tx_lock_time = 0, tx_input = [], tx_output = []\<rparr>\<rparr>"

definition paid_key :: txid where "paid_key = b_txid sample_lib (inc_contract_tx paid_coin)"
definition dead_key :: txid where "dead_key = b_txid sample_lib (inc_contract_tx dead_coin)"

definition pair_state :: "nat recovery" where
  "pair_state = \<lparr>rc_wallet = empty_wallet\<lparr>w_store := tagged_store\<lparr>ws_incoming := [(paid_key, paid_coin), (dead_key, dead_coin)]\<rparr>\<rparr>,
     rc_chain = 0, rc_tracker = full_disk\<rparr>"

lemma dead_fields: "inc_hash_preimage dead_coin = Some []" "inc_other_privkey dead_coin = None" "inc_swap_id dead_coin = Some ''a''"
  "spend_source sample_lib dead_coin = None" "inc_other_privkey paid_coin \<noteq> None"
  by (simp_all add: dead_coin_def paid_coin_def sample_coin_def inc_set_other_privkey_def inc_new_legacy_def spend_source_def nth_opt_def Let_def)

lemma pair_keys: "paid_key \<noteq> dead_key"
proof
  assume "paid_key = dead_key"
  then have "nth paid_key 0 = nth dead_key 0" by simp
  then show False
    by (simp add: paid_key_def dead_key_def dead_coin_def paid_coin_def sample_coin_def inc_set_other_privkey_def inc_new_legacy_def sample_lib_def fit_def Let_def)
qed

lemma pair_sweep: "\<exists>s'. hashlock_path (sample_renv good_chain) ''a'' [paid_coin, dead_coin] [tagged_coin] pair_state = (Inr True, s')
    \<and> w_store (rc_wallet s') = empty_store\<lparr>ws_incoming := [(dead_key, dead_coin)]\<rparr>"
proof -
  have dead: "sweep_one sample_lib sample_ext good_chain fee acc (k, dead_coin) s = (Inr acc, s)" for fee acc k s
    by (simp add: sweep_one_def dead_fields act_ret_def)
  have completed: "completed_swapcoins sample_lib (Some (incoming_keys sample_lib [paid_coin, dead_coin])) (w_store (rc_wallet pair_state))
      = [(paid_key, paid_coin), (dead_key, dead_coin)]"
    by (simp add: completed_swapcoins_def pair_state_def dead_fields incoming_keys_def)
  have "\<exists>c. sweep_incoming_swapcoins sample_lib sample_ext good_chain fee (Some (incoming_keys sample_lib [paid_coin, dead_coin])) (rc_wallet pair_state, 0)
      = (Inr \<lparr>ro_resolved = [(paid_key, [5])], ro_discarded = []\<rparr>,
         (empty_wallet\<lparr>w_store := tagged_store\<lparr>ws_incoming := [(dead_key, dead_coin)]\<rparr>, w_disk := Some (tagged_store\<lparr>ws_incoming := [(dead_key, dead_coin)]\<rparr>)\<rparr>, c))" for fee
    using pair_keys
    by (simp add: sweep_incoming_swapcoins_def act_bind_def guard_def get_store_def act_get_def act_ensure_def act_lift_def ensure_def
      sample_ext_fields completed paid_one dead act_ret_def on_w_def save_to_disk_def remove_incoming_swapcoin_def paid_key_def [symmetric])
      (simp add: pair_state_def empty_wallet_def)
  then obtain c where c: "sweep_incoming_swapcoins sample_lib sample_ext good_chain (f64_of_nat MIN_FEE_RATE) (Some (incoming_keys sample_lib [paid_coin, dead_coin])) (rc_wallet pair_state, 0)
      = (Inr \<lparr>ro_resolved = [(paid_key, [5])], ro_discarded = []\<rparr>,
         (empty_wallet\<lparr>w_store := tagged_store\<lparr>ws_incoming := [(dead_key, dead_coin)]\<rparr>, w_disk := Some (tagged_store\<lparr>ws_incoming := [(dead_key, dead_coin)]\<rparr>)\<rparr>, c))"
    by blast
  have state: "rc_chain pair_state = 0" "rc_tracker pair_state = full_disk" "get_record ''a'' full_disk = None" "outgoing_keys sample_lib [tagged_coin] = [lost_key]"
    by (simp_all add: pair_state_def get_record_def full_disk_def outgoing_keys_def tagged_fields lost_key_def)
  show ?thesis
    by (simp add: hashlock_path_def act_bind_def on_funds_def sample_ext_fields act_ret_def state c outcome_is_empty_def track_unknown
      upd_store_def act_upd_def on_w_def save_to_disk_def remove_outgoing_swapcoin_def empty_wallet_def tagged_store_def empty_store_def)
qed

theorem partial_sweep_abandons_coins_witness:
  "\<exists>s' groups. hashlock_path (sample_renv good_chain) ''a'' [paid_coin, dead_coin] [tagged_coin] pair_state = (Inr True, s')
    \<and> startup_groups (w_store (rc_wallet s')) = Inr groups
    \<and> fst (recover_from_swap 9 (sample_renv good_chain) ''a'' (fst (group_of groups ''a'')) (snd (group_of groups ''a'')) s')
      = Inl (MGeneral ''missing timelock on outgoing swapcoin'')"
proof -
  obtain s' where s': "hashlock_path (sample_renv good_chain) ''a'' [paid_coin, dead_coin] [tagged_coin] pair_state = (Inr True, s')"
    "w_store (rc_wallet s') = empty_store\<lparr>ws_incoming := [(dead_key, dead_coin)]\<rparr>" using pair_sweep by blast
  have groups: "startup_groups (w_store (rc_wallet s')) = Inr [(''a'', [dead_coin], [])]"
    by (simp add: s'(2) startup_groups_def find_unfinished_swapcoins_def dead_fields group_some group_of_def empty_store_def)
  have keyed: "keyed sample_lib (ws_incoming (w_store (rc_wallet pair_state))) (ws_outgoing (w_store (rc_wallet pair_state)))"
    by (simp add: keyed_def pair_state_def tagged_store_def paid_key_def dead_key_def lost_key_def tagged_fields)
  have own: "\<forall>(k, c) \<in> set (ws_outgoing (w_store (rc_wallet pair_state))). og_swap_id c = Some ''a'' \<longrightarrow> k \<in> set (outgoing_keys sample_lib [tagged_coin])"
    by (simp add: pair_state_def tagged_store_def outgoing_keys_def tagged_fields lost_key_def)
  have "(dead_key, dead_coin) \<in> set (ws_incoming (w_store (rc_wallet s')))" by (simp add: s'(2))
  from partial_sweep_abandons_coins [OF _ _ _ s'(1) this dead_fields(3,2) groups, of 9 "sample_renv good_chain" s'] s'(1) groups keyed own show ?thesis
    by (auto simp: sample_ext_keeps)
qed

end
