(* ===== verification/MakerIdle.thy ===== *)
theory MakerIdle
  imports MakerRecovery
begin

text \<open>
  The idle checker of \<open>maker/server.rs\<close>: one pass drains the stale swaps of the server, records each in the
  tracker and starts its recovery thread. The started threads are the list \<open>ic_started\<close>; whether the system starts a
  thread and whether the pool's lock is poisoned are parameters.
\<close>

type_synonym recovery_job = "swap_id \<times> incoming_swapcoin list \<times> outgoing_swapcoin list"

record 'x idle_checker =
  ic_server :: "'x server"
  ic_tracker :: tracker
  ic_started :: "recovery_job list"

record 'x idle_env =
  ie_world :: "'x world"
  ie_cbor :: cbor
  ie_now_secs :: "'x \<Rightarrow> nat"
  ie_tracker_poisoned :: "'x \<Rightarrow> bool"
  ie_spawn :: "swap_id \<Rightarrow> 'x \<Rightarrow> io_kind option"
  ie_pool_poisoned :: "'x \<Rightarrow> bool"

type_synonym ('x, 'a) iact = "('x idle_checker, maker_error, 'a) act"

definition on_server :: "('x, 'a) sact \<Rightarrow> ('x, 'a) iact" where
  "on_server f s = (case f (ic_server s) of (r, v) \<Rightarrow> (r, s\<lparr>ic_server := v\<rparr>))"

definition world_of :: "'x idle_checker \<Rightarrow> 'x" where
  "world_of s = sv_world (ic_server s)"

definition dropped_record :: "nat \<Rightarrow> idle_swap_data \<Rightarrow> maker_swap_record" where
  "dropped_record now idle = \<lparr>mr_swap_id = id_swap_id idle, mr_protocol = id_protocol idle, mr_phase = TakerDropped,
     mr_swap_amount_sat = id_swap_amount_sat idle, mr_incoming_count = length (id_incoming idle), mr_outgoing_count = length (id_outgoing idle),
     mr_funding_broadcast = id_funding_broadcast idle, mr_recovery = recovery_state_default, mr_created_at = now, mr_updated_at = now\<rparr>"

text \<open>A record that cannot be saved is only logged; the memory of the tracker has it nevertheless.\<close>

definition start_recovery :: "'x idle_env \<Rightarrow> idle_swap_data \<Rightarrow> ('x, unit) iact" where
  "start_recovery E idle =
     act_bind (act_get (\<lambda>s. dropped_record (ie_now_secs E (world_of s)) idle)) (\<lambda>record.
     act_bind (act_get (\<lambda>s. ie_tracker_poisoned E (world_of s))) (\<lambda>poisoned.
     act_seq (act_ensure (\<not> poisoned) MMutexPossion) (
     act_seq (act_upd (\<lambda>s. s\<lparr>ic_tracker := snd (save_record (ie_cbor E) record (ic_tracker s))\<rparr>)) (
     act_bind (act_get (\<lambda>s. ie_spawn E (id_swap_id idle) (world_of s))) (\<lambda>failed. case failed of
       Some e \<Rightarrow> act_fail (MIO e)
     | None \<Rightarrow>
         act_seq (act_upd (\<lambda>s. s\<lparr>ic_started := ic_started s @ [(id_swap_id idle, id_incoming idle, id_outgoing idle)]\<rparr>)) (
         act_bind (act_get (\<lambda>s. ie_pool_poisoned E (world_of s))) (\<lambda>poisoned.
         act_ensure (\<not> poisoned) (MGeneral ''thread pool lock poisoned''))))))))"

definition idle_pass :: "'x idle_env \<Rightarrow> ('x, unit) iact" where
  "idle_pass E =
     act_bind (on_server (drain_idle_swaps (ie_world E) (IDLE_CONNECTION_TIMEOUT * 1000))) (\<lambda>idle_swaps.
     act_iter (start_recovery E) idle_swaps)"

section \<open>Every stale swap is recovered\<close>

lemma save_record_data: "tk_data (snd (save_record S r t)) = AList.update (mr_swap_id r) r (tk_data t)"
proof -
  obtain x t' where run: "flush S (t\<lparr>tk_data := AList.update (mr_swap_id r) r (tk_data t)\<rparr>) = (x, t')"
    by (cases "flush S (t\<lparr>tk_data := AList.update (mr_swap_id r) r (tk_data t)\<rparr>)")
  with flush_run [OF run] show ?thesis by (simp add: save_record_def act_bind_def act_upd_def)
qed

lemma start_recovery_run:
  assumes "start_recovery E idle s = (Inr (), s')"
  shows "ic_server s' = ic_server s \<and> ic_started s' = ic_started s @ [(id_swap_id idle, id_incoming idle, id_outgoing idle)]
    \<and> tk_data (ic_tracker s') = AList.update (id_swap_id idle) (dropped_record (ie_now_secs E (world_of s)) idle) (tk_data (ic_tracker s))"
  using assms by (auto simp: start_recovery_def act_simps save_record_data dropped_record_def split: option.splits)

lemma start_all_run:
  assumes "act_iter (start_recovery E) idles s = (Inr (), s')"
  shows "ic_server s' = ic_server s
    \<and> ic_started s' = ic_started s @ map (\<lambda>d. (id_swap_id d, id_incoming d, id_outgoing d)) idles
    \<and> tk_data (ic_tracker s') = fold (\<lambda>d. AList.update (id_swap_id d) (dropped_record (ie_now_secs E (world_of s)) d)) idles (tk_data (ic_tracker s))"
  using assms
proof (induction idles arbitrary: s)
  case (Cons d idles)
  then obtain s1 where s1: "start_recovery E d s = (Inr (), s1)" "act_iter (start_recovery E) idles s1 = (Inr (), s')"
    by (auto simp: act_simps)
  from start_recovery_run [OF s1(1)] Cons.IH [OF s1(2)] show ?case by (simp add: world_of_def)
qed (auto simp: act_simps)

lemma fold_update_key:
  assumes "distinct (map f xs)" "x \<in> set xs"
  shows "map_of (fold (\<lambda>x. AList.update (f x) (g x)) xs m) (f x) = Some (g x)"
proof -
  have other: "f x \<notin> f ` set ys \<Longrightarrow> map_of (fold (\<lambda>x. AList.update (f x) (g x)) ys m) (f x) = map_of m (f x)" for ys m
    by (induction ys arbitrary: m) (auto simp: update_conv')
  show ?thesis
    using assms by (induction xs arbitrary: m) (auto simp: other update_conv')
qed


section \<open>A concrete pass\<close>

definition sample_idle_env :: "unit idle_env" where
  "sample_idle_env = \<lparr>ie_world = sample_world, ie_cbor = sample_cbor, ie_now_secs = (\<lambda>_. 7), ie_tracker_poisoned = (\<lambda>_. False),
     ie_spawn = (\<lambda>_ _. None), ie_pool_poisoned = (\<lambda>_. False)\<rparr>"

definition stale_checker :: "unit idle_checker" where
  "stale_checker = \<lparr>ic_server = sample_server\<lparr>sv_swaps := [(''s'', stale_swap)]\<rparr>, ic_tracker = full_disk, ic_started = []\<rparr>"

lemma stale_pass: "\<exists>s'. idle_pass sample_idle_env stale_checker = (Inr (), s')"
proof -
  obtain idle v where drain: "drain_idle_swaps sample_world (IDLE_CONNECTION_TIMEOUT * 1000) (sample_server\<lparr>sv_swaps := [(''s'', stale_swap)]\<rparr>) = (Inr idle, v)"
    by (simp add: drain_idle_swaps_def sv_get_current_height_def act_try_def act_bind_def lock_wallet_def lock_swaps_def on_world_def
        sample_world_ops act_ret_def act_get_def act_upd_def sample_server_def split_def)
  have one: "\<exists>s'. start_recovery sample_idle_env d s = (Inr (), s')" for d s
    by (simp add: start_recovery_def sample_idle_env_def act_bind_def act_get_def act_ensure_def act_lift_def ensure_def act_upd_def)
  have "\<exists>s'. act_iter (start_recovery sample_idle_env) ds s = (Inr (), s')" for ds s
  proof (induction ds arbitrary: s)
    case (Cons d ds)
    obtain s1 where "start_recovery sample_idle_env d s = (Inr (), s1)" using one by blast
    with Cons.IH [of s1] show ?case by (simp add: act_bind_def)
  qed (simp add: act_ret_def)
  with drain show ?thesis
    by (simp add: idle_pass_def act_bind_def on_server_def stale_checker_def sample_idle_env_def [THEN arg_cong [of _ _ ie_world]])
qed


end
