(* ===== verification/TakerTracker.thy ===== *)
theory TakerTracker
  imports MakerTracker
begin

text \<open>
  The taker's persistent swap records, \<open>taker/swap_tracker.rs\<close>: the phases of a swap and of its recovery,
  the per-maker milestones, and the table of records that is written to disk after every change, to a temporary
  file that is then renamed. The disk and its faults are those of the maker's tracker. \<open>serde_cbor\<close> is a
  pair of parameters, the clock of \<open>now_secs\<close> an argument.
\<close>

section \<open>Phases\<close>

datatype taker_swap_phase =
    MakersDiscovered | Negotiated | FundingCreated | FundsBroadcast | ContractsExchanged
  | Finalizing | PrivkeysForwarded | PhaseCompleted | Failed

primrec phase_rank :: "taker_swap_phase \<Rightarrow> nat" where
  "phase_rank MakersDiscovered = 0"
| "phase_rank Negotiated = 1"
| "phase_rank FundingCreated = 2"
| "phase_rank FundsBroadcast = 3"
| "phase_rank ContractsExchanged = 4"
| "phase_rank Finalizing = 5"
| "phase_rank PrivkeysForwarded = 6"
| "phase_rank PhaseCompleted = 7"
| "phase_rank Failed = 8"

instantiation taker_swap_phase :: linorder
begin

definition less_eq_taker_swap_phase :: "taker_swap_phase \<Rightarrow> taker_swap_phase \<Rightarrow> bool" where
  "p \<le> q \<longleftrightarrow> phase_rank p \<le> phase_rank q"

definition less_taker_swap_phase :: "taker_swap_phase \<Rightarrow> taker_swap_phase \<Rightarrow> bool" where
  "p < q \<longleftrightarrow> phase_rank p < phase_rank q"

instance
proof
  fix p q r :: taker_swap_phase
  show "p < q \<longleftrightarrow> p \<le> q \<and> \<not> q \<le> p" "p \<le> p" "p \<le> q \<or> q \<le> p"
    and "p \<le> q \<Longrightarrow> q \<le> r \<Longrightarrow> p \<le> r"
    by (auto simp: less_eq_taker_swap_phase_def less_taker_swap_phase_def)
  show "p \<le> q \<Longrightarrow> q \<le> p \<Longrightarrow> p = q"
    by (cases p; cases q) (simp_all add: less_eq_taker_swap_phase_def)
qed

end

lemma funds_broadcast_le_iff:
  "FundsBroadcast \<le> p \<longleftrightarrow> p \<noteq> MakersDiscovered \<and> p \<noteq> Negotiated \<and> p \<noteq> FundingCreated"
  by (cases p) (simp_all add: less_eq_taker_swap_phase_def)

datatype recovery_phase =
    RNotStarted | RPreimageStamped | RSwapcoinsPersisted | RIncomingRecovered | ROutgoingRecovered | RCleanedUp

primrec taker_recovery_rank :: "recovery_phase \<Rightarrow> nat" where
  "taker_recovery_rank RNotStarted = 0"
| "taker_recovery_rank RPreimageStamped = 1"
| "taker_recovery_rank RSwapcoinsPersisted = 2"
| "taker_recovery_rank RIncomingRecovered = 3"
| "taker_recovery_rank ROutgoingRecovered = 4"
| "taker_recovery_rank RCleanedUp = 5"

instantiation recovery_phase :: linorder
begin

definition less_eq_recovery_phase :: "recovery_phase \<Rightarrow> recovery_phase \<Rightarrow> bool" where
  "p \<le> q \<longleftrightarrow> taker_recovery_rank p \<le> taker_recovery_rank q"

definition less_recovery_phase :: "recovery_phase \<Rightarrow> recovery_phase \<Rightarrow> bool" where
  "p < q \<longleftrightarrow> taker_recovery_rank p < taker_recovery_rank q"

instance
proof
  fix p q r :: recovery_phase
  show "p < q \<longleftrightarrow> p \<le> q \<and> \<not> q \<le> p" "p \<le> p" "p \<le> q \<or> q \<le> p"
    and "p \<le> q \<Longrightarrow> q \<le> r \<Longrightarrow> p \<le> r"
    by (auto simp: less_eq_recovery_phase_def less_recovery_phase_def)
  show "p \<le> q \<Longrightarrow> q \<le> p \<Longrightarrow> p = q"
    by (cases p; cases q) (simp_all add: less_eq_recovery_phase_def)
qed

end

section \<open>Records\<close>

record legacy_exchange_progress =
  le_connected :: bool
  le_sender_sigs_requested :: bool
  le_sender_sigs_received :: bool
  le_prev_funding_broadcast :: bool
  le_prev_funding_confirmed :: bool
  le_proof_of_funding_sent :: bool
  le_maker_contracts_received :: bool
  le_next_maker_sigs_obtained :: bool
  le_prev_maker_sigs_obtained :: bool
  le_combined_sigs_sent :: bool
  le_maker_funding_confirmed :: bool
  le_watchonly_created :: bool

definition legacy_progress_default :: legacy_exchange_progress where
  "legacy_progress_default =
     \<lparr>le_connected = False, le_sender_sigs_requested = False, le_sender_sigs_received = False,
      le_prev_funding_broadcast = False, le_prev_funding_confirmed = False, le_proof_of_funding_sent = False,
      le_maker_contracts_received = False, le_next_maker_sigs_obtained = False, le_prev_maker_sigs_obtained = False,
      le_combined_sigs_sent = False, le_maker_funding_confirmed = False, le_watchonly_created = False\<rparr>"

record taproot_exchange_progress =
  te_connected :: bool
  te_contract_data_sent :: bool
  te_maker_contract_received :: bool
  te_swapcoins_created :: bool
  te_maker_funding_confirmed :: bool

definition taproot_progress_default :: taproot_exchange_progress where
  "taproot_progress_default =
     \<lparr>te_connected = False, te_contract_data_sent = False, te_maker_contract_received = False,
      te_swapcoins_created = False, te_maker_funding_confirmed = False\<rparr>"

datatype exchange_progress = LegacyProgress legacy_exchange_progress | TaprootProgress taproot_exchange_progress

record finalization_progress =
  fp_privkey_received :: bool
  fp_privkey_forwarded :: bool

definition finalization_default :: finalization_progress where
  "finalization_default = \<lparr>fp_privkey_received = False, fp_privkey_forwarded = False\<rparr>"

record maker_progress =
  mp_address :: string
  mp_negotiated :: bool
  mp_exchange :: exchange_progress
  mp_finalization :: finalization_progress

datatype contract_resolution = ByHashlock | ByTimelock | ByKeyPath | Discarded | Unresolved

record contract_outcome =
  co_contract_txid :: txid
  co_resolution :: contract_resolution
  co_spending_txid :: "txid option"

record recovery_state =
  trs_phase :: recovery_phase
  trs_incoming :: "contract_outcome list"
  trs_outgoing :: "contract_outcome list"
  trs_watchonly :: "contract_outcome list"

definition taker_recovery_default :: recovery_state where
  "taker_recovery_default = \<lparr>trs_phase = RNotStarted, trs_incoming = [], trs_outgoing = [], trs_watchonly = []\<rparr>"

record swap_record =
  sr_swap_id :: swap_id
  sr_preimage :: preimage
  sr_protocol :: protocol_version
  sr_send_amount_sat :: nat
  sr_maker_count :: nat
  sr_phase :: taker_swap_phase
  sr_failed_at_phase :: "taker_swap_phase option"
  sr_failure_reason :: "taker_error option"
  sr_makers :: "maker_progress list"
  sr_outgoing_contract_txids :: "txid list"
  sr_incoming_contract_txids :: "txid list"
  sr_watchonly_contract_txids :: "txid list"
  sr_recovery :: recovery_state
  sr_multisig_nonces :: "seckey list"
  sr_hashlock_nonces :: "seckey list"
  sr_payment_address :: "string option"
  sr_payment_amount_sat :: "nat option"
  sr_created_at :: nat
  sr_updated_at :: nat

section \<open>The tracker\<close>

type_synonym swap_tracker_data = "(swap_id \<times> swap_record) list"

record swap_tracker =
  st_data :: swap_tracker_data
  st_disk :: disk
  st_fault :: "fs_op \<Rightarrow> nat option"

type_synonym taker_cbor = "(swap_tracker_data \<Rightarrow> bytes option) \<times> (bytes \<Rightarrow> swap_tracker_data option)"

text \<open>A file that cannot be read or decoded counts as empty.\<close>

definition taker_load_data :: "taker_cbor \<Rightarrow> bool \<Rightarrow> disk \<Rightarrow> swap_tracker_data" where
  "taker_load_data S readable d = (case dk_file d of
     None \<Rightarrow> []
   | Some bytes \<Rightarrow> if readable then (case snd S bytes of None \<Rightarrow> [] | Some data \<Rightarrow> data) else [])"

definition taker_load_or_create :: "taker_cbor \<Rightarrow> bool \<Rightarrow> (fs_op \<Rightarrow> nat option) \<Rightarrow> disk \<Rightarrow> swap_tracker" where
  "taker_load_or_create S readable fault d = \<lparr>st_data = taker_load_data S readable d, st_disk = d, st_fault = fault\<rparr>"

definition taker_fs_do :: "fs_op \<Rightarrow> (swap_tracker, taker_error, unit) act" where
  "taker_fs_do op t = (case st_fault t op of
     None \<Rightarrow> (Inr (), t\<lparr>st_disk := fs_exec op (st_disk t)\<rparr>)
   | Some n \<Rightarrow> (Inl TIO, t\<lparr>st_disk := fs_partial n op (st_disk t)\<rparr>))"

definition taker_flush :: "taker_cbor \<Rightarrow> (swap_tracker, taker_error, unit) act" where
  "taker_flush S =
     act_seq (taker_fs_do CreateDir) (
     act_bind (act_get st_data) (\<lambda>data.
     act_bind (act_lift (ok_or (fst S data) (TGeneral ''Failed to serialize swap tracker''))) (\<lambda>bytes.
     act_seq (taker_fs_do (WriteTmp bytes)) (
     taker_fs_do RenameTmp))))"

definition taker_save_record :: "taker_cbor \<Rightarrow> swap_record \<Rightarrow> (swap_tracker, taker_error, unit) act" where
  "taker_save_record S record =
     act_seq (act_upd (\<lambda>t. t\<lparr>st_data := AList.update (sr_swap_id record) record (st_data t)\<rparr>)) (taker_flush S)"

definition taker_remove_record :: "taker_cbor \<Rightarrow> swap_id \<Rightarrow> (swap_tracker, taker_error, unit) act" where
  "taker_remove_record S swap_id =
     act_seq (act_upd (\<lambda>t. t\<lparr>st_data := AList.delete swap_id (st_data t)\<rparr>)) (taker_flush S)"

definition swap_incomplete :: "swap_record \<Rightarrow> bool" where
  "swap_incomplete r \<longleftrightarrow> sr_phase r \<noteq> PhaseCompleted \<and> \<not> (sr_phase r = Failed \<and> RCleanedUp \<le> trs_phase (sr_recovery r))"

definition taker_incomplete_swaps :: "swap_tracker \<Rightarrow> swap_record list" where
  "taker_incomplete_swaps t = filter swap_incomplete (map snd (st_data t))"

definition taker_get_record :: "swap_id \<Rightarrow> swap_tracker \<Rightarrow> swap_record option" where
  "taker_get_record swap_id t = map_of (st_data t) swap_id"

definition update_and_save ::
    "taker_cbor \<Rightarrow> nat \<Rightarrow> swap_id \<Rightarrow> (swap_record \<Rightarrow> swap_record) \<Rightarrow> (swap_tracker, taker_error, bool) act" where
  "update_and_save S now swap_id f =
     act_bind (act_get (taker_get_record swap_id)) (\<lambda>found. case found of
       None \<Rightarrow> act_ret False
     | Some record \<Rightarrow>
       (let cloned = (f record)\<lparr>sr_updated_at := now\<rparr> in
        act_seq (act_upd (\<lambda>t. t\<lparr>st_data := AList.update swap_id cloned (st_data t)\<rparr>)) (
        act_seq (taker_save_record S cloned) (
        act_ret True))))"

text \<open>The errors of the two writes are logged and dropped.\<close>

definition cleanup_one :: "taker_cbor \<Rightarrow> nat \<Rightarrow> swap_id \<Rightarrow> swap_tracker \<Rightarrow> swap_tracker" where
  "cleanup_one S now swap_id t = (case taker_get_record swap_id t of
     None \<Rightarrow> t
   | Some r \<Rightarrow>
     (if sr_phase r \<in> {MakersDiscovered, Negotiated, FundingCreated} then snd (taker_remove_record S swap_id t)
      else if sr_phase r = PhaseCompleted then t
      else snd (update_and_save S now swap_id (\<lambda>record. record\<lparr>sr_phase := Failed\<rparr>) t)))"

definition cleanup_incomplete :: "taker_cbor \<Rightarrow> nat \<Rightarrow> swap_tracker \<Rightarrow> swap_tracker" where
  "cleanup_incomplete S now t = fold (cleanup_one S now) (map sr_swap_id (taker_incomplete_swaps t)) t"


section \<open>What a cleanup keeps\<close>

text \<open>Every record is stored under its own id.\<close>

definition swap_tracker_ok :: "swap_tracker \<Rightarrow> bool" where
  "swap_tracker_ok t \<longleftrightarrow> keys_distinct (st_data t) \<and> (\<forall>(k, r) \<in> set (st_data t). sr_swap_id r = k)"

lemma taker_fs_do_data [simp]: "st_data (snd (taker_fs_do op t)) = st_data t"
  by (simp add: taker_fs_do_def split: option.splits)

lemma taker_flush_data [simp]: "st_data (snd (taker_flush S t)) = st_data t"
proof -
  have "act_inv (\<lambda>u. st_data u = st_data t) (taker_flush S)"
    unfolding taker_flush_def by (intro hoare_intros) (auto simp: act_inv_iff)
  then show ?thesis by (rule act_invD) simp
qed

lemma taker_save_record_data: "st_data (snd (taker_save_record S r t)) = AList.update (sr_swap_id r) r (st_data t)"
  by (simp add: taker_save_record_def act_bind_def act_upd_def)

lemma taker_remove_record_data: "st_data (snd (taker_remove_record S i t)) = AList.delete i (st_data t)"
  by (simp add: taker_remove_record_def act_bind_def act_upd_def)

lemma update_and_save_data:
  "st_data (snd (update_and_save S now i f t)) = (case map_of (st_data t) i of
     None \<Rightarrow> st_data t
   | Some r \<Rightarrow> let r' = (f r)\<lparr>sr_updated_at := now\<rparr> in AList.update (sr_swap_id r') r' (AList.update i r' (st_data t)))"
proof (cases "map_of (st_data t) i")
  case (Some r)
  define r' where "r' = (f r)\<lparr>sr_updated_at := now\<rparr>"
  define u where "u = t\<lparr>st_data := AList.update i r' (st_data t)\<rparr>"
  have "snd (update_and_save S now i f t) = snd (taker_save_record S r' u)"
    using Some by (simp add: update_and_save_def taker_get_record_def act_get_def act_bind_def act_upd_def act_ret_def r'_def u_def Let_def
        split: prod.splits sum.splits)
  with Some show ?thesis by (simp add: taker_save_record_data r'_def [symmetric] u_def Let_def)
qed (simp add: update_and_save_def taker_get_record_def act_get_def act_bind_def act_ret_def)

text \<open>The record a cleanup leaves in place of one it found.\<close>

definition cleaned :: "nat \<Rightarrow> swap_record \<Rightarrow> swap_record option" where
  "cleaned now r = (if sr_phase r < FundsBroadcast then None
     else if sr_phase r = PhaseCompleted then Some r else Some (r\<lparr>sr_phase := Failed, sr_updated_at := now\<rparr>))"

lemma early_phase_iff: "sr_phase r \<in> {MakersDiscovered, Negotiated, FundingCreated} \<longleftrightarrow> sr_phase r < FundsBroadcast"
  by (cases "sr_phase r") (simp_all add: less_taker_swap_phase_def)

lemma cleanup_one_lookup:
  assumes "swap_tracker_ok t"
  shows "map_of (st_data (cleanup_one S now i t)) j =
    (if j = i then Option.bind (map_of (st_data t) i) (cleaned now) else map_of (st_data t) j)"
    and "swap_tracker_ok (cleanup_one S now i t)"
proof -
  have id: "sr_swap_id r = i" if "map_of (st_data t) i = Some r" for r
    using assms that by (auto simp: swap_tracker_ok_def dest: map_of_SomeD)
  have data: "st_data (cleanup_one S now i t) = (case map_of (st_data t) i of None \<Rightarrow> st_data t
     | Some r \<Rightarrow> (case cleaned now r of None \<Rightarrow> AList.delete i (st_data t)
       | Some r' \<Rightarrow> if sr_phase r = PhaseCompleted then st_data t else AList.update i r' (AList.update i r' (st_data t))))"
    using id by (auto simp: cleanup_one_def taker_get_record_def early_phase_iff taker_remove_record_data update_and_save_data cleaned_def
        simp del: insert_iff split: option.splits)
  show "map_of (st_data (cleanup_one S now i t)) j =
    (if j = i then Option.bind (map_of (st_data t) i) (cleaned now) else map_of (st_data t) j)"
    unfolding data by (auto simp: cleaned_def delete_conv' update_conv' split: option.splits)
  have "(k, r') \<in> set (AList.update i x (AList.update i x (st_data t))) \<Longrightarrow> sr_swap_id x = i \<Longrightarrow> sr_swap_id r' = k" for k r' x
    using assms by (auto simp: swap_tracker_ok_def set_update_distinct keys_distinct_update)
  moreover have "cleaned now r = Some r' \<Longrightarrow> sr_swap_id r' = sr_swap_id r" for r r'
    by (auto simp: cleaned_def split: if_splits)
  ultimately show "swap_tracker_ok (cleanup_one S now i t)"
    using assms id unfolding swap_tracker_ok_def data
    by (auto simp: keys_distinct_update keys_distinct_filter AList.delete_eq split: option.splits)
qed

lemma cleanup_fold_lookup:
  assumes "swap_tracker_ok t" "distinct ids"
  shows "map_of (st_data (fold (cleanup_one S now) ids t)) j =
    (if j \<in> set ids then Option.bind (map_of (st_data t) j) (cleaned now) else map_of (st_data t) j)"
  using assms
proof (induction ids arbitrary: t)
  case (Cons i ids)
  then show ?case using cleanup_one_lookup [OF Cons.prems(1), of S now i] by auto
qed simp

lemma incomplete_ids:
  assumes "swap_tracker_ok t"
  shows "distinct (map sr_swap_id (taker_incomplete_swaps t))"
    and "j \<in> set (map sr_swap_id (taker_incomplete_swaps t)) \<longleftrightarrow> (\<exists>r. map_of (st_data t) j = Some r \<and> swap_incomplete r)"
proof -
  have ids: "map sr_swap_id (filter P (map snd data)) = map fst (filter (P \<circ> snd) data)"
    if "\<forall>(k, r) \<in> set data. sr_swap_id r = k" for P and data :: swap_tracker_data
    using that by (induction data) auto
  note eq = ids [of "st_data t" swap_incomplete]
  show "distinct (map sr_swap_id (taker_incomplete_swaps t))"
    using assms eq by (auto simp: swap_tracker_ok_def taker_incomplete_swaps_def keys_distinct_def intro: distinct_map_filter)
  show "j \<in> set (map sr_swap_id (taker_incomplete_swaps t)) \<longleftrightarrow> (\<exists>r. map_of (st_data t) j = Some r \<and> swap_incomplete r)"
    using assms eq by (auto simp: swap_tracker_ok_def taker_incomplete_swaps_def in_set_map_of [symmetric] image_iff)
qed


section \<open>Concrete runs\<close>

definition sample_swap_record :: "swap_id \<Rightarrow> taker_swap_phase \<Rightarrow> swap_record" where
  "sample_swap_record i p = \<lparr>sr_swap_id = i, sr_preimage = [1, 2], sr_protocol = Legacy, sr_send_amount_sat = 500000, sr_maker_count = 2,
     sr_phase = p, sr_failed_at_phase = None, sr_failure_reason = None, sr_makers = [], sr_outgoing_contract_txids = [[7]],
     sr_incoming_contract_txids = [], sr_watchonly_contract_txids = [], sr_recovery = taker_recovery_default, sr_multisig_nonces = [],
     sr_hashlock_nonces = [], sr_payment_address = None, sr_payment_amount_sat = None, sr_created_at = 1, sr_updated_at = 1\<rparr>"

definition sample_swap_tracker :: swap_tracker where
  "sample_swap_tracker = \<lparr>st_data = [(''a'', sample_swap_record ''a'' Negotiated), (''b'', sample_swap_record ''b'' ContractsExchanged)],
     st_disk = \<lparr>dk_file = None, dk_tmp = None\<rparr>, st_fault = (\<lambda>_. Some 0)\<rparr>"


end
