(* ===== verification/TakerTypes.thy ===== *)
theory TakerTypes
  imports TakerTracker
begin

text \<open>
  The state of the taker, \<open>taker/api.rs\<close>: the parameters and the progress of a swap, the makers of its route, and
  the client itself with its wallet and its tracker. What the client reaches through the operating system or another crate (the
  network, the block chain, the offer book thread, randomness, addresses, the clock) is the type \<open>'x\<close> with the operations
  of the record \<open>taker_env\<close>, an argument of every definition that needs it. Locks are not modelled: a poisoned lock is a panic elsewhere.
  The test-only behaviours (\<open>feature = "integration-test"\<close>) are left out and constants have their release values.
\<close>

section \<open>Constants\<close>

definition REFUND_LOCKTIME_BASE :: nat where "REFUND_LOCKTIME_BASE = 20"
definition FUNDING_FEE_BUFFER :: amount where "FUNDING_FEE_BUFFER = 10000"
definition MAX_FINALIZE_RETRIES :: nat where "MAX_FINALIZE_RETRIES = 3"
definition CONFIRMATION_HEIGHT_TOLERANCE :: nat where "CONFIRMATION_HEIGHT_TOLERANCE = 6"

text \<open>\<open>REFUND_LOCKTIME_BASE + REFUND_LOCKTIME_STEP * n as u16\<close>: the cast and both operators wrap in a release build.\<close>

definition locktime_for :: "nat \<Rightarrow> nat" where
  "locktime_for n = wrapping_add 16 REFUND_LOCKTIME_BASE (wrapping_mul 16 REFUND_LOCKTIME_STEP (n mod 2 ^ 16))"

lemma locktime_for_eq: "n \<le> 3000 \<Longrightarrow> locktime_for n = 20 + 20 * n"
  by (simp add: locktime_for_def wrapping_add_def wrapping_mul_def REFUND_LOCKTIME_BASE_def REFUND_LOCKTIME_STEP_def)

section \<open>Swap parameters and state\<close>

record swap_params =
  prm_protocol :: protocol_version
  prm_send_amount :: amount
  prm_maker_count :: nat
  prm_tx_count :: nat
  prm_required_confirms :: nat
  prm_manually_selected_outpoints :: "outpoint list option"
  prm_preferred_makers :: "string list option"
  prm_payment_address :: "string option"

definition swap_params_new :: "protocol_version \<Rightarrow> amount \<Rightarrow> nat \<Rightarrow> swap_params" where
  "swap_params_new protocol send_amount maker_count =
     \<lparr>prm_protocol = protocol, prm_send_amount = send_amount, prm_maker_count = maker_count, prm_tx_count = 1,
      prm_required_confirms = 1, prm_manually_selected_outpoints = None, prm_preferred_makers = None, prm_payment_address = None\<rparr>"

record payment_quote =
  pq_address :: string
  pq_amount :: amount
  pq_settlement_budget :: amount
  pq_taker_funding_fee_estimate :: amount

record maker_connection =
  mc_address :: string
  mc_protocol :: protocol_version
  mc_tweakable_point :: "public_key option"
  mc_offer :: "offer option"
  mc_negotiated_timelock :: nat
  mc_exchange :: exchange_progress
  mc_finalization :: finalization_progress

record ongoing_swap =
  os_id :: swap_id
  os_preimage :: preimage
  os_params :: swap_params
  os_makers :: "maker_connection list"
  os_outgoing :: "outgoing_swapcoin list"
  os_incoming :: "incoming_swapcoin list"
  os_watchonly :: "watch_only_swapcoin list"
  os_multisig_nonces :: "seckey list"
  os_hashlock_nonces :: "seckey list"
  os_spare_makers :: "string list"
  os_phase :: taker_swap_phase
  os_reference_height :: "nat option"
  os_payment :: "payment_quote option"

record maker_fee_info =
  mfi_address :: string
  mfi_protocol :: protocol_version
  mfi_base_fee :: nat
  mfi_amount_relative_fee_pct :: f64
  mfi_time_relative_fee_pct :: f64
  mfi_locktime :: nat
  mfi_estimated_fee_sats :: nat

record swap_summary =
  ss_swap_id :: swap_id
  ss_protocol :: protocol_version
  ss_send_amount :: amount
  ss_makers :: "maker_fee_info list"
  ss_total_estimated_fee :: amount
  ss_estimated_receive_amount :: amount
  ss_payment :: "payment_quote option"

section \<open>The client\<close>

record 'x taker =
  tr_wallet :: wallet
  tr_ongoing_swap :: "ongoing_swap option"
  tr_tracker :: swap_tracker
  tr_world :: 'x

type_synonym ('x, 'a) tact = "('x taker, taker_error, 'a) act"

text \<open>
  \<open>tv_connect\<close> opens and configures a stream, \<open>tv_send\<close> and \<open>tv_read\<close> move one decoded message over it;
  \<open>tv_fresh\<close> draws a secret key, \<open>tv_poll\<close> asks the offer book thread for one maker's offer, and
  \<open>tv_require_network\<close> checks an address against the wallet's network.
\<close>

record 'x taker_env =
  tv_connect :: "string \<Rightarrow> 'x \<Rightarrow> (taker_error + nat) \<times> 'x"
  tv_send :: "nat \<Rightarrow> taker_to_maker_message \<Rightarrow> 'x \<Rightarrow> (taker_error + unit) \<times> 'x"
  tv_read :: "nat \<Rightarrow> 'x \<Rightarrow> (taker_error + maker_to_taker_message) \<times> 'x"
  tv_fresh :: "'x \<Rightarrow> seckey \<times> 'x"
  tv_poll :: "string \<Rightarrow> 'x \<Rightarrow> (taker_error + offer option) \<times> 'x"
  tv_block_count :: "'x \<Rightarrow> (wallet_error + nat) \<times> 'x"
  tv_require_network :: "string \<Rightarrow> string option"
  tv_script_pubkey :: "string \<Rightarrow> script"
  tv_now_secs :: "'x \<Rightarrow> nat"
  tv_cbor :: taker_cbor

definition on_world :: "('x \<Rightarrow> (taker_error + 'a) \<times> 'x) \<Rightarrow> ('x, 'a) tact" where
  "on_world f s = (case f (tr_world s) of (r, x) \<Rightarrow> (r, s\<lparr>tr_world := x\<rparr>))"

text \<open>The \<open>From\<close> conversions; a panic stays a panic.\<close>

definition from_wallet_error :: "wallet_error \<Rightarrow> taker_error" where
  "from_wallet_error e = (if e = WPanic then TPanic else TWallet e)"

definition from_protocol_error :: "protocol_error \<Rightarrow> taker_error" where
  "from_protocol_error e = (if e = PPanic then TPanic else TWallet (WProtocol e))"

definition on_wallet :: "(wallet, wallet_error, 'a) act \<Rightarrow> ('x, 'a) tact" where
  "on_wallet m s = (case m (tr_wallet s) of (r, w) \<Rightarrow> (map_err from_wallet_error r, s\<lparr>tr_wallet := w\<rparr>))"

definition taker_swap_state :: "'x taker \<Rightarrow> taker_error + ongoing_swap" where
  "taker_swap_state s = ok_or (tr_ongoing_swap s) (TGeneral ''No active swap'')"

definition get_swap :: "(ongoing_swap \<Rightarrow> 'a) \<Rightarrow> ('x, 'a) tact" where
  "get_swap f s = (case taker_swap_state s of Inl e \<Rightarrow> (Inl e, s) | Inr swap \<Rightarrow> (Inr (f swap), s))"

text \<open>\<open>swap_state_mut\<close> with the change made through the reference.\<close>

definition swap_state_mut :: "(ongoing_swap \<Rightarrow> ongoing_swap) \<Rightarrow> ('x, unit) tact" where
  "swap_state_mut f s = (case taker_swap_state s of
     Inl e \<Rightarrow> (Inl e, s)
   | Inr swap \<Rightarrow> (Inr (), s\<lparr>tr_ongoing_swap := Some (f swap)\<rparr>))"

text \<open>Indexing \<open>makers\<close> panics out of range.\<close>

definition get_maker :: "nat \<Rightarrow> ('x, maker_connection) tact" where
  "get_maker i = act_bind (get_swap os_makers) (\<lambda>makers. act_lift (ok_or (nth_opt makers i) TPanic))"

definition maker_mut :: "nat \<Rightarrow> (maker_connection \<Rightarrow> maker_connection) \<Rightarrow> ('x, unit) tact" where
  "maker_mut i f = act_bind (get_maker i) (\<lambda>m. swap_state_mut (\<lambda>swap. swap\<lparr>os_makers := (os_makers swap)[i := f m]\<rparr>))"

definition legacy_exchange_mut :: "nat \<Rightarrow> (legacy_exchange_progress \<Rightarrow> legacy_exchange_progress) \<Rightarrow> ('x, unit) tact" where
  "legacy_exchange_mut i f = act_bind (get_maker i) (\<lambda>m. case mc_exchange m of
     LegacyProgress l \<Rightarrow> maker_mut i (\<lambda>m. m\<lparr>mc_exchange := LegacyProgress (f l)\<rparr>)
   | TaprootProgress _ \<Rightarrow> act_fail (TGeneral ''Expected Legacy exchange progress''))"

definition taproot_exchange_mut :: "nat \<Rightarrow> (taproot_exchange_progress \<Rightarrow> taproot_exchange_progress) \<Rightarrow> ('x, unit) tact" where
  "taproot_exchange_mut i f = act_bind (get_maker i) (\<lambda>m. case mc_exchange m of
     TaprootProgress l \<Rightarrow> maker_mut i (\<lambda>m. m\<lparr>mc_exchange := TaprootProgress (f l)\<rparr>)
   | LegacyProgress _ \<Rightarrow> act_fail (TGeneral ''Expected Taproot exchange progress''))"

definition exchange_default :: "protocol_version \<Rightarrow> exchange_progress" where
  "exchange_default protocol = (case protocol of
     Legacy \<Rightarrow> LegacyProgress legacy_progress_default | Taproot \<Rightarrow> TaprootProgress taproot_progress_default)"


section \<open>Running the accessors\<close>

lemma get_swap_Inr_iff: "get_swap f s = (Inr x, t) \<longleftrightarrow> (\<exists>swap. tr_ongoing_swap s = Some swap \<and> x = f swap \<and> t = s)"
  by (auto simp: get_swap_def taker_swap_state_def ok_or_def split: option.splits)

lemma swap_state_mut_Inr_iff:
  "swap_state_mut f s = (Inr u, t) \<longleftrightarrow> (\<exists>swap. tr_ongoing_swap s = Some swap \<and> t = s\<lparr>tr_ongoing_swap := Some (f swap)\<rparr>)"
  by (auto simp: swap_state_mut_def taker_swap_state_def ok_or_def split: option.splits)

lemma get_maker_Inr_iff:
  "get_maker i s = (Inr m, t) \<longleftrightarrow> (\<exists>swap. tr_ongoing_swap s = Some swap \<and> i < length (os_makers swap) \<and> m = os_makers swap ! i \<and> t = s)"
  by (auto simp: get_maker_def act_simps get_swap_Inr_iff ok_or_def nth_opt_def split: if_splits)

lemma maker_mut_Inr_iff:
  "maker_mut i f s = (Inr u, t) \<longleftrightarrow> (\<exists>swap. tr_ongoing_swap s = Some swap \<and> i < length (os_makers swap)
     \<and> t = s\<lparr>tr_ongoing_swap := Some (swap\<lparr>os_makers := (os_makers swap)[i := f (os_makers swap ! i)]\<rparr>)\<rparr>)"
  by (auto simp: maker_mut_def act_simps get_maker_Inr_iff swap_state_mut_Inr_iff)

lemma get_swapE: "get_swap f s = (Inr x, t) \<Longrightarrow> (\<And>swap. tr_ongoing_swap s = Some swap \<Longrightarrow> x = f swap \<Longrightarrow> s = t \<Longrightarrow> P) \<Longrightarrow> P"
  by (auto simp: get_swap_Inr_iff)

lemmas taker_simps = get_swap_Inr_iff swap_state_mut_Inr_iff get_maker_Inr_iff maker_mut_Inr_iff

end
