(* ===== verification/TakerFees.thy ===== *)
theory TakerFees
  imports TakerTypes
begin

text \<open>
  The fee solver of PaySwap, the free functions of \<open>taker/payment.rs\<close>. A maker forwards what it receives less its fee, which is
  computed in doubles; the solver inverts that deduction by doubling and bisection, hop by hop from the end of the route. The lemmas bound the
  rounding errors of the formula and show that the search finds the least amount that nets the request, and nets it exactly.
\<close>

section \<open>The fee solver\<close>

definition MIN_PAYMENT_OUTPUT_SATS :: nat where "MIN_PAYMENT_OUTPUT_SATS = 546"

record hop_fee_terms =
  ht_base_fee :: nat
  ht_amount_relative_fee_pct :: f64
  ht_time_relative_fee_pct :: f64
  ht_locktime :: nat

definition from_offer :: "offer \<Rightarrow> nat \<Rightarrow> hop_fee_terms" where
  "from_offer offer locktime =
     \<lparr>ht_base_fee = of_base_fee offer, ht_amount_relative_fee_pct = of_amount_relative_fee_pct offer,
      ht_time_relative_fee_pct = of_time_relative_fee_pct offer, ht_locktime = locktime\<rparr>"

definition hop_net_sats :: "hop_fee_terms \<Rightarrow> nat \<Rightarrow> nat \<Rightarrow> nat" where
  "hop_net_sats terms per_hop_mining_fee gross_sats =
     (let fee = f64_ceil_u64 (f64_add
        (f64_add (f64_of_nat (ht_base_fee terms))
          (f64_div (f64_mul (f64_of_nat gross_sats) (ht_amount_relative_fee_pct terms)) 100))
        (f64_div (f64_mul (f64_mul (f64_of_nat gross_sats) (f64_of_nat (ht_locktime terms))) (ht_time_relative_fee_pct terms)) 100))
      in saturating_sub gross_sats (wrapping_add 64 fee per_hop_mining_fee))"

text \<open>The first loop. It is entered with \<open>hi\<close> at least 1; a loop at 0 would never end.\<close>

function raise_hi :: "hop_fee_terms \<Rightarrow> nat \<Rightarrow> nat \<Rightarrow> nat \<Rightarrow> taker_error + nat" where
  "raise_hi terms mining_fee net_sats hi =
     (if hi = 0 then Inl TPanic
      else if hop_net_sats terms mining_fee hi < net_sats then
        (let hi = min (2 * hi) (uint_max 64) in
         if max_money < hi then Inl (TGeneral ''Maker fee schedule cannot net at any fundable amount'')
         else raise_hi terms mining_fee net_sats hi)
      else Inr hi)"
  by pat_completeness auto
termination
  by (relation "measure (\<lambda>(_, _, _, hi). max_money - hi)") (auto simp: max_money_def min_def split: if_splits)

declare raise_hi.simps [simp del]

function search_gross :: "hop_fee_terms \<Rightarrow> nat \<Rightarrow> nat \<Rightarrow> nat \<Rightarrow> nat \<Rightarrow> nat" where
  "search_gross terms mining_fee net_sats lo hi =
     (if lo < hi then
        (let mid = lo + (hi - lo) div 2 in
         if net_sats \<le> hop_net_sats terms mining_fee mid then search_gross terms mining_fee net_sats lo mid
         else search_gross terms mining_fee net_sats (mid + 1) hi)
      else lo)"
  by pat_completeness auto
termination
  by (relation "measure (\<lambda>(_, _, _, lo, hi). hi - lo)") auto

declare search_gross.simps [simp del]

definition hop_gross_for_net :: "hop_fee_terms \<Rightarrow> nat \<Rightarrow> nat \<Rightarrow> taker_error + nat" where
  "hop_gross_for_net terms per_hop_mining_fee net_sats =
     res_bind (raise_hi terms per_hop_mining_fee net_sats (max net_sats 1)) (\<lambda>hi.
     let lo = search_gross terms per_hop_mining_fee net_sats net_sats hi in
     if hop_net_sats terms per_hop_mining_fee lo \<noteq> net_sats
     then Inl (TGeneral ''Maker fee schedule skips over an exact net'')
     else Inr lo)"

definition solve_route_gross_sats :: "hop_fee_terms list \<Rightarrow> nat \<Rightarrow> nat \<Rightarrow> taker_error + nat" where
  "solve_route_gross_sats hops per_hop_mining_fee final_net_sats =
     res_bind (res_fold (\<lambda>required terms. hop_gross_for_net terms per_hop_mining_fee required) final_net_sats (rev hops)) (\<lambda>required.
     let forward = fold (\<lambda>terms forward. hop_net_sats terms per_hop_mining_fee forward) hops required in
     if forward \<noteq> final_net_sats then Inl (TGeneral ''Payment route solve is inconsistent'')
     else Inr required)"

section \<open>The net amount of a hop\<close>

text \<open>The maker's formula in doubles, and in exact arithmetic.\<close>

definition fee_f64 :: "hop_fee_terms \<Rightarrow> nat \<Rightarrow> f64" where
  "fee_f64 t g = f64_add (f64_add (f64_of_nat (ht_base_fee t)) (f64_div (f64_mul (f64_of_nat g) (ht_amount_relative_fee_pct t)) 100))
     (f64_div (f64_mul (f64_mul (f64_of_nat g) (f64_of_nat (ht_locktime t))) (ht_time_relative_fee_pct t)) 100)"

definition fee_exact :: "hop_fee_terms \<Rightarrow> nat \<Rightarrow> rat" where
  "fee_exact t g = of_nat (ht_base_fee t) + of_nat g * ht_amount_relative_fee_pct t / 100
     + of_nat g * of_nat (ht_locktime t) * ht_time_relative_fee_pct t / 100"

text \<open>Fee terms that take at most half of what passes through, on amounts up to about ten thousand bitcoin.\<close>

definition fair_terms :: "hop_fee_terms \<Rightarrow> nat \<Rightarrow> bool" where
  "fair_terms t mining_fee \<longleftrightarrow> 0 \<le> ht_amount_relative_fee_pct t \<and> 0 \<le> ht_time_relative_fee_pct t
     \<and> ht_amount_relative_fee_pct t + of_nat (ht_locktime t) * ht_time_relative_fee_pct t \<le> 50
     \<and> ht_base_fee t \<le> 2 ^ 40 \<and> mining_fee \<le> 2 ^ 40 \<and> ht_locktime t < 2 ^ 32"

lemma hop_net_fee: "hop_net_sats t m g = g - (f64_ceil_u64 (fee_f64 t g) + m) mod 2 ^ 64"
  by (simp add: hop_net_sats_def fee_f64_def wrapping_add_def saturating_sub_def)

lemma fee_f64_swap_fee:
  "f64_ceil_u64 (fee_f64 t g) = calculate_swap_fee g (ht_locktime t) (ht_base_fee t) (ht_amount_relative_fee_pct t) (ht_time_relative_fee_pct t)"
  by (simp add: fee_f64_def calculate_swap_fee_def)

lemma hop_net_le: "hop_net_sats t m g \<le> g"
  by (simp add: hop_net_fee)

lemma fee_near:
  assumes "fair_terms t m" "g < 2 ^ 53"
  shows "near 4 (fee_exact t g) (fee_f64 t g)"
proof -
  let ?b = "of_nat (ht_base_fee t) :: rat" and ?L = "of_nat (ht_locktime t) :: rat" and ?g = "of_nat g :: rat"
    and ?p = "ht_amount_relative_fee_pct t" and ?q = "ht_time_relative_fee_pct t"
  have exact: "f64_of_nat (ht_base_fee t) = ?b" "f64_of_nat (ht_locktime t) = ?L" "f64_of_nat g = ?g"
    using assms by (simp_all add: f64_of_nat_def fair_terms_def fl_of_nat)
  have nn: "0 \<le> ?p" "0 \<le> ?q" using assms by (simp_all add: fair_terms_def)
  have "near 1 (?g * ?p) (fl (?g * ?p))" using nn near_fl [OF near_self] by simp
  from near_fl [OF near_mult [OF this, of "1 / 100"]]
  have "near 2 (?g * ?p / 100) (f64_div (f64_mul ?g ?p) 100)" by (simp add: f64_div_def f64_mul_def numeral_2_eq_2)
  moreover have "near 2 ?b ?b" using near_Suc [OF near_Suc [OF near_self [of ?b]]] by (simp add: numeral_2_eq_2)
  ultimately have left: "near 3 (?b + ?g * ?p / 100) (f64_add ?b (f64_div (f64_mul ?g ?p) 100))"
    using near_fl [OF near_add] by (fastforce simp: f64_add_def numeral_3_eq_3 numeral_2_eq_2)
  have "near 1 (?g * ?L) (f64_mul ?g ?L)" using near_fl [OF near_self, of "?g * ?L"] by (simp add: f64_mul_def)
  from near_fl [OF near_mult [OF this nn(2)]]
  have "near 2 (?g * ?L * ?q) (f64_mul (f64_mul ?g ?L) ?q)" by (simp add: f64_mul_def numeral_2_eq_2)
  from near_fl [OF near_mult [OF this, of "1 / 100"]]
  have "near 3 (?g * ?L * ?q / 100) (f64_div (f64_mul (f64_mul ?g ?L) ?q) 100)" by (simp add: f64_div_def numeral_3_eq_3 numeral_2_eq_2)
  from near_fl [OF near_add [OF left this]] show ?thesis
    unfolding fee_f64_def fee_exact_def exact by (simp add: f64_add_def numeral_eq_Suc)
qed

lemma fee_exact_bounds:
  assumes "fair_terms t m"
  shows "0 \<le> fee_exact t g" "fee_exact t g \<le> of_nat (ht_base_fee t) + of_nat g / 2"
    "fee_exact t (Suc g) \<le> fee_exact t g + 1 / 2"
proof -
  let ?s = "ht_amount_relative_fee_pct t + of_nat (ht_locktime t) * ht_time_relative_fee_pct t"
  have s: "0 \<le> ?s" "?s \<le> 50" using assms by (simp_all add: fair_terms_def)
  have e: "fee_exact t n = of_nat (ht_base_fee t) + of_nat n * ?s / 100" for n by (simp add: fee_exact_def field_simps)
  show "0 \<le> fee_exact t g" using s(1) by (simp add: e)
  have "of_nat g * ?s \<le> of_nat g * 50" using s by (intro mult_left_mono) auto
  then show "fee_exact t g \<le> of_nat (ht_base_fee t) + of_nat g / 2" by (simp add: e)
  show "fee_exact t (Suc g) \<le> fee_exact t g + 1 / 2" using s by (simp add: e field_simps)
qed

lemma max_money_value: "max_money = 2100000000000000" "max_money < 2 ^ 51"
  by (simp_all add: max_money_def)

text \<open>The fee as a natural: what the double computation gives is at most three satoshis above the exact fee.\<close>

lemma fee_upper:
  assumes "fair_terms t m" "g \<le> max_money"
  shows "of_nat (f64_ceil_u64 (fee_f64 t g)) \<le> fee_exact t g + 3"
proof -
  let ?T = "fee_exact t g" and ?F = "fee_f64 t g"
  have g: "g < 2 ^ 53" using assms(2) max_money_value by simp
  note near = fee_near [OF assms(1) g]
  have "(of_nat (ht_base_fee t) :: rat) \<le> of_nat (2 ^ 40)" using assms(1) by (simp only: of_nat_le_iff fair_terms_def)
  moreover have "(of_nat g :: rat) \<le> of_nat max_money" using assms(2) by (simp only: of_nat_le_iff)
  ultimately have "?T \<le> 2 ^ 51" using fee_exact_bounds(2) [OF assms(1), of g] by (simp add: max_money_value)
  then have F: "?F \<le> ?T + 5 / 4" using near_4(2) [OF near] by simp
  have "(of_nat (f64_ceil_u64 ?F) :: rat) \<le> of_nat (nat \<lceil>?F\<rceil>)" by (simp only: of_nat_le_iff f64_ceil_u64_def)
  also have "\<dots> = of_int \<lceil>?F\<rceil>"
    using near_nonneg [OF near] by (simp add: of_nat_nat)
  also have "\<dots> \<le> ?F + 1" by linarith
  finally show ?thesis using F by linarith
qed

lemma fee_upper_nat:
  assumes "fair_terms t m" "g \<le> max_money"
  shows "2 * f64_ceil_u64 (fee_f64 t g) \<le> 2 * ht_base_fee t + g + 6"
proof -
  have "2 * (of_nat (f64_ceil_u64 (fee_f64 t g)) :: rat) \<le> 2 * of_nat (ht_base_fee t) + of_nat g + 6"
    using fee_upper [OF assms] fee_exact_bounds(2) [OF assms(1), of g] by linarith
  then have "(of_nat (2 * f64_ceil_u64 (fee_f64 t g)) :: rat) \<le> of_nat (2 * ht_base_fee t + g + 6)" by simp
  then show ?thesis by (simp only: of_nat_le_iff)
qed

lemma hop_net_no_wrap:
  assumes "fair_terms t m" "g \<le> max_money"
  shows "hop_net_sats t m g = g - (f64_ceil_u64 (fee_f64 t g) + m)"
proof -
  have "f64_ceil_u64 (fee_f64 t g) + m < 2 ^ 64"
    using fee_upper_nat [OF assms] assms max_money_value by (simp add: fair_terms_def)
  then show ?thesis by (simp add: hop_net_fee)
qed

text \<open>One more satoshi in never gives more than one more satoshi out, so no net amount is skipped.\<close>

lemma hop_net_step:
  assumes "fair_terms t m" "Suc g \<le> max_money"
  shows "hop_net_sats t m (Suc g) \<le> Suc (hop_net_sats t m g)"
proof -
  have "f64_ceil_u64 (fee_f64 t g) \<le> f64_ceil_u64 (fee_f64 t (Suc g))"
    unfolding fee_f64_swap_fee using assms(1) by (intro swap_fee_mono) (auto simp: fair_terms_def)
  then show ?thesis using assms by (simp add: hop_net_no_wrap)
qed

text \<open>One more satoshi in never gives less out.\<close>

lemma hop_net_Suc_ge:
  assumes "fair_terms t m" "Suc g \<le> 2 ^ 44"
  shows "hop_net_sats t m g \<le> hop_net_sats t m (Suc g)"
proof -
  let ?F = "fee_f64 t"
  have le: "Suc g \<le> max_money" "g < 2 ^ 53" "Suc g < 2 ^ 53" using assms(2) max_money_value by simp_all
  have b: "(of_nat (ht_base_fee t) :: rat) \<le> 1099511627776"
    using assms(1) of_nat_mono [of "ht_base_fee t" "2 ^ 40", where 'a = rat] by (simp add: fair_terms_def)
  have g: "(of_nat g :: rat) + 1 \<le> 17592186044416" using of_nat_mono [OF assms(2), where 'a = rat] by simp
  have "fee_exact t (Suc g) \<le> 35184372088832" "fee_exact t g \<le> 35184372088832"
    using fee_exact_bounds(2) [OF assms(1), of "Suc g"] fee_exact_bounds(2) [OF assms(1), of g] b g by (simp_all only: of_nat_Suc add_divide_distrib)
  then have T: "fee_exact t (Suc g) \<le> 2 ^ 45" "fee_exact t g \<le> 2 ^ 45" by simp_all
  have "?F (Suc g) \<le> fee_exact t (Suc g) + 5 / 256" "fee_exact t g - 4 / 256 \<le> ?F g"
    using near_4(2) [OF fee_near [OF assms(1) le(3)]] near_4(1) [OF fee_near [OF assms(1) le(2)]] T by simp_all
  then have "?F (Suc g) \<le> ?F g + 1" using fee_exact_bounds(3) [OF assms(1), of g] by linarith
  then have "\<lceil>?F (Suc g)\<rceil> \<le> \<lceil>?F g\<rceil> + 1" by linarith
  then have "nat \<lceil>?F (Suc g)\<rceil> \<le> Suc (nat \<lceil>?F g\<rceil>)" by linarith
  then have "f64_ceil_u64 (?F (Suc g)) \<le> Suc (f64_ceil_u64 (?F g))" by (simp add: f64_ceil_u64_def)
  then show ?thesis using assms(1) le by (simp add: hop_net_no_wrap)
qed

lemma hop_net_mono:
  assumes "fair_terms t m" "g \<le> g'" "g' \<le> 2 ^ 44"
  shows "hop_net_sats t m g \<le> hop_net_sats t m g'"
  using assms(2,3)
proof (induction g' rule: dec_induct)
  case (step n)
  then show ?case using hop_net_Suc_ge [OF assms(1), of n] by simp
qed simp

lemma hop_net_lower:
  assumes "fair_terms t m" "g \<le> max_money" "2 * (net + ht_base_fee t + m + 3) \<le> g"
  shows "net \<le> hop_net_sats t m g"
  using fee_upper_nat [OF assms(1,2)] assms(3) by (simp add: hop_net_no_wrap [OF assms(1,2)])

section \<open>The search\<close>

lemma search_gross_spec:
  assumes "lo \<le> hi" "net \<le> hop_net_sats t m hi"
  defines "r \<equiv> search_gross t m net lo hi"
  shows "lo \<le> r \<and> r \<le> hi \<and> net \<le> hop_net_sats t m r \<and> (r = lo \<or> hop_net_sats t m (r - 1) < net)"
  using assms(1,2) unfolding r_def
proof (induction t m net lo hi rule: search_gross.induct)
  case (1 t m net lo hi)
  define mid where "mid = lo + (hi - lo) div 2"
  show ?case
  proof (cases "lo < hi")
    case True
    then have mid: "lo \<le> mid" "mid < hi" by (auto simp: mid_def)
    show ?thesis
    proof (cases "net \<le> hop_net_sats t m mid")
      case ok: True
      with "1.IH"(1) [OF True mid_def] mid have "lo \<le> search_gross t m net lo mid \<and> search_gross t m net lo mid \<le> mid
          \<and> net \<le> hop_net_sats t m (search_gross t m net lo mid)
          \<and> (search_gross t m net lo mid = lo \<or> hop_net_sats t m (search_gross t m net lo mid - 1) < net)" by simp
      then show ?thesis using True ok mid by (simp add: search_gross.simps [of t m net lo hi] mid_def [symmetric] Let_def)
    next
      case ko: False
      with "1.IH"(2) [OF True mid_def] mid "1.prems" have "mid + 1 \<le> search_gross t m net (mid + 1) hi \<and> search_gross t m net (mid + 1) hi \<le> hi
          \<and> net \<le> hop_net_sats t m (search_gross t m net (mid + 1) hi)
          \<and> (search_gross t m net (mid + 1) hi = mid + 1 \<or> hop_net_sats t m (search_gross t m net (mid + 1) hi - 1) < net)" by simp
      then show ?thesis using True ko mid
        by (auto simp: search_gross.simps [of t m net lo hi] mid_def [symmetric] Let_def)
    qed
  next
    case False
    moreover have "search_gross t m net lo hi = lo" using False by (simp add: search_gross.simps)
    ultimately show ?thesis using "1.prems" by simp
  qed
qed

lemma raise_hi_found:
  assumes "raise_hi t m net hi = Inr h"
  shows "hi \<le> h \<and> net \<le> hop_net_sats t m h \<and> (hi \<le> max_money \<longrightarrow> h \<le> max_money)"
  using assms
proof (induction t m net hi rule: raise_hi.induct)
  case (1 t m net hi)
  then show ?case by (auto simp: raise_hi.simps [of t m net hi] Let_def min_def max_money_value split: if_splits)
qed

lemma raise_hi_total:
  assumes "fair_terms t m" "1 \<le> hi" "hi \<le> max net (4 * K)" "net \<le> K" "net + ht_base_fee t + m + 3 \<le> K" "4 * K \<le> max_money"
  shows "\<exists>h. raise_hi t m net hi = Inr h \<and> h \<le> max net (4 * K)"
  using assms
proof (induction t m net hi rule: raise_hi.induct)
  case (1 t m net hi)
  show ?case
  proof (cases "hop_net_sats t m hi < net")
    case True
    have hi: "hi \<le> max_money" using "1.prems" by simp
    have "hi < 2 * K"
    proof (rule ccontr)
      assume "\<not> hi < 2 * K"
      then have "net \<le> hop_net_sats t m hi" using "1.prems" hi by (intro hop_net_lower) auto
      then show False using True by simp
    qed
    moreover from this have "min (2 * hi) (uint_max 64) = 2 * hi" using "1.prems" max_money_value by simp
    ultimately show ?thesis
      using "1.IH" [of "2 * hi"] "1.prems" True by (simp add: raise_hi.simps [of t m net hi])
  next
    case False
    then show ?thesis using "1.prems" by (simp add: raise_hi.simps [of t m net hi])
  qed
qed


text \<open>What any answer satisfies, for any fee schedule: the net is exact and one satoshi less falls short.\<close>

lemma hop_gross_sound:
  assumes "hop_gross_for_net t m net = Inr g"
  shows "hop_net_sats t m g = net \<and> net \<le> g \<and> (0 < g \<longrightarrow> hop_net_sats t m (g - 1) < net)"
proof -
  from assms obtain h where h: "raise_hi t m net (max net 1) = Inr h" "g = search_gross t m net net h" "hop_net_sats t m g = net"
    by (auto simp: hop_gross_for_net_def res_simps Let_def split: if_splits)
  note found = raise_hi_found [OF h(1)]
  have "net \<le> g \<and> (g = net \<or> hop_net_sats t m (g - 1) < net)"
    using search_gross_spec [of net h net t m] found by (auto simp: h(2))
  moreover have "hop_net_sats t m (net - 1) < net" if "0 < net" using hop_net_le [of t m "net - 1"] that by linarith
  ultimately show ?thesis using h(3) by auto
qed

lemma hop_gross_total:
  assumes "fair_terms t m" "net \<le> 2 ^ 40"
  shows "\<exists>g. hop_gross_for_net t m net = Inr g \<and> g \<le> 2 ^ 44"
proof -
  let ?K = "net + ht_base_fee t + m + 3"
  have K: "4 * ?K \<le> 2 ^ 44" "4 * ?K \<le> max_money" using assms by (simp_all add: fair_terms_def max_money_value)
  obtain h where h: "raise_hi t m net (max net 1) = Inr h" "h \<le> max net (4 * ?K)"
    using raise_hi_total [OF assms(1), of "max net 1" net ?K] K by auto
  note found = raise_hi_found [OF h(1)]
  define g where "g = search_gross t m net net h"
  have g: "net \<le> g" "g \<le> h" "net \<le> hop_net_sats t m g" "g = net \<or> hop_net_sats t m (g - 1) < net"
    using search_gross_spec [of net h net t m] found by (auto simp: g_def)
  have "hop_net_sats t m g \<le> net"
  proof (cases "g = net")
    case True
    then show ?thesis using hop_net_le [of t m net] by simp
  next
    case False
    then have "hop_net_sats t m (Suc (g - 1)) \<le> Suc (hop_net_sats t m (g - 1))"
      using g h(2) K by (intro hop_net_step [OF assms(1)]) auto
    then show ?thesis using g False by auto
  qed
  then show ?thesis using g h K(1) by (auto simp: hop_gross_for_net_def Let_def g_def [symmetric])
qed

text \<open>
  C15. The fee solver is the exact inverse of a maker's deduction. For every fee schedule that takes at most half of what passes
  through (base and mining fees up to \<open>2^40\<close> satoshis), and every net amount up to \<open>2^40\<close> satoshis, the doubling and
  bisection of \<open>hop_gross_for_net\<close> end with the least amount whose net reaches the request (no bound on the rounding of
  doubles is assumed: it is proved), and that amount nets the request to the satoshi. So neither error is ever returned there.
\<close>

theorem hop_gross_is_least:
  assumes "fair_terms t m" "net \<le> 2 ^ 40"
  shows "hop_gross_for_net t m net = Inr (LEAST g. net \<le> hop_net_sats t m g)
    \<and> hop_net_sats t m (LEAST g. net \<le> hop_net_sats t m g) = net"
proof -
  obtain g where g: "hop_gross_for_net t m net = Inr g" "g \<le> 2 ^ 44" using hop_gross_total [OF assms] by blast
  note sound = hop_gross_sound [OF g(1)]
  have "(LEAST g. net \<le> hop_net_sats t m g) = g"
  proof (rule Least_equality)
    fix g' assume *: "net \<le> hop_net_sats t m g'"
    show "g \<le> g'"
    proof (rule ccontr)
      assume "\<not> g \<le> g'"
      then have "hop_net_sats t m g' \<le> hop_net_sats t m (g - 1)" using g(2) by (intro hop_net_mono [OF assms(1)]) auto
      then show False using * sound \<open>\<not> g \<le> g'\<close> by auto
    qed
  qed (use sound in simp)
  then show ?thesis using g sound by simp
qed

text \<open>A schedule of 1000 satoshis plus 2.5% plus 0.005% per block, on 20 blocks.\<close>

definition sample_terms :: hop_fee_terms where
  "sample_terms = \<lparr>ht_base_fee = 1000, ht_amount_relative_fee_pct = 5 / 2, ht_time_relative_fee_pct = 1 / 200, ht_locktime = 20\<rparr>"

lemma sample_terms_fair: "fair_terms sample_terms 550"
  by (simp add: fair_terms_def sample_terms_def)

theorem hop_gross_is_least_witness:
  "\<exists>g. hop_gross_for_net sample_terms 550 500000 = Inr g \<and> hop_net_sats sample_terms 550 g = 500000"
  using hop_gross_is_least [OF sample_terms_fair, of 500000] by simp

end
