(* ===== verification/TakerPayment.thy ===== *)
theory TakerPayment
  imports TakerFees
begin

text \<open>
  PaySwap, \<open>taker/payment.rs\<close>: from the exact amount a third-party receiver must get, the taker solves the makers' fee
  schedules backward to the amount it has to send, and pins the receiver on the coins it gets back; with the two functions of
  \<open>taker/api.rs\<close> the payment shares with every swap, \<open>validate_offer\<close> and \<open>expected_amount_for_hop\<close>.
  The lemmas show that the search for the gross amount finds the least one and hits the requested net exactly, that the route
  solution agrees with what the taker later demands of the last maker, and that the pinned outputs add up to the payment.
\<close>

section \<open>Offers and expected amounts\<close>

text \<open>The values that are not finite are not represented, so their checks always pass.\<close>

definition validate_offer :: "offer \<Rightarrow> amount \<Rightarrow> taker_error + unit" where
  "validate_offer offer send_amount =
     res_bind (ensure (\<not> (of_amount_relative_fee_pct offer < 0 \<or> 100 \<le> of_amount_relative_fee_pct offer))
       (TGeneral ''Maker offer has invalid amount_relative_fee_pct'')) (\<lambda>_.
     res_bind (ensure (\<not> (of_time_relative_fee_pct offer < 0 \<or> 100 \<le> of_time_relative_fee_pct offer))
       (TGeneral ''Maker offer has invalid time_relative_fee_pct'')) (\<lambda>_.
     res_bind (ensure (of_base_fee offer \<le> send_amount)
       (TGeneral ''Maker offer base_fee exceeds send amount'')) (\<lambda>_.
     res_bind (ensure (of_min_size offer \<le> of_max_size offer)
       (TGeneral ''Maker offer has min_size > max_size'')) (\<lambda>_.
     res_bind (ensure (of_min_size offer \<le> send_amount)
       (TGeneral ''Send amount is below maker min_size'')) (\<lambda>_.
     ensure (send_amount \<le> of_max_size offer) (TGeneral ''Send amount exceeds maker max_size''))))))"

text \<open>An index out of range and a fee estimate that fails are panics.\<close>

definition replay_hop :: "maker_connection list \<Rightarrow> nat \<Rightarrow> nat option \<Rightarrow> nat \<Rightarrow> taker_error + nat option" where
  "replay_hop makers per_hop_mining_fee amount i = (case amount of
     None \<Rightarrow> Inr None
   | Some amount_sats \<Rightarrow>
     res_bind (ok_or (nth_opt makers i) TPanic) (\<lambda>maker.
     case mc_offer maker of
       None \<Rightarrow> Inr None
     | Some offer \<Rightarrow>
       (let locktime = (case mc_protocol maker of
          Legacy \<Rightarrow> mc_negotiated_timelock maker
        | Taproot \<Rightarrow> locktime_for (length makers - i - 1))
        in Inr (Some (hop_net_sats (from_offer offer locktime) per_hop_mining_fee amount_sats)))))"

definition expected_amount_for_hop :: "btc \<Rightarrow> nat \<Rightarrow> 'x taker \<Rightarrow> taker_error + amount option" where
  "expected_amount_for_hop B maker_idx s = (case tr_ongoing_swap s of
     None \<Rightarrow> Inr None
   | Some swap \<Rightarrow>
     res_bind (ok_or (estimate_funding_tx_fee_sats B) TPanic) (\<lambda>fee.
     let per_hop_mining_fee = wrapping_mul 64 fee (prm_tx_count (os_params swap)) in
     res_fold (replay_hop (os_makers swap) per_hop_mining_fee) (Some (prm_send_amount (os_params swap))) [0..<Suc maker_idx]))"

section \<open>Preparing a payment\<close>

definition payment_validate_params :: "'x taker_env \<Rightarrow> swap_params \<Rightarrow> taker_error + string option" where
  "payment_validate_params E params = (case prm_payment_address params of
     None \<Rightarrow> Inr None
   | Some unchecked_address \<Rightarrow>
     res_bind (ok_or (tv_require_network E unchecked_address)
       (TGeneral ''Receiver address is not valid for the wallet network'')) (\<lambda>address.
     res_bind (ensure (prm_tx_count params \<noteq> 0)
       (TGeneral ''A payment swap needs at least one transaction split'')) (\<lambda>_.
     res_bind (ensure (\<not> prm_send_amount params < wrapping_mul 64 MIN_PAYMENT_OUTPUT_SATS (prm_tx_count params))
       (TGeneral ''Payment amount is below the minimum for the settlement outputs'')) (\<lambda>_.
     Inr (Some address)))))"

definition maker_address_try_from :: "string \<Rightarrow> string + string" where
  "maker_address_try_from value =
     (if value = [] then Inl ''Empty address''
      else if rev (take 6 (rev value)) \<noteq> ''.onion'' then Inl ''Not a valid .onion hostname''
      else Inr value)"

definition poll_maker :: "'x taker_env \<Rightarrow> string \<Rightarrow> ('x, offer option) tact" where
  "poll_maker E address =
     act_bind (act_lift (map_err (\<lambda>_. TGeneral ''Invalid maker address'') (maker_address_try_from address))) (\<lambda>parsed.
     on_world (tv_poll E parsed))"

definition payment_hop :: "'x taker_env \<Rightarrow> amount \<Rightarrow> nat \<Rightarrow> nat \<Rightarrow> ('x, hop_fee_terms) tact" where
  "payment_hop E receiver_amount maker_count i =
     act_bind (get_maker i) (\<lambda>maker.
     act_bind (case mc_offer maker of
         Some offer \<Rightarrow> act_ret offer
       | None \<Rightarrow> act_bind (poll_maker E (mc_address maker)) (\<lambda>polled.
           act_lift (ok_or polled (TGeneral ''Maker has no offer to price the payment route'')))) (\<lambda>offer.
     act_seq (act_lift (validate_offer offer receiver_amount)) (
     act_seq (maker_mut i (\<lambda>m. m\<lparr>mc_offer := Some offer\<rparr>)) (
     act_ret (from_offer offer (locktime_for (maker_count - i - 1)))))))"

definition payment_quote_route :: "btc \<Rightarrow> string \<Rightarrow> swap_params \<Rightarrow> hop_fee_terms list \<Rightarrow> ('x, unit) tact" where
  "payment_quote_route B address params hops =
     (let receiver_amount = prm_send_amount params; tx_count = prm_tx_count params in
     act_bind (act_lift (ok_or (payment_settlement_budget_sats B (prm_protocol params)) TPanic)) (\<lambda>budget.
     act_bind (act_lift (ok_or (estimate_funding_tx_fee_sats B) TPanic)) (\<lambda>fee.
     let settlement_budget = wrapping_mul 64 budget tx_count;
         final_net = wrapping_add 64 receiver_amount settlement_budget;
         per_hop_mining_fee = wrapping_mul 64 fee tx_count in
     act_bind (act_lift (solve_route_gross_sats hops per_hop_mining_fee final_net)) (\<lambda>gross.
     act_bind (get_swap os_makers) (\<lambda>makers.
     act_seq (act_lift (res_all (\<lambda>maker. case mc_offer maker of None \<Rightarrow> Inr () | Some offer \<Rightarrow> validate_offer offer gross) makers)) (
     act_bind (act_get (\<lambda>s. get_balances (w_store (tr_wallet s)))) (\<lambda>balances.
     act_bind (act_lift (map_err from_wallet_error balances)) (\<lambda>balances.
     act_bind (act_lift (ok_or (checked_add 64 gross FUNDING_FEE_BUFFER) TPanic)) (\<lambda>required.
     act_seq (act_ensure (\<not> bal_spendable balances < required) (TGeneral ''Insufficient balance for the payment route'')) (
     swap_state_mut (\<lambda>swap. swap\<lparr>os_params := (os_params swap)\<lparr>prm_send_amount := gross\<rparr>,
       os_payment := Some \<lparr>pq_address = address, pq_amount = receiver_amount, pq_settlement_budget = settlement_budget,
         pq_taker_funding_fee_estimate = per_hop_mining_fee\<rparr>\<rparr>)))))))))))"

definition payment_prepare_route :: "btc \<Rightarrow> 'x taker_env \<Rightarrow> string \<Rightarrow> ('x, unit) tact" where
  "payment_prepare_route B E address =
     act_bind (get_swap (\<lambda>swap. (os_params swap, length (os_makers swap)))) (\<lambda>(params, maker_count).
     act_bind (act_mapM (payment_hop E (prm_send_amount params) maker_count) [0..<maker_count]) (\<lambda>hops.
     payment_quote_route B address params hops))"

section \<open>Pinning the receiver\<close>

text \<open>The loop writes each coin as it goes: the coins before a failure keep their target.\<close>

fun stamp_coins :: "script \<Rightarrow> nat \<Rightarrow> incoming_swapcoin list \<Rightarrow> (taker_error + nat) \<times> incoming_swapcoin list" where
  "stamp_coins script_pubkey per_coin_budget [] = (Inr 0, [])"
| "stamp_coins script_pubkey per_coin_budget (coin # coins) =
     (case checked_sub (inc_funding_amount coin) per_coin_budget of
        Some output_sats \<Rightarrow>
          if MIN_PAYMENT_OUTPUT_SATS \<le> output_sats then
            (case stamp_coins script_pubkey per_coin_budget coins of (r, coins) \<Rightarrow>
              (res_bind r (\<lambda>total. Inr (wrapping_add 64 output_sats total)),
               coin\<lparr>inc_payment_target := Some \<lparr>pt_script_pubkey = script_pubkey, pt_amount = output_sats\<rparr>\<rparr> # coins))
          else (Inl (TGeneral ''Incoming swapcoin funding cannot carry a settlement output above dust''), coin # coins)
      | None \<Rightarrow> (Inl (TGeneral ''Incoming swapcoin funding cannot carry a settlement output above dust''), coin # coins))"

definition payment_stamp_targets :: "'x taker_env \<Rightarrow> ('x, unit) tact" where
  "payment_stamp_targets E =
     act_bind (get_swap os_payment) (\<lambda>found. case found of
       None \<Rightarrow> act_ret ()
     | Some payment \<Rightarrow>
       act_bind (get_swap os_incoming) (\<lambda>incoming.
       let coin_count = length incoming; budget = pq_settlement_budget payment in
       act_seq (act_ensure (coin_count \<noteq> 0) (TGeneral ''Payment swap produced no incoming swapcoins to settle'')) (
       act_seq (act_ensure (budget mod coin_count = 0) (TGeneral ''Settlement budget does not divide across the swapcoins'')) (
       case stamp_coins (tv_script_pubkey E (pq_address payment)) (budget div coin_count) incoming of (stamped, coins) \<Rightarrow>
       act_seq (swap_state_mut (\<lambda>swap. swap\<lparr>os_incoming := coins\<rparr>)) (
       act_bind (act_lift stamped) (\<lambda>total.
       act_ensure (total = pq_amount payment) (TGeneral ''Settlement outputs do not total the payment amount'')))))))"


section \<open>The route solution and the expected amounts\<close>

definition same_price :: "offer \<Rightarrow> offer \<Rightarrow> bool" where
  "same_price a b \<longleftrightarrow> of_base_fee a = of_base_fee b \<and> of_amount_relative_fee_pct a = of_amount_relative_fee_pct b
     \<and> of_time_relative_fee_pct a = of_time_relative_fee_pct b"

text \<open>
  The makers of a priced route after negotiation: every offer still has its price, and a legacy maker was given the locktime of
  its place in the route.
\<close>

definition route_negotiated :: "maker_connection list \<Rightarrow> maker_connection list \<Rightarrow> bool" where
  "route_negotiated priced makers \<longleftrightarrow> length makers = length priced
     \<and> (\<forall>i<length priced. (\<exists>a b. mc_offer (priced ! i) = Some a \<and> mc_offer (makers ! i) = Some b \<and> same_price a b)
        \<and> (mc_protocol (makers ! i) = Legacy \<longrightarrow> mc_negotiated_timelock (makers ! i) = locktime_for (length priced - i - 1)))"

lemma poll_maker_swap: "poll_maker E a s = (r, t) \<Longrightarrow> tr_ongoing_swap t = tr_ongoing_swap s"
  by (auto simp: poll_maker_def act_bind_def act_lift_def on_world_def split: sum.splits prod.splits)

lemma payment_hop_Inr:
  assumes "payment_hop E a n i s = (Inr h, t)" "tr_ongoing_swap s = Some swap"
  shows "\<exists>offer. i < length (os_makers swap) \<and> h = from_offer offer (locktime_for (n - i - 1)) \<and> validate_offer offer a = Inr ()
    \<and> tr_ongoing_swap t = Some (swap\<lparr>os_makers := (os_makers swap)[i := (os_makers swap ! i)\<lparr>mc_offer := Some offer\<rparr>]\<rparr>)"
  using assms
  by (auto simp: payment_hop_def act_simps taker_simps ok_or_Inr_iff dest!: poll_maker_swap split: option.splits)

lemma payment_hops_Inr:
  assumes "act_mapM (payment_hop E a n) [k..<n] s = (Inr hops, t)" "tr_ongoing_swap s = Some swap" "k \<le> n" "length (os_makers swap) = n"
  shows "\<exists>makers. tr_ongoing_swap t = Some (swap\<lparr>os_makers := makers\<rparr>) \<and> length makers = n \<and> length hops = n - k
    \<and> (\<forall>i<k. makers ! i = os_makers swap ! i)
    \<and> (\<forall>i. k \<le> i \<and> i < n \<longrightarrow> (\<exists>offer. mc_offer (makers ! i) = Some offer \<and> hops ! (i - k) = from_offer offer (locktime_for (n - i - 1))))"
  using assms
proof (induction "n - k" arbitrary: k s swap hops)
  case 0
  then show ?case by (intro exI [of _ "os_makers swap"]) (auto simp: act_simps)
next
  case (Suc d)
  then have k: "k < n" by simp
  then have "[k..<n] = k # [Suc k..<n]" by (simp add: upt_conv_Cons)
  with Suc.prems(1) obtain h s1 hs where h: "payment_hop E a n k s = (Inr h, s1)" "act_mapM (payment_hop E a n) [Suc k..<n] s1 = (Inr hs, t)"
    "hops = h # hs" by (auto simp: act_simps)
  from payment_hop_Inr [OF h(1) Suc.prems(2)] obtain offer where
    offer: "h = from_offer offer (locktime_for (n - k - 1))"
    "tr_ongoing_swap s1 = Some (swap\<lparr>os_makers := (os_makers swap)[k := (os_makers swap ! k)\<lparr>mc_offer := Some offer\<rparr>]\<rparr>)" by blast
  from Suc.hyps(1) [OF _ h(2) offer(2)] Suc.hyps(2) k Suc.prems(4) obtain makers where
    m: "tr_ongoing_swap t = Some (swap\<lparr>os_makers := makers\<rparr>)" "length makers = n" "length hs = n - Suc k"
    "\<And>i. i < Suc k \<Longrightarrow> makers ! i = (os_makers swap)[k := (os_makers swap ! k)\<lparr>mc_offer := Some offer\<rparr>] ! i"
    "\<And>i. Suc k \<le> i \<Longrightarrow> i < n \<Longrightarrow> \<exists>offer. mc_offer (makers ! i) = Some offer \<and> hs ! (i - Suc k) = from_offer offer (locktime_for (n - i - 1))"
    by force
  have "\<exists>offer. mc_offer (makers ! i) = Some offer \<and> hops ! (i - k) = from_offer offer (locktime_for (n - i - 1))" if "k \<le> i" "i < n" for i
  proof (cases "i = k")
    case True
    then show ?thesis using m(4) [of k] k Suc.prems(4) h(3) offer(1) by simp
  next
    case False
    then have "hops ! (i - k) = hs ! (i - Suc k)" using that h(3) by (simp add: nth_Cons')
    then show ?thesis using m(5) [of i] that False by simp
  qed
  moreover have "makers ! i = os_makers swap ! i" if "i < k" for i using m(4) [of i] that by simp
  ultimately show ?case using m h(3) k by auto
qed

lemma replay_priced:
  assumes "route_negotiated priced makers" "length hops = length priced"
    and hops: "\<And>i. i < length priced \<Longrightarrow> \<exists>offer. mc_offer (priced ! i) = Some offer \<and> hops ! i = from_offer offer (locktime_for (length priced - i - 1))"
  shows "k \<le> length priced \<Longrightarrow>
    res_fold (replay_hop makers m) (Some gross) [0..<k] = Inr (Some (fold (\<lambda>h. hop_net_sats h m) (take k hops) gross))"
proof (induction k)
  case (Suc k)
  then have k: "k < length priced" by simp
  obtain a b where ab: "mc_offer (priced ! k) = Some a" "mc_offer (makers ! k) = Some b" "same_price a b"
    "mc_protocol (makers ! k) = Legacy \<Longrightarrow> mc_negotiated_timelock (makers ! k) = locktime_for (length priced - k - 1)"
    "length makers = length priced"
    using assms(1) k by (auto simp: route_negotiated_def)
  have "hops ! k = from_offer b (locktime_for (length priced - k - 1))"
    using hops [OF k] ab(1,3) by (auto simp: from_offer_def same_price_def)
  then have "replay_hop makers m (Some x) k = Inr (Some (hop_net_sats (hops ! k) m x))" for x
    using ab k by (simp add: replay_hop_def nth_opt_def split: protocol_version.splits)
  with Suc k assms(2) show ?case by (simp add: res_fold_append take_Suc_conv_app_nth)
qed simp


lemma solve_route_forward:
  assumes "solve_route_gross_sats hops m final = Inr gross"
  shows "fold (\<lambda>h. hop_net_sats h m) hops gross = final"
  using assms by (auto simp: solve_route_gross_sats_def res_simps Let_def split: if_splits)

lemma payment_quote_route_Inr:
  assumes "payment_quote_route B address params hops s = (Inr (), t)" "tr_ongoing_swap s = Some swap"
  shows "\<exists>budget fee gross. payment_settlement_budget_sats B (prm_protocol params) = Some budget \<and> estimate_funding_tx_fee_sats B = Some fee
    \<and> solve_route_gross_sats hops (wrapping_mul 64 fee (prm_tx_count params))
        (wrapping_add 64 (prm_send_amount params) (wrapping_mul 64 budget (prm_tx_count params))) = Inr gross
    \<and> tr_ongoing_swap t = Some (swap\<lparr>os_params := (os_params swap)\<lparr>prm_send_amount := gross\<rparr>,
        os_payment := Some \<lparr>pq_address = address, pq_amount = prm_send_amount params,
          pq_settlement_budget = wrapping_mul 64 budget (prm_tx_count params),
          pq_taker_funding_fee_estimate = wrapping_mul 64 fee (prm_tx_count params)\<rparr>\<rparr>)"
proof -
  have swap: "tr_ongoing_swap s' = Some sw \<Longrightarrow> s = s' \<Longrightarrow> sw = swap" for s' sw using assms(2) by simp
  from assms(1) show ?thesis
    unfolding payment_quote_route_def Let_def
  proof (elim act_bindE act_liftE act_ensureE act_getE get_swapE, goal_cases)
    case 1
    then show ?case using assms(2) by (simp add: ok_or_Inr_iff swap_state_mut_Inr_iff)
  qed
qed

lemma payment_prepare_route_Inr:
  assumes "payment_prepare_route B E address s = (Inr (), t)" "tr_ongoing_swap s = Some swap"
  defines "n \<equiv> length (os_makers swap)" and "prm \<equiv> os_params swap"
  shows "\<exists>budget fee hops gross makers. estimate_funding_tx_fee_sats B = Some fee
    \<and> solve_route_gross_sats hops (wrapping_mul 64 fee (prm_tx_count prm))
        (wrapping_add 64 (prm_send_amount prm) (wrapping_mul 64 budget (prm_tx_count prm))) = Inr gross
    \<and> length makers = n \<and> length hops = n
    \<and> (\<forall>i<n. \<exists>offer. mc_offer (makers ! i) = Some offer \<and> hops ! i = from_offer offer (locktime_for (n - i - 1)))
    \<and> tr_ongoing_swap t = Some (swap\<lparr>os_makers := makers, os_params := prm\<lparr>prm_send_amount := gross\<rparr>,
        os_payment := Some \<lparr>pq_address = address, pq_amount = prm_send_amount prm,
          pq_settlement_budget = wrapping_mul 64 budget (prm_tx_count prm),
          pq_taker_funding_fee_estimate = wrapping_mul 64 fee (prm_tx_count prm)\<rparr>\<rparr>)"
proof -
  have "get_swap (\<lambda>swap. (os_params swap, length (os_makers swap))) s = (Inr (prm, n), s)"
    using assms(2) by (simp add: get_swap_def taker_swap_state_def prm_def n_def)
  with assms(1) have "act_bind (act_mapM (payment_hop E (prm_send_amount prm) n) [0..<n]) (payment_quote_route B address prm) s = (Inr (), t)"
    by (simp add: payment_prepare_route_def act_bind_def)
  then obtain hops s1 where
    hops: "act_mapM (payment_hop E (prm_send_amount prm) n) [0..<n] s = (Inr hops, s1)"
    and rest: "payment_quote_route B address prm hops s1 = (Inr (), t)"
    by (rule act_bindE)
  have "length (os_makers swap) = n" by (simp add: n_def)
  from payment_hops_Inr [OF hops assms(2) le0 this] obtain makers where
    m: "tr_ongoing_swap s1 = Some (swap\<lparr>os_makers := makers\<rparr>)" "length makers = n" "length hops = n"
    "\<forall>i<n. \<exists>offer. mc_offer (makers ! i) = Some offer \<and> hops ! i = from_offer offer (locktime_for (n - i - 1))"
    by (metis le0 minus_nat.diff_0)
  from payment_quote_route_Inr [OF rest m(1)] obtain budget fee gross where q: "estimate_funding_tx_fee_sats B = Some fee"
    "solve_route_gross_sats hops (wrapping_mul 64 fee (prm_tx_count prm))
        (wrapping_add 64 (prm_send_amount prm) (wrapping_mul 64 budget (prm_tx_count prm))) = Inr gross"
    "tr_ongoing_swap t = Some (swap\<lparr>os_makers := makers\<rparr>\<lparr>os_params := (os_params (swap\<lparr>os_makers := makers\<rparr>))\<lparr>prm_send_amount := gross\<rparr>,
        os_payment := Some \<lparr>pq_address = address, pq_amount = prm_send_amount prm,
          pq_settlement_budget = wrapping_mul 64 budget (prm_tx_count prm),
          pq_taker_funding_fee_estimate = wrapping_mul 64 fee (prm_tx_count prm)\<rparr>\<rparr>)"
    by blast
  have q3: "tr_ongoing_swap t = Some (swap\<lparr>os_makers := makers, os_params := prm\<lparr>prm_send_amount := gross\<rparr>,
        os_payment := Some \<lparr>pq_address = address, pq_amount = prm_send_amount prm,
          pq_settlement_budget = wrapping_mul 64 budget (prm_tx_count prm),
          pq_taker_funding_fee_estimate = wrapping_mul 64 fee (prm_tx_count prm)\<rparr>\<rparr>)"
    using q(3) by (simp add: prm_def)
  show ?thesis
    by (rule exI [of _ budget], rule exI [of _ fee], rule exI [of _ hops], rule exI [of _ gross], rule exI [of _ makers])
      (intro conjI q(1,2) q3 m(2-4))
qed

text \<open>
  C16. A priced payment and the amount check later made on the last maker's contracts agree. When \<open>payment_prepare_route\<close> succeeds
  for a route, and negotiation keeps the offers' prices and hands each legacy maker the locktime of its place, then
  \<open>expected_amount_for_hop\<close> for the last maker, which replays all deductions from the solved gross amount, is exactly the receiver's
  amount plus the settlement budget of the quote.
\<close>

theorem payment_route_agrees:
  assumes "payment_prepare_route B E address s = (Inr (), t)" "tr_ongoing_swap s = Some swap" "os_makers swap \<noteq> []"
    and "tr_ongoing_swap t = Some priced" "route_negotiated (os_makers priced) makers"
  shows "\<exists>quote. os_payment priced = Some quote \<and> pq_amount quote = prm_send_amount (os_params swap)
    \<and> expected_amount_for_hop B (length makers - 1) (t\<lparr>tr_ongoing_swap := Some (priced\<lparr>os_makers := makers\<rparr>)\<rparr>)
        = Inr (Some (wrapping_add 64 (pq_amount quote) (pq_settlement_budget quote)))"
proof -
  define prm where "prm = os_params swap"
  define n where "n = length (os_makers swap)"
  obtain budget fee hops gross mks where
    *: "estimate_funding_tx_fee_sats B = Some fee"
    "solve_route_gross_sats hops (wrapping_mul 64 fee (prm_tx_count prm))
        (wrapping_add 64 (prm_send_amount prm) (wrapping_mul 64 budget (prm_tx_count prm))) = Inr gross"
    "length mks = n" "length hops = n"
    "\<forall>i<n. \<exists>offer. mc_offer (mks ! i) = Some offer \<and> hops ! i = from_offer offer (locktime_for (n - i - 1))"
    and t: "tr_ongoing_swap t = Some (swap\<lparr>os_makers := mks, os_params := prm\<lparr>prm_send_amount := gross\<rparr>,
        os_payment := Some \<lparr>pq_address = address, pq_amount = prm_send_amount prm,
          pq_settlement_budget = wrapping_mul 64 budget (prm_tx_count prm),
          pq_taker_funding_fee_estimate = wrapping_mul 64 fee (prm_tx_count prm)\<rparr>\<rparr>)"
    using payment_prepare_route_Inr [OF assms(1,2)] unfolding prm_def n_def by blast
  from t assms(4) have priced: "os_makers priced = mks" "prm_send_amount (os_params priced) = gross" "prm_tx_count (os_params priced) = prm_tx_count prm"
    "os_payment priced = Some \<lparr>pq_address = address, pq_amount = prm_send_amount prm,
          pq_settlement_budget = wrapping_mul 64 budget (prm_tx_count prm),
          pq_taker_funding_fee_estimate = wrapping_mul 64 fee (prm_tx_count prm)\<rparr>"
    by auto
  have len: "Suc (length makers - 1) = n" using assms(3,5) *(3) by (auto simp: route_negotiated_def priced(1) n_def)
  have "res_fold (replay_hop makers m) (Some gross) [0..<n] = Inr (Some (fold (\<lambda>h. hop_net_sats h m) hops gross))" for m
    using replay_priced [OF assms(5) [unfolded priced(1)], of hops n m gross] * by simp
  then have "res_fold (replay_hop makers (wrapping_mul 64 fee (prm_tx_count prm))) (Some gross) [0..<Suc (length makers - 1)]
      = Inr (Some (wrapping_add 64 (prm_send_amount prm) (wrapping_mul 64 budget (prm_tx_count prm))))"
    unfolding len using solve_route_forward [OF *(2)] by simp
  then show ?thesis using *(1) priced by (simp add: expected_amount_for_hop_def prm_def del: upt_Suc)
qed


section \<open>Pinned targets\<close>

definition pinned :: "script \<Rightarrow> nat \<Rightarrow> incoming_swapcoin \<Rightarrow> incoming_swapcoin" where
  "pinned spk per_coin coin = coin\<lparr>inc_payment_target := Some \<lparr>pt_script_pubkey = spk, pt_amount = inc_funding_amount coin - per_coin\<rparr>\<rparr>"

lemma stamp_coins_ok:
  assumes "\<forall>c \<in> set coins. per_coin + MIN_PAYMENT_OUTPUT_SATS \<le> inc_funding_amount c" "sum_list (map inc_funding_amount coins) < 2 ^ 64"
  shows "stamp_coins spk per_coin coins = (Inr (sum_list (map (\<lambda>c. inc_funding_amount c - per_coin) coins)), map (pinned spk per_coin) coins)"
  using assms
proof (induction coins)
  case (Cons c coins)
  have le: "sum_list (map (\<lambda>c. inc_funding_amount c - per_coin) coins) \<le> sum_list (map inc_funding_amount coins)"
    by (intro sum_list_mono) simp
  then have "wrapping_add 64 (inc_funding_amount c - per_coin) (sum_list (map (\<lambda>c. inc_funding_amount c - per_coin) coins))
      = inc_funding_amount c - per_coin + sum_list (map (\<lambda>c. inc_funding_amount c - per_coin) coins)"
    using Cons.prems(2) by (simp add: wrapping_add_def)
  then show ?case using Cons by (auto simp: checked_sub_def pinned_def)
qed simp

lemma stamp_coins_fail:
  assumes "\<not> (\<forall>c \<in> set coins. per_coin + MIN_PAYMENT_OUTPUT_SATS \<le> inc_funding_amount c)"
  shows "\<exists>e. fst (stamp_coins spk per_coin coins) = Inl e"
  using assms
proof (induction coins)
  case (Cons c coins)
  show ?case
  proof (cases "per_coin + MIN_PAYMENT_OUTPUT_SATS \<le> inc_funding_amount c")
    case True
    with Cons obtain e where "fst (stamp_coins spk per_coin coins) = Inl e" by auto
    then show ?thesis by (auto simp: checked_sub_def split: prod.splits)
  next
    case False
    then show ?thesis by (auto simp: checked_sub_def)
  qed
qed simp

lemma sum_list_minus_const:
  fixes k :: nat
  assumes "\<forall>x \<in> set xs. k \<le> f x"
  shows "sum_list (map (\<lambda>x. f x - k) xs) + length xs * k = sum_list (map f xs)"
  using assms by (induction xs) auto

text \<open>
  C17. Pinning the receiver is exact. For a payment swap whose incoming coins hold less than \<open>2^64\<close> satoshis in all,
  \<open>payment_stamp_targets\<close> succeeds exactly when there are coins, the settlement budget splits evenly over them, every coin can carry
  its share and a non-dust output, and their total is the receiver's amount plus the budget; it then pins on each coin the receiver's
  script with the coin's amount less its share, and those outputs total the receiver's amount.
\<close>

theorem payment_targets_exact:
  assumes "tr_ongoing_swap s = Some swap" "os_payment swap = Some quote" "sum_list (map inc_funding_amount (os_incoming swap)) < 2 ^ 64"
    and "per_coin = pq_settlement_budget quote div length (os_incoming swap)"
  shows "(payment_stamp_targets E s = (Inr (), t) \<longleftrightarrow>
      os_incoming swap \<noteq> [] \<and> length (os_incoming swap) dvd pq_settlement_budget quote
      \<and> (\<forall>c \<in> set (os_incoming swap). per_coin + MIN_PAYMENT_OUTPUT_SATS \<le> inc_funding_amount c)
      \<and> sum_list (map inc_funding_amount (os_incoming swap)) = pq_amount quote + pq_settlement_budget quote
      \<and> t = s\<lparr>tr_ongoing_swap := Some (swap\<lparr>os_incoming := map (pinned (tv_script_pubkey E (pq_address quote)) per_coin) (os_incoming swap)\<rparr>)\<rparr>)
    \<and> (payment_stamp_targets E s = (Inr (), t) \<longrightarrow>
        sum_list (map (\<lambda>c. inc_funding_amount c - per_coin) (os_incoming swap)) = pq_amount quote)" (is "(?L \<longleftrightarrow> ?R) \<and> _")
proof -
  let ?coins = "os_incoming swap" and ?spk = "tv_script_pubkey E (pq_address quote)" and ?outs = "\<lambda>c. inc_funding_amount c - per_coin"
  have run: "payment_stamp_targets E s = (if ?coins = [] then (Inl (TGeneral ''Payment swap produced no incoming swapcoins to settle''), s)
     else if pq_settlement_budget quote mod length ?coins \<noteq> 0 then (Inl (TGeneral ''Settlement budget does not divide across the swapcoins''), s)
     else case stamp_coins ?spk per_coin ?coins of (r, coins) \<Rightarrow>
       (res_bind r (\<lambda>total. ensure (total = pq_amount quote) (TGeneral ''Settlement outputs do not total the payment amount'')),
        s\<lparr>tr_ongoing_swap := Some (swap\<lparr>os_incoming := coins\<rparr>)\<rparr>))"
    using assms(1,2,4)
    by (auto simp: payment_stamp_targets_def act_bind_def get_swap_def taker_swap_state_def swap_state_mut_def act_ensure_def act_lift_def ensure_def
        res_bind_def Let_def split: prod.splits sum.splits)
  have main: "?L \<longleftrightarrow> ?coins \<noteq> [] \<and> length ?coins dvd pq_settlement_budget quote
      \<and> (\<forall>c \<in> set ?coins. per_coin + MIN_PAYMENT_OUTPUT_SATS \<le> inc_funding_amount c) \<and> sum_list (map ?outs ?coins) = pq_amount quote
      \<and> t = s\<lparr>tr_ongoing_swap := Some (swap\<lparr>os_incoming := map (pinned ?spk per_coin) ?coins\<rparr>)\<rparr>"
  proof (cases "\<forall>c \<in> set ?coins. per_coin + MIN_PAYMENT_OUTPUT_SATS \<le> inc_funding_amount c")
    case True
    then show ?thesis by (auto simp: run stamp_coins_ok [OF True assms(3)] ensure_def dvd_eq_mod_eq_0)
  next
    case False
    from stamp_coins_fail [OF False, of ?spk] obtain e where "fst (stamp_coins ?spk per_coin ?coins) = Inl e" by blast
    then show ?thesis using False by (auto simp: run split: prod.splits if_splits)
  qed
  have "sum_list (map ?outs ?coins) + pq_settlement_budget quote = sum_list (map inc_funding_amount ?coins)"
    if "length ?coins dvd pq_settlement_budget quote" "\<forall>c \<in> set ?coins. per_coin + MIN_PAYMENT_OUTPUT_SATS \<le> inc_funding_amount c"
    using sum_list_minus_const [of ?coins per_coin inc_funding_amount] that assms(4) by (auto dest: add_leD1)
  with main show ?thesis by auto
qed

section \<open>Concrete runs\<close>

definition sample_env :: "unit taker_env" where
  "sample_env = \<lparr>tv_connect = (\<lambda>_ x. (Inr 0, x)), tv_send = (\<lambda>_ _ x. (Inr (), x)), tv_read = (\<lambda>_ x. (Inl TIO, x)), tv_fresh = (\<lambda>x. ([], x)),
     tv_poll = (\<lambda>_ x. (Inr None, x)), tv_block_count = (\<lambda>x. (Inr 800000, x)), tv_require_network = Some, tv_script_pubkey = (\<lambda>_. [1, 2, 3]),
     tv_now_secs = (\<lambda>_. 0), tv_cbor = (\<lambda>_. None, \<lambda>_. None)\<rparr>"

definition sample_offer :: offer where
  "sample_offer = \<lparr>of_base_fee = 1000, of_amount_relative_fee_pct = 5 / 2, of_time_relative_fee_pct = 1 / 200, of_required_confirms = 1,
     of_minimum_locktime = 20, of_max_size = 2 ^ 45, of_min_size = 10000, of_tweakable_point = compressed_key (2 # replicate 32 5),
     of_fidelity = \<lparr>fp_bond = \<lparr>fb_outpoint = \<lparr>op_txid = [], op_vout = 0\<rparr>, fb_amount = 0, fb_lock_time = 0, fb_pubkey = compressed_key [],
       fb_conf_height = None, fb_is_spent = False, fb_bond_index = 0, fb_tx = None\<rparr>, fp_cert_hash = [], fp_cert_sig = []\<rparr>,
     of_tweak_chain_code = []\<rparr>"

definition sample_route_maker :: maker_connection where
  "sample_route_maker = \<lparr>mc_address = ''a.onion'', mc_protocol = Taproot, mc_tweakable_point = None, mc_offer = Some sample_offer,
     mc_negotiated_timelock = 0, mc_exchange = exchange_default Taproot, mc_finalization = finalization_default\<rparr>"

definition sample_pay_swap :: ongoing_swap where
  "sample_pay_swap = \<lparr>os_id = ''s'', os_preimage = replicate 32 1, os_params = swap_params_new Taproot 500000 1,
     os_makers = [sample_route_maker], os_outgoing = [], os_incoming = [], os_watchonly = [], os_multisig_nonces = [], os_hashlock_nonces = [],
     os_spare_makers = [], os_phase = MakersDiscovered, os_reference_height = None, os_payment = None\<rparr>"

definition rich_wallet :: wallet where
  "rich_wallet = empty_wallet\<lparr>w_store := empty_store\<lparr>ws_utxo_cache := [(\<lparr>op_txid = [9], op_vout = 0\<rparr>,
     \<lparr>ut_txid = [9], ut_vout = 0, ut_spk = [], ut_amount = 2 ^ 45, ut_witness_script = None, ut_descriptor = None\<rparr>, SeedCoin ''m/0'' (2 ^ 45) P2TR)]\<rparr>\<rparr>"

definition sample_taker :: "ongoing_swap \<Rightarrow> unit taker" where
  "sample_taker swap = \<lparr>tr_wallet = rich_wallet, tr_ongoing_swap = Some swap, tr_tracker = sample_swap_tracker, tr_world = ()\<rparr>"

lemma rich_balances: "\<exists>b. get_balances (w_store rich_wallet) = Inr b \<and> bal_spendable b = 2 ^ 45"
  by (simp add: get_balances_def rich_wallet_def empty_store_def list_descriptor_utxo_spend_info_def list_live_timelock_contract_spend_info_def
      list_swept_incoming_swap_utxos_def list_fidelity_spend_info_def list_all_utxo_spend_info_def sum_utxo_amounts_def checked_add_def)

lemma sample_solve: "\<exists>g. solve_route_gross_sats [sample_terms] 550 500310 = Inr g \<and> 500310 \<le> g \<and> g \<le> 2 ^ 44"
proof -
  obtain g where g: "hop_gross_for_net sample_terms 550 500310 = Inr g" "g \<le> 2 ^ 44"
    using hop_gross_total [OF sample_terms_fair, of 500310] by auto
  from hop_gross_sound [OF g(1)] g show ?thesis by (auto simp: solve_route_gross_sats_def)
qed

lemma sample_price: "\<exists>t priced. payment_prepare_route sample_lib sample_env ''r'' (sample_taker sample_pay_swap) = (Inr (), t)
   \<and> tr_ongoing_swap t = Some priced \<and> os_makers priced = [sample_route_maker]"
proof -
  from sample_solve obtain g where g: "solve_route_gross_sats [sample_terms] 550 500310 = Inr g" "500310 \<le> g" "g \<le> 2 ^ 44" by blast
  from rich_balances obtain b where b: "get_balances (w_store rich_wallet) = Inr b" "bal_spendable b = 2 ^ 45" by blast
  have fee: "estimate_funding_tx_fee_sats sample_lib = Some 550" "payment_settlement_budget_sats sample_lib Taproot = Some 310" by (simp_all add: estimate_funding_tx_fee_sats_def payment_settlement_budget_sats_def calculate_fee_sats_def get_min_fee_rate_def MIN_FEE_RATE_def sample_lib_def)
  have offer_terms: "from_offer sample_offer (locktime_for 0) = sample_terms"
    by (simp add: from_offer_def sample_offer_def sample_terms_def locktime_for_eq)
  have ok: "validate_offer sample_offer a = Inr ()" if "500000 \<le> a" "a \<le> 2 ^ 44" for a
    using that by (simp add: validate_offer_def sample_offer_def ensure_def)
  define prm where "prm = swap_params_new Taproot 500000 1"
  let ?s = "sample_taker sample_pay_swap"
  have s: "tr_ongoing_swap ?s = Some sample_pay_swap" "w_store (tr_wallet ?s) = w_store rich_wallet" by (simp_all add: sample_taker_def)
  have swap: "os_makers sample_pay_swap = [sample_route_maker]" "os_params sample_pay_swap = prm"
    by (simp_all add: sample_pay_swap_def prm_def)
  have maker: "mc_offer sample_route_maker = Some sample_offer" by (simp add: sample_route_maker_def)
  have same: "sample_route_maker\<lparr>mc_offer := Some sample_offer\<rparr> = sample_route_maker" "?s\<lparr>tr_ongoing_swap := Some sample_pay_swap\<rparr> = ?s"
    "sample_pay_swap\<lparr>os_makers := [sample_route_maker]\<rparr> = sample_pay_swap"
    by (simp_all add: sample_route_maker_def sample_taker_def sample_pay_swap_def)
  have hop: "payment_hop sample_env 500000 1 0 ?s = (Inr sample_terms, ?s)"
    by (simp add: payment_hop_def act_simps taker_simps s swap maker ok offer_terms same)
  let ?swap' = "sample_pay_swap\<lparr>os_params := prm\<lparr>prm_send_amount := g\<rparr>,
    os_payment := Some \<lparr>pq_address = ''r'', pq_amount = 500000, pq_settlement_budget = 310, pq_taker_funding_fee_estimate = 550\<rparr>\<rparr>"
  have prms: "prm_send_amount prm = 500000" "prm_tx_count prm = 1"
    "prm_protocol prm = Taproot" by (simp_all add: prm_def swap_params_new_def)
  have money: "checked_add 64 g FUNDING_FEE_BUFFER = Some (g + FUNDING_FEE_BUFFER)" "g + FUNDING_FEE_BUFFER \<le> 2 ^ 45" "500000 \<le> g"
    using g by (simp_all add: checked_add_def FUNDING_FEE_BUFFER_def)
  have "payment_quote_route sample_lib ''r'' prm [sample_terms] ?s
      = (Inr (), ?s\<lparr>tr_ongoing_swap := Some ?swap'\<rparr>)"
    using g(1) b money ok [OF money(3) g(3)]
    by (simp add: payment_quote_route_def Let_def act_simps taker_simps s swap maker fee prms wrapping_mul_def wrapping_add_def ok_or_def not_less
        res_all_def)
  then have "payment_prepare_route sample_lib sample_env ''r'' ?s = (Inr (), ?s\<lparr>tr_ongoing_swap := Some ?swap'\<rparr>)"
    using hop by (simp add: payment_prepare_route_def act_simps taker_simps s swap prms)
  then show ?thesis by (intro exI conjI) (assumption, auto simp: swap)
qed

theorem payment_route_agrees_witness:
  "\<exists>t priced quote. payment_prepare_route sample_lib sample_env ''r'' (sample_taker sample_pay_swap) = (Inr (), t)
     \<and> os_payment priced = Some quote \<and> pq_amount quote = 500000
     \<and> expected_amount_for_hop sample_lib 0 (t\<lparr>tr_ongoing_swap := Some (priced\<lparr>os_makers := [sample_route_maker]\<rparr>)\<rparr>)
        = Inr (Some (wrapping_add 64 (pq_amount quote) (pq_settlement_budget quote)))"
proof -
  from sample_price obtain t priced where
    run: "payment_prepare_route sample_lib sample_env ''r'' (sample_taker sample_pay_swap) = (Inr (), t)"
    and t: "tr_ongoing_swap t = Some priced" "os_makers priced = [sample_route_maker]" by blast
  have "route_negotiated (os_makers priced) [sample_route_maker]"
    by (simp add: t route_negotiated_def same_price_def sample_route_maker_def)
  from payment_route_agrees [OF run _ _ t(1) this, of sample_pay_swap] run show ?thesis
    by (fastforce simp: sample_taker_def sample_pay_swap_def swap_params_new_def)
qed

definition sample_settled_coin :: "nat \<Rightarrow> incoming_swapcoin" where
  "sample_settled_coin v = sample_coin\<lparr>inc_funding_amount := v\<rparr>"

definition sample_paid_swap :: ongoing_swap where
  "sample_paid_swap = sample_pay_swap\<lparr>os_incoming := [sample_settled_coin 200155, sample_settled_coin 300155],
     os_payment := Some \<lparr>pq_address = ''r'', pq_amount = 500000, pq_settlement_budget = 310, pq_taker_funding_fee_estimate = 550\<rparr>\<rparr>"

theorem payment_targets_exact_witness:
  "payment_stamp_targets sample_env (sample_taker sample_paid_swap) = (Inr (), sample_taker (sample_paid_swap
     \<lparr>os_incoming := map (pinned [1, 2, 3] 155) [sample_settled_coin 200155, sample_settled_coin 300155]\<rparr>))"
  using payment_targets_exact [of "sample_taker sample_paid_swap" sample_paid_swap
      "\<lparr>pq_address = ''r'', pq_amount = 500000, pq_settlement_budget = 310, pq_taker_funding_fee_estimate = 550\<rparr>" 155 sample_env]
  by (simp add: sample_taker_def sample_paid_swap_def sample_settled_coin_def sample_env_def MIN_PAYMENT_OUTPUT_SATS_def numeral_2_eq_2 [symmetric])

end
