(* ===== verification/TakerVerification.thy ===== *)
theory TakerVerification
  imports TakerPayment MakerTaproot
begin

text \<open>
  What the taker checks of the makers' messages: \<open>taker/legacy_verification.rs\<close> and \<open>taker/taproot_verification.rs\<close>, with the
  check of the taproot hashlock key in \<open>exchange_taproot\<close>. The lemmas say what contracts that pass guarantee,
  that contracts built as the protocol asks do pass, and which deviations the legacy checks let through.
\<close>

section \<open>Legacy contracts\<close>

text \<open>A protocol error turned into a message of the taker; a panic stays a panic.\<close>

definition general_err :: "string \<Rightarrow> protocol_error \<Rightarrow> taker_error" where
  "general_err msg e = (if e = PPanic then TPanic else TGeneral msg)"

definition taker_verify_sender_sig :: "btc \<Rightarrow> ecdsa_sig \<times> outgoing_swapcoin \<Rightarrow> taker_error + unit" where
  "taker_verify_sender_sig B = (\<lambda>(sig, swapcoin).
     res_bind (ok_or (og_other_pubkey swapcoin) (TGeneral ''Outgoing swapcoin missing other_pubkey for sig verification'')) (\<lambda>other_pubkey.
     res_bind (ok_or (og_my_pubkey swapcoin) (TGeneral ''Outgoing swapcoin missing my_pubkey for sig verification'')) (\<lambda>my_pubkey.
     let multisig_redeemscript = create_multisig_redeemscript B my_pubkey other_pubkey in
     map_err (general_err ''Invalid sender contract signature from maker'')
       (verify_contract_tx_sig B (og_contract_tx swapcoin) multisig_redeemscript (og_funding_amount swapcoin) other_pubkey (sig_inner sig)))))"

definition verify_sender_sigs :: "btc \<Rightarrow> ecdsa_sig list \<Rightarrow> 'x taker \<Rightarrow> taker_error + unit" where
  "verify_sender_sigs B sigs s =
     res_bind (taker_swap_state s) (\<lambda>swap. res_all (taker_verify_sender_sig B) (zip sigs (os_outgoing swap)))"

definition sig_by_either_key :: "btc \<Rightarrow> string \<Rightarrow> ecdsa_sig \<Rightarrow> transaction \<Rightarrow> sender_contract_tx_info \<Rightarrow> taker_error + unit" where
  "sig_by_either_key B msg sig tx info =
     res_bind (map_err from_protocol_error (read_pubkeys_from_multisig_redeemscript B (sct_multisig_redeemscript info))) (\<lambda>(pubkey1, pubkey2).
     let valid = (is_ok (verify_contract_tx_sig B tx (sct_multisig_redeemscript info) (sct_funding_amount info) pubkey1 (sig_inner sig))
         \<or> is_ok (verify_contract_tx_sig B tx (sct_multisig_redeemscript info) (sct_funding_amount info) pubkey2 (sig_inner sig)))
     in ensure valid (TGeneral msg))"

definition verify_sender_sigs_from_info :: "btc \<Rightarrow> ecdsa_sig list \<Rightarrow> sender_contract_tx_info list \<Rightarrow> taker_error + unit" where
  "verify_sender_sigs_from_info B sigs senders_info =
     res_all (\<lambda>(sig, info). sig_by_either_key B ''Invalid forwarded sender contract signature from maker'' sig (sct_contract_tx info) info)
       (zip sigs senders_info)"

definition verify_receiver_sigs ::
    "btc \<Rightarrow> ecdsa_sig list \<Rightarrow> transaction list \<Rightarrow> sender_contract_tx_info list \<Rightarrow> taker_error + unit" where
  "verify_receiver_sigs B sigs receivers_txs prev_senders_info =
     (if length sigs \<noteq> length receivers_txs \<or> length sigs \<noteq> length prev_senders_info
      then Inl (TGeneral ''Wrong number of receiver signatures'')
      else res_all (\<lambda>((sig, tx), info). sig_by_either_key B ''Invalid receiver contract signature from maker'' sig tx info)
        (zip (zip sigs receivers_txs) prev_senders_info))"

definition check_sender_funding :: "btc \<Rightarrow> sender_contract_tx_info \<Rightarrow> taker_error + unit" where
  "check_sender_funding B info =
     (case tx_input (sct_contract_tx info) of
        [] \<Rightarrow> Inl (TGeneral ''Sender contract contract_tx has no inputs'')
      | inp # _ \<Rightarrow>
        res_bind (ensure (op_txid (ti_prev inp) = b_txid B (sct_funding_tx info))
          (TGeneral ''Sender contract contract_tx references wrong funding tx'')) (\<lambda>_.
        res_bind (ok_or (nth_opt (tx_output (sct_funding_tx info)) (op_vout (ti_prev inp)))
          (TGeneral ''Sender contract references missing funding output'')) (\<lambda>funding_output.
        res_bind (map_err from_protocol_error (redeemscript_to_scriptpubkey B (sct_multisig_redeemscript info))) (\<lambda>expected_multisig_spk.
        res_bind (ensure (to_spk funding_output = expected_multisig_spk)
          (TGeneral ''Sender contract funding output does not pay to advertised multisig'')) (\<lambda>_.
        ensure (to_value funding_output = sct_funding_amount info)
          (TGeneral ''Sender contract funding output value does not match advertised amount''))))))"

definition check_sender_contract ::
    "btc \<Rightarrow> bytes \<Rightarrow> public_key list \<Rightarrow> public_key list \<Rightarrow> nat \<Rightarrow> nat \<times> sender_contract_tx_info \<Rightarrow> taker_error + unit" where
  "check_sender_contract B expected_hashvalue next_multisig_pubkeys next_hashlock_pubkeys refund_locktime = (\<lambda>(i, info).
     res_bind (map_err (general_err ''Sender contract has invalid multisig redeemscript'')
       (check_reedemscript_is_multisig B (sct_multisig_redeemscript info))) (\<lambda>_.
     res_bind (check_sender_funding B info) (\<lambda>_.
     res_bind (map_err (general_err ''Sender contract has invalid contract tx'')
       (validate_contract_tx B (sct_contract_tx info) None (sct_contract_redeemscript info))) (\<lambda>_.
     res_bind (map_err (general_err ''Sender contract has unreadable hashvalue'')
       (read_hashvalue_from_contract B (sct_contract_redeemscript info))) (\<lambda>hashvalue.
     res_bind (ensure (hashvalue = expected_hashvalue) (TGeneral ''Sender contract has wrong hashvalue'')) (\<lambda>_.
     res_bind (map_err (general_err ''Sender contract has unreadable locktime'')
       (read_contract_locktime B (sct_contract_redeemscript info))) (\<lambda>locktime.
     res_bind (ensure (locktime \<noteq> 0) (TGeneral ''Sender contract has zero locktime'')) (\<lambda>_.
     res_bind (ensure (locktime = refund_locktime)
       (TGeneral ''Sender contract locktime does not match requested refund locktime'')) (\<lambda>_.
     res_bind (if next_multisig_pubkeys = [] then Inr () else
         (let expected_pubkey = next_multisig_pubkeys ! (i mod length next_multisig_pubkeys) in
          res_bind (map_err from_protocol_error (read_pubkeys_from_multisig_redeemscript B (sct_multisig_redeemscript info))) (\<lambda>(pubkey1, pubkey2).
          ensure (pubkey1 = expected_pubkey \<or> pubkey2 = expected_pubkey)
            (TGeneral ''Sender contract multisig does not contain expected next-hop pubkey'')))) (\<lambda>_.
     if next_hashlock_pubkeys = [] then Inr () else
       (let expected_hashlock = next_hashlock_pubkeys ! (i mod length next_hashlock_pubkeys) in
        res_bind (map_err (general_err ''Sender contract has unreadable hashlock pubkey'')
          (read_hashlock_pubkey_from_contract B (sct_contract_redeemscript info))) (\<lambda>contract_hashlock.
        ensure (contract_hashlock = expected_hashlock)
          (TGeneral ''Sender contract hashlock pubkey does not match expected next-hop key'')))))))))))))"

definition check_expected_total :: "amount list \<Rightarrow> amount option \<Rightarrow> taker_error + unit" where
  "check_expected_total amounts expected_amount = (case expected_amount of
     None \<Rightarrow> Inr ()
   | Some expected \<Rightarrow>
     res_bind (map_err (\<lambda>_. TGeneral ''Maker contracts claim an amount above the 21M cap'') (sum_claimed_amounts amounts)) (\<lambda>total.
     ensure (total = expected) (TGeneral ''Maker contracts total does not match expected'')))"

definition verify_maker_sender_contracts ::
    "btc \<Rightarrow> sender_contract_tx_info list \<Rightarrow> public_key list \<Rightarrow> public_key list \<Rightarrow> nat \<Rightarrow> amount option \<Rightarrow> 'x taker \<Rightarrow> taker_error + unit" where
  "verify_maker_sender_contracts B senders_info next_multisig_pubkeys next_hashlock_pubkeys refund_locktime expected_amount s =
     res_bind (taker_swap_state s) (\<lambda>swap.
     res_bind (ensure (length senders_info = prm_tx_count (os_params swap)) (TGeneral ''Wrong number of maker sender contracts'')) (\<lambda>_.
     res_bind (res_all (check_sender_contract B (b_hash160 B (os_preimage swap)) next_multisig_pubkeys next_hashlock_pubkeys refund_locktime)
       (enumerate 0 senders_info)) (\<lambda>_.
     check_expected_total (map sct_funding_amount senders_info) expected_amount)))"

definition check_receiver_contract :: "btc \<Rightarrow> txid list \<Rightarrow> script list \<Rightarrow> nat \<times> transaction \<Rightarrow> taker_error + unit" where
  "check_receiver_contract B funding_txids contract_redeemscripts = (\<lambda>(i, tx).
     case (tx_input tx, tx_output tx) of
       ([inp], [_]) \<Rightarrow>
         res_bind (ensure (op_txid (ti_prev inp) \<in> set funding_txids)
           (TGeneral ''Receiver contract tx does not spend from expected funding tx'')) (\<lambda>_.
         case nth_opt contract_redeemscripts i of
           None \<Rightarrow> Inr ()
         | Some expected_rs \<Rightarrow>
           map_err (general_err ''Receiver contract tx output does not pay to expected P2WSH'') (validate_contract_tx B tx None expected_rs))
     | _ \<Rightarrow> Inl (TGeneral ''Receiver contract tx has invalid input/output count''))"

definition verify_maker_receiver_contracts :: "btc \<Rightarrow> transaction list \<Rightarrow> transaction list \<Rightarrow> script list \<Rightarrow> taker_error + unit" where
  "verify_maker_receiver_contracts B receivers_contract_txs funding_txs contract_redeemscripts =
     res_all (check_receiver_contract B (map (b_txid B) funding_txs) contract_redeemscripts) (enumerate 0 receivers_contract_txs)"

section \<open>Taproot contracts\<close>

definition verify_internal_key :: "btc \<Rightarrow> xonly \<Rightarrow> public_key \<Rightarrow> public_key \<Rightarrow> taker_error + unit" where
  "verify_internal_key B claimed maker_pubkey next_hop_pubkey =
     res_bind (map_err (general_err ''Taproot internal key aggregation failed'') (aggregate_ordered B maker_pubkey next_hop_pubkey)) (\<lambda>expected.
     ensure (claimed = expected) (TGeneral ''Taproot internal key does not match the expected MuSig2 aggregate''))"

fun taker_hashlock_template :: "bytes \<Rightarrow> instr list \<Rightarrow> bool" where
  "taker_hashlock_template expected_hash [Op a, PushBytes hash, Op b, PushBytes pubkey, Op c] =
     (a = 0xa8 \<and> b = 0x88 \<and> c = 0xac \<and> hash = expected_hash \<and> length pubkey = 32)"
| "taker_hashlock_template _ _ = False"

text \<open>The bytes are read little-endian; the four widths are the source's four cases.\<close>

definition maker_locktime_value :: "instr \<Rightarrow> taker_error + nat" where
  "maker_locktime_value first = (case first of
     PushBytes bytes \<Rightarrow> (case bytes of
         [] \<Rightarrow> Inl (TGeneral ''Taproot timelock script has empty locktime'')
       | [a] \<Rightarrow> Inr (unat a)
       | [a, b] \<Rightarrow> Inr (unat a + 256 * unat b)
       | [a, b, c] \<Rightarrow> Inr (unat a + 256 * unat b + 65536 * unat c)
       | [a, b, c, d] \<Rightarrow> Inr (unat a + 256 * unat b + 65536 * unat c + 16777216 * unat d)
       | _ \<Rightarrow> Inl (TGeneral ''Taproot timelock has unexpected byte length''))
   | Op opcode \<Rightarrow>
       if opcode = 0x4f then Inl (TGeneral ''Taproot timelock value is non-positive'')
       else if 0x51 \<le> unat opcode \<and> unat opcode \<le> 0x60 then Inr (unat opcode - 0x50)
       else Inl (TGeneral ''Taproot timelock script doesn't start with a locktime''))"

definition check_maker_timelock :: "btc \<Rightarrow> script \<Rightarrow> nat \<Rightarrow> taker_error + unit" where
  "check_maker_timelock B timelock_script expected_locktime =
     res_bind (ensure (length (b_instructions B timelock_script) = 5)
       (TGeneral ''Taproot timelock script has wrong number of instructions, expected 5'')) (\<lambda>_.
     res_bind (ok_or (those (b_instructions B timelock_script)) (TGeneral ''Taproot timelock script parse error'')) (\<lambda>timelock_instructions.
     res_bind (ensure (timelock_template_ok timelock_instructions) (TGeneral ''Taproot timelock script has invalid template'')) (\<lambda>_.
     res_bind (case b_instructions B timelock_script of
         [] \<Rightarrow> Inl (TGeneral ''Taproot timelock script is empty'')
       | first # _ \<Rightarrow> res_bind (ok_or first (TGeneral ''Taproot timelock script parse error'')) maker_locktime_value) (\<lambda>maker_locktime_val.
     res_bind (ensure (maker_locktime_val \<noteq> 0) (TGeneral ''Taproot timelock value is zero'')) (\<lambda>_.
     ensure (maker_locktime_val = expected_locktime) (TGeneral ''Taproot timelock value does not match expected''))))))"

definition check_maker_taproot_output ::
    "btc \<Rightarrow> taproot_contract_data \<Rightarrow> public_key \<Rightarrow> nat \<Rightarrow> nat \<times> transaction \<Rightarrow> taker_error + unit" where
  "check_maker_taproot_output B contract expected_next_hop_pubkey expected_locktime = (\<lambda>(i, tx).
     res_bind (ok_or (nth_opt (tcd_timelock_scripts contract) i) TPanic) (\<lambda>timelock_script.
     res_bind (ok_or (nth_opt (tcd_internal_keys contract) i) TPanic) (\<lambda>internal_key.
     res_bind (ok_or (nth_opt (tcd_pubkeys contract) i) TPanic) (\<lambda>pubkey.
     res_bind (verify_internal_key B internal_key pubkey expected_next_hop_pubkey) (\<lambda>_.
     res_bind (check_maker_timelock B timelock_script expected_locktime) (\<lambda>_.
     res_bind (ok_or (b_taproot B (tcd_hashlock_script contract) timelock_script internal_key)
       (TGeneral ''Taproot tree finalization failed'')) (\<lambda>(merkle_root, tap_tweak).
     res_bind (map_err (general_err ''Taproot tweak is invalid'') (tap_tweak_scalar B contract i)) (\<lambda>claimed_tweak.
     res_bind (ensure (claimed_tweak = tap_tweak) (TGeneral ''Taproot tweak does not match internal key and script tree'')) (\<lambda>_.
     res_bind (ensure (tx_input tx \<noteq> []) (TGeneral ''Taproot contract tx has no inputs'')) (\<lambda>_.
     case tx_output tx of
       [] \<Rightarrow> Inl (TGeneral ''Taproot contract tx has no outputs'')
     | out # _ \<Rightarrow>
       res_bind (ensure (to_spk out = b_p2tr B internal_key merkle_root)
         (TGeneral ''Taproot contract tx output scriptpubkey does not match expected P2TR address'')) (\<lambda>_.
       res_bind (ok_or (nth_opt (tcd_amounts contract) i) TPanic) (\<lambda>amount.
       ensure (to_value out = amount) (TGeneral ''Taproot claimed amount does not match output value'')))))))))))))"

definition verify_maker_taproot_contract ::
    "btc \<Rightarrow> taproot_contract_data \<Rightarrow> public_key \<Rightarrow> nat \<Rightarrow> amount option \<Rightarrow> 'x taker \<Rightarrow> taker_error + unit" where
  "verify_maker_taproot_contract B contract expected_next_hop_pubkey expected_locktime expected_amount s =
     res_bind (ensure (tcd_contract_txs contract \<noteq> []) (TGeneral ''Maker sent empty Taproot contract data'')) (\<lambda>_.
     res_bind (ensure (length (tcd_contract_txs contract) = length (tcd_amounts contract))
       (TGeneral ''Taproot contract_txs count doesn't match amounts count'')) (\<lambda>_.
     res_bind (res_all (\<lambda>amount. ensure (amount \<noteq> 0) (TGeneral ''Taproot contract amount is zero'')) (tcd_amounts contract)) (\<lambda>_.
     res_bind (taker_swap_state s) (\<lambda>swap.
     let expected_hash = b_sha256 B (os_preimage swap) in
     res_bind (map_err (general_err ''Taproot hashlock script is invalid'') (extract_hash_from_hashlock B (tcd_hashlock_script contract))) (\<lambda>actual_hash.
     res_bind (ensure (actual_hash = expected_hash) (TGeneral ''Taproot hashlock script has wrong hash'')) (\<lambda>_.
     res_bind (ensure (length (b_instructions B (tcd_hashlock_script contract)) = 5)
       (TGeneral ''Taproot hashlock script has wrong number of instructions, expected 5'')) (\<lambda>_.
     res_bind (ok_or (those (b_instructions B (tcd_hashlock_script contract))) (TGeneral ''Taproot hashlock script parse error'')) (\<lambda>hashlock_instructions.
     res_bind (ensure (taker_hashlock_template expected_hash hashlock_instructions)
       (TGeneral ''Taproot hashlock script has invalid template'')) (\<lambda>_.
     let n = length (tcd_contract_txs contract) in
     res_bind (ensure (length (tcd_timelock_scripts contract) = n \<and> length (tcd_pubkeys contract) = n
         \<and> length (tcd_internal_keys contract) = n \<and> length (tcd_tap_tweaks contract) = n)
       (TGeneral ''Taproot per-contract vectors have inconsistent lengths'')) (\<lambda>_.
     res_bind (res_all (check_maker_taproot_output B contract expected_next_hop_pubkey expected_locktime)
       (enumerate 0 (tcd_contract_txs contract))) (\<lambda>_.
     check_expected_total (tcd_amounts contract) expected_amount)))))))))))"

text \<open>
  The check \<open>exchange_taproot\<close> adds: the hashlock key of a maker that is not the last is the next maker's, derived from
  its point and nonce when both are known; that of the last maker is the taker's own.
\<close>

definition check_hashlock_recipient ::
    "btc \<Rightarrow> taproot_contract_data \<Rightarrow> nat \<Rightarrow> nat \<Rightarrow> seckey list \<Rightarrow> maker_connection list \<Rightarrow> public_key \<Rightarrow> taker_error + unit" where
  "check_hashlock_recipient B contract i num_makers hashlock_nonces makers my_pubkey =
     (if i + 1 < num_makers then
        res_bind (ok_or (nth_opt makers (i + 1)) TPanic) (\<lambda>next.
        case (nth_opt hashlock_nonces (i + 1), mc_tweakable_point next) of
          (Some nonce, Some next_tp) \<Rightarrow>
            map_err (general_err ''Taproot hashlock pubkey verification failed'')
              (check_taproot_hashlock_has_pubkey B (tcd_hashlock_script contract) next_tp nonce)
        | _ \<Rightarrow> Inr ())
      else (case nth_opt (b_instructions B (tcd_hashlock_script contract)) 3 of
          Some (Some (PushBytes pk_bytes)) \<Rightarrow>
            res_bind (ok_or (b_xonly_from_slice B pk_bytes) (TGeneral ''Last maker Taproot hashlock has invalid pubkey'')) (\<lambda>script_xonly.
            ensure (script_xonly = b_xonly B (pk_inner my_pubkey))
              (TGeneral ''Last maker Taproot hashlock pubkey doesn't match taker's key''))
        | _ \<Rightarrow> Inr ()))"

section \<open>Accepted taproot contracts\<close>

lemma maker_locktime_value_Inr: "maker_locktime_value first = Inr v \<longleftrightarrow> timelock_value first = Inr v"
proof (cases first)
  case (PushBytes bytes)
  consider "bytes = []" | a where "bytes = [a]" | a b where "bytes = [a, b]" | a b c where "bytes = [a, b, c]"
    | a b c d where "bytes = [a, b, c, d]" | a b c d e r where "bytes = a # b # c # d # e # r"
    by (metis list.exhaust)
  then show ?thesis by cases (simp_all add: PushBytes maker_locktime_value_def timelock_value_def add.assoc)
qed (simp add: maker_locktime_value_def timelock_value_def)

lemma check_maker_timelock_iff: "check_maker_timelock B s t = Inr () \<longleftrightarrow> check_timelock_script B s t = Inr ()"
proof
  assume "check_maker_timelock B s t = Inr ()"
  then show "check_timelock_script B s t = Inr ()"
    by (auto simp: check_maker_timelock_def check_timelock_script_def res_simps those_eq_Some_iff maker_locktime_value_Inr split: list.splits)
next
  assume "check_timelock_script B s t = Inr ()"
  then show "check_maker_timelock B s t = Inr ()"
    by (auto simp: check_timelock_script_iff check_maker_timelock_def maker_locktime_value_Inr res_simps)
qed

lemma check_maker_output_iff: "check_maker_taproot_output B d k t x = Inr () \<longleftrightarrow> taproot_contract_ok B d k t x = Inr ()"
  by (cases x; cases "tx_output (snd x)")
    (auto simp: check_maker_taproot_output_def taproot_contract_ok_def verify_internal_key_def check_maker_timelock_iff res_simps)

lemma taker_hashlock_template_iff:
  "length hash = 32 \<Longrightarrow> taker_hashlock_template hash is \<longleftrightarrow> hashlock_template_ok is \<and> is ! 1 = PushBytes hash"
  by (auto elim!: hashlock_template_ok.elims taker_hashlock_template.elims)

lemma extract_hash_Inr_iff:
  "extract_hash_from_hashlock B s = Inr h \<longleftrightarrow> 5 \<le> length (b_instructions B s) \<and> b_instructions B s ! 1 = Some (PushBytes h) \<and> length h = 32"
  by (auto simp: extract_hash_from_hashlock_def Let_def nth_opt_def split: option.splits instr.splits)

lemma check_expected_total_iff: "check_expected_total amounts (Some e) = Inr () \<longleftrightarrow> sum_list amounts = e \<and> e \<le> max_money"
  by (auto simp: check_expected_total_def res_simps sum_claimed_Inr_iff)

text \<open>
  C5. The two sides check taproot contracts alike. Contract data with distinct contract transactions passes the taker's check for a locktime
  \<open>REFUND_LOCKTIME_STEP\<close> blocks after \<open>t\<close> exactly when it passes the check of a maker with timelock \<open>t\<close> and,
  besides, no amount is zero, the hashlock is on the hash of the taker's preimage and the amounts total what the taker expects.
\<close>

theorem taproot_checks_agree:
  assumes "taker_swap_state s = Inr swap" "length (b_sha256 B (os_preimage swap)) = 32"
  shows "verify_maker_taproot_contract B d k (t + REFUND_LOCKTIME_STEP) e s = Inr () \<and> distinct (map (b_txid B) (tcd_contract_txs d))
    \<longleftrightarrow> verify_taproot_contract_data B d k t = Inr () \<and> 0 \<notin> set (tcd_amounts d)
      \<and> extract_hash_from_hashlock B (tcd_hashlock_script d) = Inr (b_sha256 B (os_preimage swap))
      \<and> check_expected_total (tcd_amounts d) e = Inr ()" (is "?L \<longleftrightarrow> ?R")
proof -
  let ?h = "b_sha256 B (os_preimage swap)" and ?is = "b_instructions B (tcd_hashlock_script d)"
  have template: "is ! 1 = PushBytes ?h" if "?is = map Some is" "extract_hash_from_hashlock B (tcd_hashlock_script d) = Inr ?h" for "is"
    using that by (auto simp: extract_hash_Inr_iff)
  have zero: "(\<forall>a \<in> set (tcd_amounts d). 0 < a) \<longleftrightarrow> 0 \<notin> set (tcd_amounts d)" by (metis gr0I less_irrefl)
  show ?thesis
    unfolding verify_maker_taproot_contract_def verify_taproot_contract_data_def Let_def
    using template
    by (auto simp: res_simps assms(1) those_eq_Some_iff taker_hashlock_template_iff [OF assms(2)] check_maker_output_iff zero)
qed

text \<open>
  C13. A taproot contract the taker accepts is worth what the route promised: there is a contract, every list has one entry per contract,
  each contract pays its nonzero claimed amount to the tree of the hashlock on the hash of the taker's preimage and a timelock of
  exactly the requested height, under the aggregate of the maker's key and the expected next key, with the tweak that goes with them, and the
  claimed amounts total the expected amount.
\<close>

theorem accepted_maker_contract:
  assumes "verify_maker_taproot_contract B d k t (Some e) s = Inr ()" "tr_ongoing_swap s = Some swap"
  shows "tcd_contract_txs d \<noteq> [] \<and> length (tcd_amounts d) = length (tcd_contract_txs d)
    \<and> (\<exists>pubkey. b_instructions B (tcd_hashlock_script d)
          = map Some [Op 0xa8, PushBytes (b_sha256 B (os_preimage swap)), Op 0x88, PushBytes pubkey, Op 0xac] \<and> length pubkey = 32)
    \<and> (\<forall>i<length (tcd_contract_txs d). verified_contract B d k t i \<and> 0 < tcd_amounts d ! i)
    \<and> sum_list (tcd_amounts d) = e"
proof -
  have st: "taker_swap_state s = Inr swap" using assms(2) by (simp add: taker_swap_state_def)
  from assms(1) obtain instrs where *: "tcd_contract_txs d \<noteq> []" "length (tcd_amounts d) = length (tcd_contract_txs d)"
    "\<forall>a \<in> set (tcd_amounts d). a \<noteq> 0"
    "b_instructions B (tcd_hashlock_script d) = map Some instrs" "taker_hashlock_template (b_sha256 B (os_preimage swap)) instrs"
    "length (tcd_tap_tweaks d) = length (tcd_contract_txs d)"
    "\<forall>x\<in>set (enumerate 0 (tcd_contract_txs d)). taproot_contract_ok B d k t x = Inr ()"
    "check_expected_total (tcd_amounts d) (Some e) = Inr ()"
    by (auto simp: verify_maker_taproot_contract_def res_simps Let_def those_eq_Some_iff st check_maker_output_iff)
  from *(5) obtain pubkey where "instrs = [Op 0xa8, PushBytes (b_sha256 B (os_preimage swap)), Op 0x88, PushBytes pubkey, Op 0xac]"
    "length pubkey = 32" by (auto elim!: taker_hashlock_template.elims)
  moreover have "verified_contract B d k t i" if "i < length (tcd_contract_txs d)" for i
    using *(7) that *(6) by (intro taproot_contract_ok_verified) (auto simp: in_set_enumerate_eq)
  moreover have "sum_list (tcd_amounts d) = e" using *(8) unfolding check_expected_total_iff by simp
  ultimately show ?thesis using * by auto
qed

text \<open>Contract data that lists every contract twice.\<close>

definition repeated :: "taproot_contract_data \<Rightarrow> taproot_contract_data" where
  "repeated d = d\<lparr>tcd_pubkeys := tcd_pubkeys d @ tcd_pubkeys d, tcd_internal_keys := tcd_internal_keys d @ tcd_internal_keys d,
     tcd_tap_tweaks := tcd_tap_tweaks d @ tcd_tap_tweaks d, tcd_timelock_scripts := tcd_timelock_scripts d @ tcd_timelock_scripts d,
     tcd_contract_txs := tcd_contract_txs d @ tcd_contract_txs d, tcd_amounts := tcd_amounts d @ tcd_amounts d\<rparr>"

lemma nth_twice: "i < 2 * length xs \<Longrightarrow> (xs @ xs) ! i = xs ! (i mod length xs)"
  by (cases "i < length xs") (simp_all add: nth_append le_mod_geq not_less)

lemma nth_opt_twice: "length xs = n \<Longrightarrow> i < 2 * n \<Longrightarrow> nth_opt (xs @ xs) i = nth_opt xs (i mod n)"
  by (auto simp: nth_opt_def nth_append mod_if)

lemma repeated_fields:
  "tcd_hashlock_script (repeated d) = tcd_hashlock_script d" "tcd_amounts (repeated d) = tcd_amounts d @ tcd_amounts d"
  "tcd_contract_txs (repeated d) = tcd_contract_txs d @ tcd_contract_txs d" "tcd_pubkeys (repeated d) = tcd_pubkeys d @ tcd_pubkeys d"
  "tcd_internal_keys (repeated d) = tcd_internal_keys d @ tcd_internal_keys d" "tcd_tap_tweaks (repeated d) = tcd_tap_tweaks d @ tcd_tap_tweaks d"
  "tcd_timelock_scripts (repeated d) = tcd_timelock_scripts d @ tcd_timelock_scripts d"
  by (simp_all add: repeated_def)

lemma check_repeated_output:
  assumes "length (tcd_timelock_scripts d) = n" "length (tcd_pubkeys d) = n" "length (tcd_internal_keys d) = n" "length (tcd_tap_tweaks d) = n"
    "length (tcd_amounts d) = n" "i < 2 * n"
  shows "check_maker_taproot_output B (repeated d) k t (i, tx) = check_maker_taproot_output B d k t (i mod n, tx)"
  unfolding check_maker_taproot_output_def tap_tweak_scalar_def repeated_fields nth_opt_twice [OF assms(1,6)] nth_opt_twice [OF assms(2,6)]
    nth_opt_twice [OF assms(3,6)] nth_opt_twice [OF assms(4,6)] nth_opt_twice [OF assms(5,6)] prod.case ..

text \<open>What the taker's check asks, outcome by outcome.\<close>

lemma verify_maker_taproot_iff:
  "verify_maker_taproot_contract B d k t e s = Inr () \<longleftrightarrow> tcd_contract_txs d \<noteq> [] \<and> length (tcd_contract_txs d) = length (tcd_amounts d)
    \<and> (\<forall>a \<in> set (tcd_amounts d). a \<noteq> 0)
    \<and> (\<exists>swap instrs. taker_swap_state s = Inr swap \<and> extract_hash_from_hashlock B (tcd_hashlock_script d) = Inr (b_sha256 B (os_preimage swap))
        \<and> b_instructions B (tcd_hashlock_script d) = map Some instrs \<and> length instrs = 5
        \<and> taker_hashlock_template (b_sha256 B (os_preimage swap)) instrs)
    \<and> length (tcd_timelock_scripts d) = length (tcd_contract_txs d) \<and> length (tcd_pubkeys d) = length (tcd_contract_txs d)
    \<and> length (tcd_internal_keys d) = length (tcd_contract_txs d) \<and> length (tcd_tap_tweaks d) = length (tcd_contract_txs d)
    \<and> (\<forall>x \<in> set (enumerate 0 (tcd_contract_txs d)). check_maker_taproot_output B d k t x = Inr ())
    \<and> check_expected_total (tcd_amounts d) e = Inr ()"
  by (auto simp: verify_maker_taproot_contract_def res_simps Let_def those_eq_Some_iff)

text \<open>
  C18. The taker counts a contract twice when a maker lists it twice. If contract data is accepted for an amount \<open>e\<close>, the same data with
  every contract listed twice is accepted for \<open>2 * e\<close>, although its contracts are the same transactions; a maker rejects such data,
  whatever its keys and timelock.
\<close>

theorem repeated_contracts_accepted:
  assumes "verify_maker_taproot_contract B d k t (Some e) s = Inr ()" "2 * e \<le> max_money"
  shows "verify_maker_taproot_contract B (repeated d) k t (Some (2 * e)) s = Inr ()
    \<and> set (tcd_contract_txs (repeated d)) = set (tcd_contract_txs d)
    \<and> verify_taproot_contract_data B (repeated d) maker_key maker_timelock \<noteq> Inr ()"
proof -
  let ?n = "length (tcd_contract_txs d)"
  from assms(1) have ok: "\<forall>x \<in> set (enumerate 0 (tcd_contract_txs d)). check_maker_taproot_output B d k t x = Inr ()"
    and len: "length (tcd_timelock_scripts d) = ?n" "length (tcd_pubkeys d) = ?n" "length (tcd_internal_keys d) = ?n"
    "length (tcd_tap_tweaks d) = ?n" "length (tcd_amounts d) = ?n" and ne: "tcd_contract_txs d \<noteq> []"
    and total: "sum_list (tcd_amounts d) = e"
    unfolding verify_maker_taproot_iff check_expected_total_iff by simp_all
  have "check_maker_taproot_output B (repeated d) k t (i, (tcd_contract_txs d @ tcd_contract_txs d) ! i) = Inr ()" if "i < 2 * ?n" for i
  proof -
    have "i mod ?n < ?n" using ne by simp
    moreover have "(tcd_contract_txs d @ tcd_contract_txs d) ! i = tcd_contract_txs d ! (i mod ?n)"
      using that by (rule nth_twice)
    ultimately show ?thesis using ok by (auto simp: check_repeated_output [OF len that] in_set_enumerate_eq)
  qed
  then have all: "\<forall>x \<in> set (enumerate 0 (tcd_contract_txs d @ tcd_contract_txs d)). check_maker_taproot_output B (repeated d) k t x = Inr ()"
    by (auto simp: in_set_enumerate_eq mult_2)
  have sum: "check_expected_total (tcd_amounts d @ tcd_amounts d) (Some (2 * e)) = Inr ()"
    unfolding check_expected_total_iff using total assms(2) by simp
  have "verify_maker_taproot_contract B (repeated d) k t (Some (2 * e)) s = Inr ()"
    using assms(1) all sum unfolding verify_maker_taproot_iff repeated_fields by (simp del: enumerate_append_eq)
  moreover have "verify_taproot_contract_data B (repeated d) maker_key maker_timelock \<noteq> Inr ()"
    using ne by (auto simp: verify_taproot_contract_data_def Let_def res_simps repeated_fields)
  ultimately show ?thesis by (simp add: repeated_fields)
qed

section \<open>Accepted legacy contracts\<close>

text \<open>What the taker knows of a sender contract it accepts.\<close>

definition sender_contract_sound :: "btc \<Rightarrow> bytes \<Rightarrow> public_key list \<Rightarrow> public_key list \<Rightarrow> nat \<Rightarrow> nat \<times> sender_contract_tx_info \<Rightarrow> bool" where
  "sender_contract_sound B hash multisig_keys hashlock_keys locktime = (\<lambda>(i, info).
     check_reedemscript_is_multisig B (sct_multisig_redeemscript info) = Inr ()
     \<and> (\<exists>inp out funding_output. tx_input (sct_contract_tx info) = [inp] \<and> tx_output (sct_contract_tx info) = [out]
         \<and> op_txid (ti_prev inp) = b_txid B (sct_funding_tx info)
         \<and> nth_opt (tx_output (sct_funding_tx info)) (op_vout (ti_prev inp)) = Some funding_output
         \<and> redeemscript_to_scriptpubkey B (sct_multisig_redeemscript info) = Inr (to_spk funding_output)
         \<and> to_value funding_output = sct_funding_amount info
         \<and> redeemscript_to_scriptpubkey B (sct_contract_redeemscript info) = Inr (to_spk out))
     \<and> read_hashvalue_from_contract B (sct_contract_redeemscript info) = Inr hash
     \<and> read_contract_locktime B (sct_contract_redeemscript info) = Inr locktime \<and> locktime \<noteq> 0
     \<and> (multisig_keys = [] \<or> (\<exists>k1 k2. read_pubkeys_from_multisig_redeemscript B (sct_multisig_redeemscript info) = Inr (k1, k2)
         \<and> multisig_keys ! (i mod length multisig_keys) \<in> {k1, k2}))
     \<and> (hashlock_keys = [] \<or> read_hashlock_pubkey_from_contract B (sct_contract_redeemscript info)
         = Inr (hashlock_keys ! (i mod length hashlock_keys))))"

lemma check_sender_funding_iff:
  "check_sender_funding B info = Inr () \<longleftrightarrow> (\<exists>inp inps out. tx_input (sct_contract_tx info) = inp # inps
     \<and> op_txid (ti_prev inp) = b_txid B (sct_funding_tx info)
     \<and> nth_opt (tx_output (sct_funding_tx info)) (op_vout (ti_prev inp)) = Some out
     \<and> redeemscript_to_scriptpubkey B (sct_multisig_redeemscript info) = Inr (to_spk out) \<and> to_value out = sct_funding_amount info)"
  by (cases "tx_input (sct_contract_tx info)") (auto simp: check_sender_funding_def res_simps)

lemma check_sender_contract_iff:
  "check_sender_contract B h mks hks t x = Inr () \<longleftrightarrow> sender_contract_sound B h mks hks t x"
proof -
  obtain i info where x: "x = (i, info)" by force
  have bound: "(\<exists>inp out funding_output. tx_input (sct_contract_tx info) = [inp] \<and> tx_output (sct_contract_tx info) = [out]
         \<and> op_txid (ti_prev inp) = b_txid B (sct_funding_tx info)
         \<and> nth_opt (tx_output (sct_funding_tx info)) (op_vout (ti_prev inp)) = Some funding_output
         \<and> redeemscript_to_scriptpubkey B (sct_multisig_redeemscript info) = Inr (to_spk funding_output)
         \<and> to_value funding_output = sct_funding_amount info
         \<and> redeemscript_to_scriptpubkey B (sct_contract_redeemscript info) = Inr (to_spk out))
     \<longleftrightarrow> check_sender_funding B info = Inr () \<and> validate_contract_tx B (sct_contract_tx info) None (sct_contract_redeemscript info) = Inr ()"
    unfolding check_sender_funding_iff validate_contract_tx_None_iff by auto
  show ?thesis
    unfolding x check_sender_contract_def sender_contract_sound_def prod.case Let_def bound
    by (cases "mks = []"; cases "hks = []") (auto simp: res_simps)
qed

text \<open>
  C14. Legacy sender contracts the taker accepts are bound to their funding and to the route: there is one per funding transaction asked for;
  each spends, alone, the output of its funding transaction that pays the advertised amount to the advertised two-of-two script, which holds
  the next hop's key; each pays to the script whose hash is that of the taker's preimage, whose locktime is the requested one and
  whose hashlock key is the next hop's; and the amounts total the expected amount.
\<close>

theorem accepted_sender_contracts:
  assumes "tr_ongoing_swap s = Some swap"
  shows "verify_maker_sender_contracts B infos mks hks t (Some e) s = Inr () \<longleftrightarrow> length infos = prm_tx_count (os_params swap)
    \<and> (\<forall>i<length infos. sender_contract_sound B (b_hash160 B (os_preimage swap)) mks hks t (i, infos ! i))
    \<and> sum_list (map sct_funding_amount infos) = e \<and> e \<le> max_money"
proof -
  have "taker_swap_state s = Inr swap" using assms by (simp add: taker_swap_state_def)
  then show ?thesis
    unfolding verify_maker_sender_contracts_def res_bind_Inr_iff ensure_Inr_iff res_all_Inr_iff check_expected_total_iff
    by (auto simp: check_sender_contract_iff in_set_enumerate_eq)
qed

text \<open>The contract script with another last opcode; \<open>0xac\<close> is the builder's \<open>OP_CHECKSIG\<close>, \<open>0x6a\<close> is \<open>OP_RETURN\<close>.\<close>

definition htlc_ending :: "btc \<Rightarrow> byte \<Rightarrow> public_key \<Rightarrow> public_key \<Rightarrow> bytes \<Rightarrow> nat \<Rightarrow> script" where
  "htlc_ending B opcode hk tk h t = butlast (create_contract_redeemscript B hk tk h t) @ [opcode]"

lemma htlc_ending_checksig: "htlc_ending B 0xac hk tk h t = create_contract_redeemscript B hk tk h t"
  by (simp add: htlc_ending_def create_contract_redeemscript_def butlast_append)

lemma htlc_ending_eq:
  "htlc_ending B opcode hk tk h t = [0x82, 0x7c, 0xa9] @ b_push_slice B h @ [0x87, 0x63] @ b_push_key B hk @ b_push_int B 32 @ b_push_int B 0
     @ [0x67] @ b_push_key B tk @ b_push_int B 0 @ b_push_int B t @ [0x68, 0xb2, 0x75, 0x7b, 0x88, opcode]"
  by (simp add: htlc_ending_def create_contract_redeemscript_def butlast_append)

lemma htlc_ending_instructions:
  assumes B: "script_lib B" and k: "good_key B hk" "good_key B tk" and h: "length h = 20" and t: "t < 65536" and opcode: "78 < unat opcode"
  shows "b_instructions B (htlc_ending B opcode hk tk h t) =
    map Some [Op 0x82, Op 0x7c, Op 0xa9, PushBytes h, Op 0x87, Op 0x63, PushBytes (pk_inner hk), int_instr 32, int_instr 0, Op 0x67,
      PushBytes (pk_inner tk), int_instr 0, int_instr t, Op 0x68, Op 0xb2, Op 0x75, Op 0x7b, Op 0x88, Op opcode]"
  using t h opcode unfolding htlc_ending_eq
  by (simp add: good_key_instr [OF B] k script_lib.instructions_op [OF B] script_lib.instructions_nil [OF B]
      script_lib.instructions_push_slice [OF B] script_lib.instructions_push_int [OF B])

lemma htlc_ending_read:
  assumes B: "script_lib B" and k: "good_key B hk" "good_key B tk" and h: "length h = 20" and t: "0 < t" "t < 65536" and opcode: "78 < unat opcode"
  shows "read_hashvalue_from_contract B (htlc_ending B opcode hk tk h t) = Inr h"
    and "read_contract_locktime B (htlc_ending B opcode hk tk h t) = Inr t"
    and "read_hashlock_pubkey_from_contract B (htlc_ending B opcode hk tk h t) = Inr hk"
proof -
  note instrs = htlc_ending_instructions [OF B k h t(2) opcode]
  have l: "length (pk_inner hk) = 33" "b_pubkey_from_slice B (pk_inner hk) = Some hk" using k by (auto simp: good_key_def)
  obtain tail where "b_push_int B 32 @ b_push_int B 0 @ [0x67] @ b_push_key B tk @ b_push_int B 0 @ b_push_int B t
      @ [0x68, 0xb2, 0x75, 0x7b, 0x88, opcode] = tail" "tail \<noteq> []" by simp
  then have shape: "htlc_ending B opcode hk tk h t = ([0x82, 0x7c, 0xa9, 20] @ h @ [0x87, 0x63, 33]) @ pk_inner hk @ tail" "tail \<noteq> []"
    using good_key_push [OF B k(1)] h script_lib.push_slice_short [OF B, of h] by (simp_all add: htlc_ending_eq)
  then have len: "61 \<le> length (htlc_ending B opcode hk tk h t)" using h l by (cases tail) simp_all
  then show "read_hashvalue_from_contract B (htlc_ending B opcode hk tk h t) = Inr h"
    using h by (simp add: read_hashvalue_from_contract_def instrs instr_at_def nth_opt_def Let_def MIN_HASHV_LEN_def)
  show "read_contract_locktime B (htlc_ending B opcode hk tk h t) = Inr t"
    using locktime_instr [OF t] by (simp add: read_contract_locktime_def instrs instr_at_def nth_opt_def Let_def)
  have "slice_opt 27 60 (htlc_ending B opcode hk tk h t) = Some (pk_inner hk)"
    unfolding shape using l h by (intro slice_opt_append) auto
  then show "read_hashlock_pubkey_from_contract B (htlc_ending B opcode hk tk h t) = Inr hk"
    using len l by (simp add: read_hashlock_pubkey_from_contract_def)
qed

text \<open>A sender contract on output \<open>vout\<close> of a funding transaction, built with the given contract script.\<close>

definition sender_info_on :: "btc \<Rightarrow> transaction \<Rightarrow> nat \<Rightarrow> script \<Rightarrow> script \<Rightarrow> public_key \<Rightarrow> protocol_error + sender_contract_tx_info" where
  "sender_info_on B funding_tx vout multisig contract timelock_key =
     res_bind (ok_or (nth_opt (tx_output funding_tx) vout) (PGeneral ''no such output'')) (\<lambda>out.
     res_bind (create_senders_contract_tx B \<lparr>op_txid = b_txid B funding_tx, op_vout = vout\<rparr> (to_value out) contract) (\<lambda>tx.
     Inr \<lparr>sct_funding_tx = funding_tx, sct_contract_tx = tx, sct_timelock_pubkey = timelock_key, sct_multisig_redeemscript = multisig,
       sct_contract_redeemscript = contract, sct_funding_amount = to_value out, sct_multisig_nonce = [], sct_hashlock_nonce = []\<rparr>))"

lemma built_contract_accepted:
  assumes "script_lib B" "good_key B (compressed_key pub_placeholder)" "good_key B k1" "good_key B k2" "good_key B hk" "good_key B tk"
    and "length h = 20" "0 < t" "t < 65536" "78 < unat opcode"
    and "nth_opt (tx_output funding_tx) vout = Some out"
    and "redeemscript_to_scriptpubkey B (create_multisig_redeemscript B k1 k2) = Inr (to_spk out)"
    and "sender_info_on B funding_tx vout (create_multisig_redeemscript B k1 k2) (htlc_ending B opcode hk tk h t) tk = Inr info"
  shows "check_sender_contract B h [k1] [hk] t (i, info) = Inr ()"
proof -
  from assms(11,13) obtain tx where tx: "create_senders_contract_tx B \<lparr>op_txid = b_txid B funding_tx, op_vout = vout\<rparr> (to_value out)
      (htlc_ending B opcode hk tk h t) = Inr tx"
    and info: "info = \<lparr>sct_funding_tx = funding_tx, sct_contract_tx = tx, sct_timelock_pubkey = tk,
      sct_multisig_redeemscript = create_multisig_redeemscript B k1 k2, sct_contract_redeemscript = htlc_ending B opcode hk tk h t,
      sct_funding_amount = to_value out, sct_multisig_nonce = [], sct_hashlock_nonce = []\<rparr>"
    by (auto simp: sender_info_on_def res_simps)
  have "check_reedemscript_is_multisig B (create_multisig_redeemscript B k1 k2) = Inr ()"
    unfolding check_multisig_iff [OF assms(1,2)] multisig_shape [OF assms(1,3,4)] using assms(3,4) by (auto simp: good_key_def)
  moreover note read_pubkeys_created [OF assms(1,3,4)]
  moreover note htlc_ending_read [OF assms(1,5-10)]
  moreover from tx obtain o1 where "redeemscript_to_scriptpubkey B (htlc_ending B opcode hk tk h t) = Inr (to_spk o1)" "tx_output tx = [o1]"
    "tx_input tx = [\<lparr>ti_prev = \<lparr>op_txid = b_txid B funding_tx, op_vout = vout\<rparr>, ti_sequence = 0, ti_witness = [], ti_script_sig = []\<rparr>]"
    unfolding create_contract_tx_Inr_iff by force
  ultimately show ?thesis
    unfolding check_sender_contract_iff sender_contract_sound_def prod.case info using assms(8,11,12) by simp
qed

text \<open>
  C19. The taker accepts the legacy contracts the protocol asks for, and does not look at the end of their script: a contract that the builder
  makes on a funding output paying to the two-of-two of the two parties, with the next hop's keys, the taker's hash and the requested
  locktime, passes the checks whatever opcode stands in place of the script's final \<open>OP_CHECKSIG\<close>.
\<close>

theorem contract_template_open:
  assumes "script_lib B" "good_key B (compressed_key pub_placeholder)" "good_key B k1" "good_key B k2" "good_key B hk" "good_key B tk"
    and "length h = 20" "0 < t" "t < 65536" "78 < unat opcode"
    and "nth_opt (tx_output funding_tx) vout = Some out"
    and "redeemscript_to_scriptpubkey B (create_multisig_redeemscript B k1 k2) = Inr (to_spk out)"
    and "sender_info_on B funding_tx vout (create_multisig_redeemscript B k1 k2) (htlc_ending B opcode hk tk h t) tk = Inr info"
  shows "check_sender_contract B h [k1] [hk] t (i, info) = Inr ()"
  using assms by (rule built_contract_accepted)

text \<open>A transaction whose outputs hold another value.\<close>

definition revalued :: "amount \<Rightarrow> transaction \<Rightarrow> transaction" where
  "revalued v tx = tx\<lparr>tx_output := map (\<lambda>out. out\<lparr>to_value := v\<rparr>) (tx_output tx)\<rparr>"

lemma revalued_fields: "tx_input (revalued v tx) = tx_input tx" "tx_output (revalued v tx) = map (\<lambda>out. out\<lparr>to_value := v\<rparr>) (tx_output tx)"
  by (simp_all add: revalued_def)

lemma validate_revalued: "validate_contract_tx B (revalued v tx) None rs = validate_contract_tx B tx None rs"
  by (auto simp: validate_contract_tx_def revalued_def split: list.splits)

text \<open>
  The amounts of the receiver contracts are never checked: the outcome of \<open>verify_maker_receiver_contracts\<close> is the same when every
  output of every contract holds some other value.
\<close>

lemma receiver_amounts_unchecked:
  "verify_maker_receiver_contracts B (map (revalued v) txs) funding_txs scripts = verify_maker_receiver_contracts B txs funding_txs scripts"
proof -
  have one: "check_receiver_contract B ids scripts (i, revalued v tx) = check_receiver_contract B ids scripts (i, tx)" for ids i tx
    by (auto simp: check_receiver_contract_def validate_revalued revalued_fields split: list.splits option.splits)
  have "res_all (check_receiver_contract B ids scripts) (enumerate k (map (revalued v) txs))
      = res_all (check_receiver_contract B ids scripts) (enumerate k txs)" for ids k
    by (induction txs arbitrary: k) (simp_all add: one res_all_def)
  then show ?thesis by (simp add: verify_maker_receiver_contracts_def)
qed

section \<open>Concrete contracts\<close>

text \<open>The contract data of \<open>sample_tcd\<close>, sent to a taker whose preimage is its hash.\<close>

definition sample_contract_swap :: ongoing_swap where
  "sample_contract_swap = sample_pay_swap\<lparr>os_preimage := replicate 32 1\<rparr>"

lemma sample_sha: "b_sha256 sample_lib (replicate 32 1) = replicate 32 1"
  by code_simp

lemma sample_maker_contract:
  "verify_maker_taproot_contract sample_lib sample_tcd sample_maker_key 120 (Some 100000) (sample_taker sample_contract_swap) = Inr ()"
proof -
  have st: "taker_swap_state (sample_taker sample_contract_swap) = Inr sample_contract_swap" by (simp add: taker_swap_state_def sample_taker_def)
  have instrs: "b_instructions sample_lib sample_hs
      = map Some [Op 0xa8, PushBytes (replicate 32 1), Op 0x88, PushBytes (replicate 32 6), Op 0xac]"
    unfolding sample_hs_def by (rule taproot_hashlock_instructions [OF sample_script.script_lib_axioms]) simp_all
  have len: "length (tcd_timelock_scripts sample_tcd) = 1" "length (tcd_pubkeys sample_tcd) = 1" "length (tcd_internal_keys sample_tcd) = 1"
    "length (tcd_tap_tweaks sample_tcd) = 1" "tcd_amounts sample_tcd = [100000]" "length (tcd_contract_txs sample_tcd) = 1"
    "tcd_hashlock_script sample_tcd = sample_hs" by (simp_all add: sample_tcd_def)
  have out: "taproot_contract_ok sample_lib sample_tcd sample_maker_key 120 (0, tcd_contract_txs sample_tcd ! 0) = Inr ()"
    using honest_contract_ok [OF sample_script.script_lib_axioms _ sample_tcd_honest, of 0] len by (simp add: REFUND_LOCKTIME_STEP_def)
  then have "\<forall>x \<in> set (enumerate 0 (tcd_contract_txs sample_tcd)). taproot_contract_ok sample_lib sample_tcd sample_maker_key 120 x = Inr ()"
    using len by (auto simp: in_set_enumerate_eq)
  moreover have "\<exists>swap is. taker_swap_state (sample_taker sample_contract_swap) = Inr swap
      \<and> extract_hash_from_hashlock sample_lib sample_hs = Inr (b_sha256 sample_lib (os_preimage swap))
      \<and> b_instructions sample_lib sample_hs = map Some is \<and> length is = 5 \<and> taker_hashlock_template (b_sha256 sample_lib (os_preimage swap)) is"
    by (rule exI [of _ sample_contract_swap], rule exI [of _ "[Op 0xa8, PushBytes (replicate 32 1), Op 0x88, PushBytes (replicate 32 6), Op 0xac]"])
      (simp add: st [unfolded sample_contract_swap_def] instrs extract_hash_Inr_iff sample_contract_swap_def sample_sha)
  ultimately show ?thesis
    unfolding verify_maker_taproot_iff check_maker_output_iff check_expected_total_iff len(7) using len by (auto simp: max_money_def)
qed

theorem taproot_checks_agree_witness:
  "verify_taproot_contract_data sample_lib sample_tcd sample_maker_key 100 = Inr ()"
proof -
  have st: "taker_swap_state (sample_taker sample_contract_swap) = Inr sample_contract_swap" by (simp add: taker_swap_state_def sample_taker_def)
  have "length (b_sha256 sample_lib (os_preimage sample_contract_swap)) = 32" by (simp add: sample_contract_swap_def sample_sha)
  from taproot_checks_agree [OF st this, of sample_tcd sample_maker_key 100 "Some 100000"] sample_maker_contract show ?thesis
    by (simp add: REFUND_LOCKTIME_STEP_def sample_tcd_def)
qed

theorem accepted_maker_contract_witness:
  "verified_contract sample_lib sample_tcd sample_maker_key 120 0 \<and> sum_list (tcd_amounts sample_tcd) = 100000"
  using accepted_maker_contract [OF sample_maker_contract, of sample_contract_swap] by (simp add: sample_taker_def sample_tcd_def)

theorem repeated_contracts_accepted_witness:
  "verify_maker_taproot_contract sample_lib (repeated sample_tcd) sample_maker_key 120 (Some 200000) (sample_taker sample_contract_swap) = Inr ()
   \<and> sum_list (map (to_value \<circ> hd \<circ> tx_output) (remdups (tcd_contract_txs (repeated sample_tcd)))) = 100000"
  using repeated_contracts_accepted [OF sample_maker_contract] by (simp add: max_money_def repeated_def sample_tcd_def)

definition key_of :: "byte \<Rightarrow> public_key" where
  "key_of b = compressed_key (2 # replicate 32 b)"

definition sample_funding :: transaction where
  "sample_funding = \<lparr>tx_version = 2, tx_lock_time = 0, tx_input = [],
     tx_output = [\<lparr>to_value = 100000, to_spk = push_int_c 0 @ push_slice_c (fit 32 (create_multisig_redeemscript sample_lib (key_of 7) (key_of 9)))\<rparr>]\<rparr>"

text \<open>A contract whose script ends in \<open>OP_RETURN\<close>, which nobody can spend.\<close>

definition unclaimable_contract :: "protocol_error + sender_contract_tx_info" where
  "unclaimable_contract = sender_info_on sample_lib sample_funding 0 (create_multisig_redeemscript sample_lib (key_of 7) (key_of 9))
     (htlc_ending sample_lib 0x6a (key_of 6) (key_of 4) (replicate 20 1) 40) (key_of 4)"

lemma sample_funding_out: "nth_opt (tx_output sample_funding) 0 = Some (hd (tx_output sample_funding))"
  "redeemscript_to_scriptpubkey sample_lib (create_multisig_redeemscript sample_lib (key_of 7) (key_of 9)) = Inr (to_spk (hd (tx_output sample_funding)))"
  "to_value (hd (tx_output sample_funding)) = 100000"
proof -
  have "b_witness_program sample_lib 0 (b_wscript_hash sample_lib x) = Some (push_int_c 0 @ push_slice_c (fit 32 x))" for x
    by (simp add: sample_lib_def fit_def)
  then show "redeemscript_to_scriptpubkey sample_lib (create_multisig_redeemscript sample_lib (key_of 7) (key_of 9)) = Inr (to_spk (hd (tx_output sample_funding)))"
    by (simp add: sample_funding_def redeemscript_to_scriptpubkey_def)
qed (simp_all add: sample_funding_def nth_opt_def)

lemma sample_contract_tx: "\<exists>tx. create_senders_contract_tx sample_lib inp 100000 rs = Inr tx"
  by (auto simp: create_contract_tx_Inr_iff redeemscript_to_scriptpubkey_def calculate_fee_sats_def
      get_min_fee_rate_def MIN_FEE_RATE_def CONTRACT_TX_VSIZE_def sample_lib_def fit_def)

lemma unclaimable_built: "\<exists>info. unclaimable_contract = Inr info \<and> last (sct_contract_redeemscript info) = 0x6a \<and> sct_funding_amount info = 100000"
  using sample_contract_tx [of "\<lparr>op_txid = b_txid sample_lib sample_funding, op_vout = 0\<rparr>"
      "htlc_ending sample_lib 0x6a (key_of 6) (key_of 4) (replicate 20 1) 40"]
  by (auto simp: unclaimable_contract_def sender_info_on_def sample_funding_out htlc_ending_def)

lemma sample_key_good: "good_key sample_lib (key_of b)"
  unfolding key_of_def by (rule sample_good_key) simp

theorem contract_template_open_witness:
  "\<exists>info. unclaimable_contract = Inr info \<and> last (sct_contract_redeemscript info) = 0x6a
     \<and> check_sender_contract sample_lib (replicate 20 1) [key_of 7] [key_of 6] 40 (0, info) = Inr ()"
proof -
  from unclaimable_built obtain info where info: "unclaimable_contract = Inr info" "last (sct_contract_redeemscript info) = 0x6a" by blast
  have "check_sender_contract sample_lib (replicate 20 1) [key_of 7] [key_of 6] 40 (0, info) = Inr ()"
    by (rule contract_template_open [OF sample_script.script_lib_axioms sample_placeholder sample_key_good sample_key_good sample_key_good sample_key_good
      _ _ _ _ sample_funding_out(1,2) info(1) [unfolded unclaimable_contract_def]]) simp_all
  with info show ?thesis by blast
qed

theorem accepted_sender_contracts_witness:
  "\<exists>info. sender_contract_sound sample_lib (replicate 20 1) [key_of 7] [key_of 6] 40 (0, info)
     \<and> verify_maker_sender_contracts sample_lib [info] [key_of 7] [key_of 6] 40 (Some 100000) (sample_taker sample_contract_swap) = Inr ()"
proof -
  from unclaimable_built obtain info where info: "unclaimable_contract = Inr info" "sct_funding_amount info = 100000" by blast
  have hash: "b_hash160 sample_lib (replicate 32 1) = replicate 20 1" by code_simp
  have "check_sender_contract sample_lib (replicate 20 1) [key_of 7] [key_of 6] 40 (0, info) = Inr ()"
    by (rule built_contract_accepted [OF sample_script.script_lib_axioms sample_placeholder sample_key_good sample_key_good sample_key_good sample_key_good
      _ _ _ _ sample_funding_out(1,2) info(1) [unfolded unclaimable_contract_def]]) simp_all
  then have "sender_contract_sound sample_lib (replicate 20 1) [key_of 7] [key_of 6] 40 (0, info)" unfolding check_sender_contract_iff .
  with info show ?thesis
    using accepted_sender_contracts [of "sample_taker sample_contract_swap" sample_contract_swap sample_lib "[info]" "[key_of 7]" "[key_of 6]" 40 100000]
    by (auto simp: sample_taker_def sample_contract_swap_def sample_pay_swap_def swap_params_new_def hash max_money_def)
qed

end
