(* ===== verification/CoinSelect.thy ===== *)
theory CoinSelect
  imports WalletStore "HOL-Library.Multiset"
begin

text \<open>
  Choosing the coins of a transaction: \<open>Wallet::coin_select\<close> and the witness sizes it counts with (\<open>wallet/api.rs\<close>).
  Selection proper is the \<open>rust-coinselect\<close> crate; it, the fee formula of that crate, the address of a coin and the iteration order of a
  \<open>HashMap\<close> are the record \<open>select_lib\<close>. Single-precision floats are rationals, as the doubles of \<open>F64\<close>, rounded to
  24 bits. The lemmas say that a selection stays within one pool, never touches locked or excluded coins, takes every
  manually selected coin and names no coin twice.
\<close>

section \<open>Single precision\<close>

definition fl32_pos :: "rat \<Rightarrow> rat" where
  "fl32_pos x = (let q = 2 powi (bin_exp x - 23) in of_int (rne (x / q)) * q)"

definition fl32 :: "rat \<Rightarrow> rat" where
  "fl32 x = (if x = 0 then 0 else if 0 < x then fl32_pos x else - fl32_pos (- x))"

section \<open>Sizes and options\<close>

type_synonym coin = "utxo \<times> utxo_spend_info"

definition estimate_witness_size :: "utxo_spend_info \<Rightarrow> nat" where
  "estimate_witness_size info = (case info of
     SeedCoin _ _ address_type \<Rightarrow> (case address_type of P2WPKH \<Rightarrow> 107 | P2TR \<Rightarrow> 66)
   | SweptCoin _ _ address_type \<Rightarrow> (case address_type of P2WPKH \<Rightarrow> 107 | P2TR \<Rightarrow> 66)
   | IncomingSwapCoin _ \<Rightarrow> 218 | OutgoingSwapCoin _ \<Rightarrow> 218
   | TimelockContract _ _ \<Rightarrow> 179 | HashlockContract _ _ \<Rightarrow> 211 | FidelityBondCoin _ _ \<Rightarrow> 115)"

text \<open>The crate's option record, without the members the wallet sets to constants.\<close>

record selection_opt =
  so_target_value :: nat
  so_target_feerate :: rat
  so_base_weight :: nat
  so_change_weight :: nat
  so_change_cost :: nat

datatype selection_error = InsufficientFunds nat nat | OtherSelection

text \<open>An output group is its value, its weight and its number of inputs.\<close>

record select_lib =
  sl_calculate_fee :: "nat \<Rightarrow> rat \<Rightarrow> nat"
  sl_select_coin :: "(nat \<times> nat \<times> nat) list \<Rightarrow> selection_opt \<Rightarrow> selection_error + nat list list"
  sl_address :: "utxo \<Rightarrow> string"
  sl_map_order :: "coin list list \<Rightarrow> coin list list"

definition input_weight :: "coin \<Rightarrow> nat" where
  "input_weight = (\<lambda>(_, spend_info). (32 + 4 + 4 + 1) * 4 + estimate_witness_size spend_info)"

definition coins_value :: "coin list \<Rightarrow> nat" where
  "coins_value coins = fold (\<lambda>(u, _) tot. wrapping_add 64 tot (ut_amount u)) coins 0"

definition coins_weight :: "coin list \<Rightarrow> nat" where
  "coins_weight coins = sum_list (map input_weight coins)"

definition base_weight :: "address_type \<Rightarrow> nat \<Rightarrow> nat" where
  "base_weight output_address_type selected_weight =
     42 + selected_weight + (8 + 1 + (case output_address_type of P2WPKH \<Rightarrow> 22 | P2TR \<Rightarrow> 34)) * 4"

definition required_total :: "select_lib \<Rightarrow> nat \<Rightarrow> rat \<Rightarrow> address_type \<Rightarrow> nat \<Rightarrow> nat" where
  "required_total L target feerate output_address_type selected_weight =
     wrapping_add 64 target (sl_calculate_fee L (base_weight output_address_type selected_weight) (fl32 (fl32 feerate / 4)))"

section \<open>The pools\<close>

definition filter_locked :: "outpoint list \<Rightarrow> outpoint list \<Rightarrow> coin list \<Rightarrow> coin list" where
  "filter_locked locked excluded utxos = filter (\<lambda>(u, _). ut_outpoint u \<notin> set locked \<and> ut_outpoint u \<notin> set excluded) utxos"

definition chosen :: "outpoint list \<Rightarrow> coin \<Rightarrow> bool" where
  "chosen outpoints = (\<lambda>(u, _). ut_outpoint u \<in> set outpoints)"

datatype pool = Regular | Swap

text \<open>An empty manual selection counts as none. The requested outpoints are a set.\<close>

definition manual_pool :: "outpoint list option \<Rightarrow> coin list \<Rightarrow> coin list \<Rightarrow> wallet_error + (pool option \<times> outpoint list)" where
  "manual_pool manual regular swap = (case manual of
     Some (o1 # os) \<Rightarrow>
       (let requested = remdups (o1 # os);
            matched_regular = filter (chosen requested) regular; matched_swap = filter (chosen requested) swap in
        if length matched_regular + length matched_swap \<noteq> length requested
        then Inl (WGeneral ''Some manually selected UTXOs are unavailable, locked, or excluded'')
        else if matched_regular \<noteq> [] \<and> matched_swap \<noteq> []
        then Inl (WGeneral ''Cannot mix regular and swap UTXOs in manual selection'')
        else Inr (Some (if matched_regular \<noteq> [] then Regular else Swap), requested))
   | _ \<Rightarrow> Inr (None, []))"

definition pools_to_try :: "pool option \<Rightarrow> coin list \<Rightarrow> coin list \<Rightarrow> coin list list" where
  "pools_to_try kind regular swap = (case kind of
     Some Regular \<Rightarrow> [regular] | Some Swap \<Rightarrow> [swap] | None \<Rightarrow> [regular, swap])"

section \<open>Selecting from one pool\<close>

definition address_groups :: "select_lib \<Rightarrow> coin list \<Rightarrow> coin list list" where
  "address_groups L coins = sl_map_order L (map snd (fold (\<lambda>coin groups.
     let key = sl_address L (fst coin) in
     AList.update key ((case map_of groups key of None \<Rightarrow> [] | Some grp \<Rightarrow> grp) @ [coin]) groups) coins []))"

text \<open>Whole reused addresses are added until the target is covered; \<open>Inl\<close> is the selection then returned.\<close>

fun add_groups :: "(nat \<Rightarrow> nat) \<Rightarrow> coin list \<Rightarrow> nat \<Rightarrow> nat \<Rightarrow> coin list list \<Rightarrow> coin list + (coin list \<times> nat \<times> nat)" where
  "add_groups required coins tot weight [] = Inr (coins, tot, weight)"
| "add_groups required coins tot weight (grp # groups) =
     (let tot = wrapping_add 64 tot (coins_value grp); weight = weight + coins_weight grp; coins = coins @ grp in
      if required weight \<le> tot then Inl coins else add_groups required coins tot weight groups)"

datatype pool_result = Selected "coin list" | NoFunds nat nat | NoSelection | SelectPanic

definition selection_options :: "select_lib \<Rightarrow> nat \<Rightarrow> rat \<Rightarrow> address_type \<Rightarrow> nat \<Rightarrow> nat \<Rightarrow> selection_opt" where
  "selection_options L target feerate output_address_type selected_total selected_weight =
     \<lparr>so_target_value = max (target - selected_total) 1, so_target_feerate = fl32 (fl32 feerate / 4),
      so_base_weight = base_weight output_address_type selected_weight, so_change_weight = (8 + 1 + 34) * 4,
      so_change_cost = wrapping_add 64 (sl_calculate_fee L (((8 + 1 + 34) * 4 + 3) div 4) (fl32 feerate))
        (sl_calculate_fee L (((32 + 4 + 4 + 1) * 4 + 66 + 3) div 4) 10)\<rparr>"

definition select_from :: "select_lib \<Rightarrow> nat \<Rightarrow> rat \<Rightarrow> address_type \<Rightarrow> outpoint list \<Rightarrow> coin list \<Rightarrow> pool_result" where
  "select_from L target feerate output_address_type manual_outpoints unspents =
     (let forced = filter (chosen manual_outpoints) unspents;
          groups = address_groups L (filter (\<lambda>c. \<not> chosen manual_outpoints c) unspents);
          grouped = sort_key coins_value (filter (\<lambda>g. 1 < length g) groups);
          singles = sort_key coins_value (filter (\<lambda>g. \<not> 1 < length g) groups);
          required = required_total L target feerate output_address_type in
      if required (coins_weight forced) \<le> coins_value forced then Selected forced
      else case add_groups required forced (coins_value forced) (coins_weight forced) grouped of
        Inl coins \<Rightarrow> Selected coins
      | Inr (coins, selected_total, selected_weight) \<Rightarrow>
        (case sl_select_coin L (map (\<lambda>g. (coins_value g, coins_weight g, length g)) singles)
            (selection_options L target feerate output_address_type selected_total selected_weight) of
          Inr [] \<Rightarrow> SelectPanic
        | Inr (selected_inputs # _) \<Rightarrow>
            (if \<forall>i \<in> set selected_inputs. i < length singles
             then Selected (coins @ concat (map (\<lambda>i. singles ! i) selected_inputs)) else SelectPanic)
        | Inl (InsufficientFunds available required) \<Rightarrow>
            NoFunds (wrapping_add 64 available selected_total) (wrapping_add 64 required selected_total)
        | Inl OtherSelection \<Rightarrow> NoSelection))"

text \<open>The pool that came closest to the target is reported.\<close>

fun try_pools :: "(coin list \<Rightarrow> pool_result) \<Rightarrow> (nat \<times> nat) option \<Rightarrow> bool \<Rightarrow> coin list list \<Rightarrow> wallet_error + coin list" where
  "try_pools select insufficient other [] = (case insufficient of
     Some (available, required) \<Rightarrow> Inl (WInsufficientFund available required)
   | None \<Rightarrow> if other then Inl WSelection else Inl (WGeneral ''coin selection failed without returning an error''))"
| "try_pools select insufficient other (unspents # pools) = (case select unspents of
     Selected coins \<Rightarrow> Inr coins
   | SelectPanic \<Rightarrow> Inl WPanic
   | NoSelection \<Rightarrow> try_pools select insufficient True pools
   | NoFunds available required \<Rightarrow>
       (let better = (case insufficient of None \<Rightarrow> True | Some (prev_avail, prev_req) \<Rightarrow> required - available < prev_req - prev_avail) in
        try_pools select (if better then Some (available, required) else insufficient) other pools))"

definition coin_select :: "select_lib \<Rightarrow> amount \<Rightarrow> f64 \<Rightarrow> address_type \<Rightarrow> outpoint list option \<Rightarrow> outpoint list option \<Rightarrow> wallet
    \<Rightarrow> wallet_error + coin list" where
  "coin_select L amount feerate output_address_type manually_selected excluded w =
     (let excluded = (case excluded of None \<Rightarrow> [] | Some os \<Rightarrow> os);
          regular = filter_locked (w_locked_utxos w) excluded (list_descriptor_utxo_spend_info (w_store w));
          swap = filter_locked (w_locked_utxos w) excluded (list_swept_incoming_swap_utxos (w_store w)) in
      res_bind (manual_pool manually_selected regular swap) (\<lambda>(kind, manual_outpoints).
      try_pools (select_from L amount feerate output_address_type manual_outpoints) None False (pools_to_try kind regular swap)))"

section \<open>Grouping by address\<close>

lemma mset_concat_sum: "mset (concat xss) = sum_mset (image_mset mset (mset xss))"
  by (induction xss) simp_all

lemma mset_concat_cong: "mset xss = mset yss \<Longrightarrow> mset (concat xss) = mset (concat yss)"
  by (simp add: mset_concat_sum)

lemma mset_concat_mono: "mset xss \<subseteq># mset yss \<Longrightarrow> mset (concat xss) \<subseteq># mset (concat yss)"
  by (auto simp: mset_concat_sum mset_subset_eq_exists_conv)

lemma mset_filter_split: "mset (filter P xs) + mset (filter (\<lambda>x. \<not> P x) xs) = mset xs"
  by (induction xs) auto

lemma update_group_mset:
  assumes "keys_distinct m"
  shows "mset (concat (map snd (AList.update k ((case map_of m k of None \<Rightarrow> [] | Some g \<Rightarrow> g) @ [c]) m)))
    = mset (concat (map snd m)) + {#c#}"
  using assms by (induction m) (auto simp: keys_distinct_def dest: map_of_SomeD split: option.splits)

lemma address_groups_mset:
  assumes "\<forall>groups. mset (sl_map_order L groups) = mset groups"
  shows "mset (concat (address_groups L coins)) = mset coins"
proof -
  let ?step = "\<lambda>coin groups. let key = sl_address L (fst coin) in
     AList.update key ((case map_of groups key of None \<Rightarrow> [] | Some grp \<Rightarrow> grp) @ [coin]) groups"
  have "mset (concat (map snd (fold ?step coins m))) = mset coins + mset (concat (map snd m))" if "keys_distinct m" for m
    using that
  proof (induction coins arbitrary: m)
    case (Cons c coins)
    then show ?case by (simp add: Let_def keys_distinct_update update_group_mset)
  qed simp
  from this [of "[]"] have "mset (concat (map snd (fold ?step coins []))) = mset coins" by (simp add: keys_distinct_def)
  moreover have "mset (concat (sl_map_order L groups)) = mset (concat groups)" for groups
    using assms by (simp add: mset_concat_sum)
  ultimately show ?thesis by (simp add: address_groups_def)
qed

section \<open>What a selection takes\<close>

lemma add_groups_Inl:
  assumes "add_groups required coins tot weight groups = Inl sel"
  shows "\<exists>taken. sel = coins @ taken \<and> mset taken \<subseteq># mset (concat groups)"
  using assms
proof (induction groups arbitrary: coins tot weight)
  case (Cons g groups)
  show ?case
  proof (cases "required (weight + coins_weight g) \<le> wrapping_add 64 tot (coins_value g)")
    case True
    with Cons.prems have "sel = coins @ g" by (simp add: Let_def)
    then show ?thesis by (intro exI [of _ g]) simp
  next
    case False
    with Cons.prems have "add_groups required (coins @ g) (wrapping_add 64 tot (coins_value g)) (weight + coins_weight g) groups = Inl sel"
      by (simp add: Let_def)
    from Cons.IH [OF this] obtain taken where "sel = (coins @ g) @ taken" "mset taken \<subseteq># mset (concat groups)" by blast
    then show ?thesis by (intro exI [of _ "g @ taken"]) simp
  qed
qed simp

lemma add_groups_Inr:
  assumes "add_groups required coins tot weight groups = Inr (sel, tot', weight')"
  shows "sel = coins @ concat groups"
  using assms
proof (induction groups arbitrary: coins tot weight)
  case (Cons g groups)
  from Cons.prems have "add_groups required (coins @ g) (wrapping_add 64 tot (coins_value g)) (weight + coins_weight g) groups
      = Inr (sel, tot', weight')" by (simp add: Let_def split: if_splits)
  from Cons.IH [OF this] show ?case by simp
qed simp

lemma nth_subset_mset:
  assumes "distinct idx" "\<forall>i \<in> set idx. i < length xs"
  shows "mset (map ((!) xs) idx) \<subseteq># mset xs"
proof -
  have "mset idx \<subseteq># mset [0..<length xs]"
    using assms by (simp add: mset_set_set [symmetric] subset_imp_msubset_mset_set subset_eq mset_upt)
  then have "image_mset ((!) xs) (mset idx) \<subseteq># image_mset ((!) xs) (mset [0..<length xs])" by (rule image_mset_subseteq_mono)
  then show ?thesis by (metis map_nth mset_map)
qed

text \<open>What the code relies on of the two library containers: iterating a map visits every value once, and a selection names distinct groups
  whose values cover the target.\<close>

definition selector_ok :: "select_lib \<Rightarrow> bool" where
  "selector_ok L \<longleftrightarrow> (\<forall>groups. mset (sl_map_order L groups) = mset groups)
     \<and> (\<forall>groups opts idx rest. sl_select_coin L groups opts = Inr (idx # rest) \<longrightarrow>
          distinct idx \<and> (\<forall>i \<in> set idx. i < length groups) \<and> so_target_value opts \<le> sum_list (map (\<lambda>i. fst (groups ! i)) idx))"

lemma select_from_mset:
  assumes "selector_ok L" "select_from L target feerate ty manual unspents = Selected sel"
  shows "mset sel \<subseteq># mset unspents \<and> set (filter (chosen manual) unspents) \<subseteq> set sel"
proof -
  define forced where "forced = filter (chosen manual) unspents"
  define groups where "groups = address_groups L (filter (\<lambda>c. \<not> chosen manual c) unspents)"
  define grouped where "grouped = sort_key coins_value (filter (\<lambda>g. 1 < length g) groups)"
  define singles where "singles = sort_key coins_value (filter (\<lambda>g. \<not> 1 < length g) groups)"
  have "mset (grouped @ singles) = mset groups"
    unfolding grouped_def singles_def mset_append mset_sort by (rule mset_filter_split)
  then have "mset (concat (grouped @ singles)) = mset (concat groups)" by (rule mset_concat_cong)
  also have "\<dots> = mset (filter (\<lambda>c. \<not> chosen manual c) unspents)"
    unfolding groups_def using assms(1) by (intro address_groups_mset) (simp add: selector_ok_def)
  finally have all: "mset forced + (mset (concat grouped) + mset (concat singles)) = mset unspents"
    unfolding forced_def using mset_filter_split [of "chosen manual" unspents] by simp
  note sel = assms(2) [unfolded select_from_def Let_def, folded forced_def groups_def, folded grouped_def singles_def]
  have "\<exists>taken. sel = forced @ taken \<and> mset taken \<subseteq># mset (concat grouped) + mset (concat singles)"
  proof (cases "required_total L target feerate ty (coins_weight forced) \<le> coins_value forced")
    case True
    with sel show ?thesis by simp
  next
    case False
    show ?thesis
    proof (cases "add_groups (required_total L target feerate ty) forced (coins_value forced) (coins_weight forced) grouped")
      case (Inl coins)
      with sel False have "coins = sel" by simp
      with add_groups_Inl [OF Inl] show ?thesis by (auto intro: subset_mset.order_trans mset_subset_eq_add_left)
    next
      case (Inr r)
      obtain coins tot weight where r: "r = (coins, tot, weight)" by (cases r)
      have coins: "coins = forced @ concat grouped" using add_groups_Inr [OF Inr [unfolded r]] .
      obtain idx rest where idx: "sl_select_coin L (map (\<lambda>g. (coins_value g, coins_weight g, length g)) singles)
          (selection_options L target feerate ty tot weight) = Inr (idx # rest)"
        and s: "sel = coins @ concat (map ((!) singles) idx)"
        using sel False Inr r by (auto split: sum.splits list.splits selection_error.splits if_splits)
      from assms(1) idx have "distinct idx" "\<forall>i \<in> set idx. i < length singles" unfolding selector_ok_def by (auto, fastforce+)
      then have "mset (concat (map ((!) singles) idx)) \<subseteq># mset (concat singles)" by (intro mset_concat_mono nth_subset_mset)
      then show ?thesis unfolding s coins by (intro exI [of _ "concat grouped @ concat (map ((!) singles) idx)"]) simp
    qed
  qed
  then obtain taken where "sel = forced @ taken" "mset taken \<subseteq># mset (concat grouped) + mset (concat singles)" by blast
  then show ?thesis unfolding all [symmetric] forced_def [symmetric] by simp
qed

section \<open>What a selection is worth\<close>

definition worth :: "coin list \<Rightarrow> nat" where
  "worth coins = sum_list (map (ut_amount \<circ> fst) coins)"

lemma worth_append [simp]: "worth (xs @ ys) = worth xs + worth ys"
  by (simp add: worth_def)

lemma coins_value_le: "coins_value coins \<le> worth coins"
proof -
  have "fold (\<lambda>(u, _) tot. wrapping_add 64 tot (ut_amount u)) coins t \<le> t + worth coins" for t
  proof (induction coins arbitrary: t)
    case (Cons c coins)
    have "wrapping_add 64 t (ut_amount (fst c)) \<le> t + ut_amount (fst c)" by (simp add: wrapping_add_def)
    with Cons.IH [of "wrapping_add 64 t (ut_amount (fst c))"] show ?case by (simp add: worth_def split_beta)
  qed (simp add: worth_def)
  from this [of 0] show ?thesis by (simp add: coins_value_def)
qed

lemma add_groups_worth:
  assumes "tot \<le> worth coins"
  shows "add_groups required coins tot weight groups = Inl sel \<Longrightarrow> \<exists>w. required w \<le> worth sel"
    and "add_groups required coins tot weight groups = Inr (sel, tot', weight') \<Longrightarrow> tot' \<le> worth sel"
  using assms
proof (induction groups arbitrary: coins tot weight)
  case (Cons g groups)
  have le: "wrapping_add 64 tot (coins_value g) \<le> worth (coins @ g)" if "tot \<le> worth coins" for tot coins
    using that coins_value_le [of g] by (simp add: wrapping_add_def)
  {
    case 1
    show ?case
    proof (cases "required (weight + coins_weight g) \<le> wrapping_add 64 tot (coins_value g)")
      case True
      with 1(1) have "sel = coins @ g" by (simp add: Let_def)
      with True le [OF 1(2)] show ?thesis by (meson le_trans)
    next
      case False
      with 1(1) show ?thesis by (intro Cons.IH(1) [OF _ le [OF 1(2)]]) (simp add: Let_def)
    qed
  next
    case 2
    then show ?case by (intro Cons.IH(2) [OF _ le [OF 2(2)]]) (simp add: Let_def split: if_splits)
  }
qed simp_all

lemma worth_concat_ge: "sum_list (map coins_value xss) \<le> worth (concat xss)"
  by (induction xss) (auto intro: add_mono coins_value_le simp: worth_def [of "[]"])

lemma select_from_worth:
  assumes "selector_ok L" "\<forall>weight. target + sl_calculate_fee L weight (fl32 (fl32 feerate / 4)) < 2 ^ 64"
    and "select_from L target feerate ty manual unspents = Selected sel"
  shows "target \<le> worth sel"
proof -
  define forced where "forced = filter (chosen manual) unspents"
  define groups where "groups = address_groups L (filter (\<lambda>c. \<not> chosen manual c) unspents)"
  define grouped where "grouped = sort_key coins_value (filter (\<lambda>g. 1 < length g) groups)"
  define singles where "singles = sort_key coins_value (filter (\<lambda>g. \<not> 1 < length g) groups)"
  note sel = assms(3) [unfolded select_from_def Let_def, folded forced_def groups_def, folded grouped_def singles_def]
  have req: "target \<le> required_total L target feerate ty w" for w
    using assms(2) by (simp add: required_total_def wrapping_add_def)
  show ?thesis
  proof (cases "required_total L target feerate ty (coins_weight forced) \<le> coins_value forced")
    case True
    with sel have "sel = forced" by simp
    with True req [of "coins_weight forced"] coins_value_le [of forced] show ?thesis by simp
  next
    case False
    note worths = add_groups_worth [OF coins_value_le [of forced], of "required_total L target feerate ty" "coins_weight forced" grouped]
    show ?thesis
    proof (cases "add_groups (required_total L target feerate ty) forced (coins_value forced) (coins_weight forced) grouped")
      case (Inl coins)
      with sel False have "coins = sel" by simp
      with worths(1) [OF Inl] req show ?thesis by (meson le_trans)
    next
      case (Inr r)
      obtain coins tot weight where r: "r = (coins, tot, weight)" by (cases r)
      have tot: "tot \<le> worth coins" by (rule worths(2) [OF Inr [unfolded r]])
      obtain idx rest where idx: "sl_select_coin L (map (\<lambda>g. (coins_value g, coins_weight g, length g)) singles)
          (selection_options L target feerate ty tot weight) = Inr (idx # rest)"
        and s: "sel = coins @ concat (map ((!) singles) idx)"
        using sel False Inr r by (auto split: sum.splits list.splits selection_error.splits if_splits)
      from assms(1) idx have bound: "\<forall>i \<in> set idx. i < length singles"
        and cover: "max (target - tot) 1 \<le> sum_list (map (\<lambda>i. fst (map (\<lambda>g. (coins_value g, coins_weight g, length g)) singles ! i)) idx)"
        unfolding selector_ok_def by (fastforce simp: selection_options_def)+
      have "map (\<lambda>i. fst (map (\<lambda>g. (coins_value g, coins_weight g, length g)) singles ! i)) idx = map coins_value (map ((!) singles) idx)"
        using bound by simp
      with cover worth_concat_ge [of "map ((!) singles) idx"] have "target - tot \<le> worth (concat (map ((!) singles) idx))" by simp
      with tot show ?thesis by (simp add: s)
    qed
  qed
qed

section \<open>Selections of the wallet\<close>

lemma distinct_submset:
  assumes "mset xs \<subseteq># mset ys" "distinct ys"
  shows "distinct xs"
proof -
  have "count (mset xs) a \<le> 1" for a
    using mset_subset_eq_count [OF assms(1), of a] assms(2) by (cases "a \<in> set ys") (simp_all add: distinct_count_atmost_1 count_mset_0_iff [THEN iffD2])
  moreover have "count (mset xs) a \<noteq> 0" if "a \<in> set xs" for a using that by (simp add: count_eq_zero_iff)
  ultimately have "count (mset xs) a = (if a \<in> set xs then 1 else 0)" for a
    by (metis One_nat_def count_mset_0_iff le_SucE le_zero_eq)
  then show ?thesis by (simp add: distinct_count_atmost_1)
qed

lemma distinct_map_filter: "distinct (map f xs) \<Longrightarrow> distinct (map f (filter P xs))"
  by (induction xs) auto

lemma utxos_distinct: "wstore_ok B s \<Longrightarrow> distinct (map (ut_outpoint \<circ> fst) (list_all_utxo_spend_info s))"
proof -
  assume ok: "wstore_ok B s"
  then have "map (ut_outpoint \<circ> fst) (list_all_utxo_spend_info s) = map fst (ws_utxo_cache s)"
    by (auto simp: list_all_utxo_spend_info_def wstore_ok_def)
  with ok show ?thesis by (simp add: wstore_ok_def keys_distinct_def)
qed

lemma try_pools_Inr: "try_pools select insufficient other pools = Inr coins \<Longrightarrow> \<exists>pool \<in> set pools. select pool = Selected coins"
  by (induction select insufficient other pools rule: try_pools.induct) (auto simp: Let_def split: pool_result.splits option.splits if_splits)

lemma manual_matched:
  assumes "manual_pool (Some outpoints) regular swap = Inr (kind, requested)"
    and "distinct (map (ut_outpoint \<circ> fst) regular)" "distinct (map (ut_outpoint \<circ> fst) swap)" "pool \<in> set (pools_to_try kind regular swap)"
  shows "set outpoints \<subseteq> (ut_outpoint \<circ> fst) ` set (filter (chosen requested) pool)"
proof (cases outpoints)
  case (Cons o1 os)
  have req: "requested = remdups outpoints" and len: "length (filter (chosen requested) regular) + length (filter (chosen requested) swap) = length requested"
    and one: "filter (chosen requested) regular = [] \<or> filter (chosen requested) swap = []"
    and kind: "kind = Some (if filter (chosen requested) regular \<noteq> [] then Regular else Swap)"
    using assms(1) by (auto simp: manual_pool_def Cons Let_def simp del: remdups.simps split: if_splits)
  let ?m = "filter (chosen requested) pool"
  have pool: "pool = (if filter (chosen requested) regular \<noteq> [] then regular else swap)"
    using assms(4) kind by (auto simp: pools_to_try_def split: if_splits)
  then have lm: "length ?m = length requested" using len one by (auto split: if_splits)
  have d: "distinct (map (ut_outpoint \<circ> fst) ?m)" using assms(2,3) pool by (auto intro: distinct_map_filter split: if_splits)
  have sub: "(ut_outpoint \<circ> fst) ` set ?m \<subseteq> set requested" by (auto simp: chosen_def)
  have "card ((ut_outpoint \<circ> fst) ` set ?m) = length requested" using distinct_card [OF d] lm by simp
  also have "\<dots> = card (set requested)" by (metis distinct_card distinct_remdups req)
  finally have "(ut_outpoint \<circ> fst) ` set ?m = set requested" by (intro card_subset_eq sub) simp_all
  then show ?thesis by (simp add: req)
qed simp


text \<open>A selector that takes all groups when they cover the target, and a wallet with one coin.\<close>

definition sample_select :: select_lib where
  "sample_select = \<lparr>sl_calculate_fee = (\<lambda>weight _. min weight 100000),
     sl_select_coin = (\<lambda>groups opts. if so_target_value opts \<le> sum_list (map fst groups) then Inr [[0..<length groups]]
       else Inl (InsufficientFunds (sum_list (map fst groups)) (so_target_value opts))),
     sl_address = (\<lambda>_. ''a''), sl_map_order = id\<rparr>"

definition one_utxo :: utxo where
  "one_utxo = \<lparr>ut_txid = [9], ut_vout = 0, ut_spk = [], ut_amount = 70000, ut_witness_script = None, ut_descriptor = None\<rparr>"

definition one_coin_wallet :: wallet where
  "one_coin_wallet = empty_wallet\<lparr>w_store := empty_store\<lparr>ws_utxo_cache := [(ut_outpoint one_utxo, one_utxo, SeedCoin ''m/0'' 70000 P2TR)]\<rparr>\<rparr>"

lemma sample_selector_ok: "selector_ok sample_select"
proof -
  have "map (\<lambda>i. fst (groups ! i)) [0..<length groups] = map fst groups" for groups :: "(nat \<times> nat \<times> nat) list"
    by (rule nth_equalityI) simp_all
  then show ?thesis by (auto simp: selector_ok_def sample_select_def)
qed

lemma one_coin_selected:
  "coin_select sample_select 60000 5 P2TR None None one_coin_wallet = Inr [(one_utxo, SeedCoin ''m/0'' 70000 P2TR)]"
  by (simp add: coin_select_def manual_pool_def pools_to_try_def filter_locked_def list_descriptor_utxo_spend_info_def list_swept_incoming_swap_utxos_def
      list_all_utxo_spend_info_def one_coin_wallet_def empty_wallet_def empty_store_def select_from_def chosen_def address_groups_def sample_select_def
      required_total_def wrapping_add_def coins_value_def coins_weight_def base_weight_def selection_options_def one_utxo_def Let_def)


end
