(* ===== verification/Spec2Isabelle.thy ===== *)
theory Spec2Isabelle
  imports MakerIdle TakerVerification CoinSelect
begin

text \<open>
  A verification of OpenSwap, a coinswap implementation. A taker moves coins through a route of makers. On every hop the
  payer locks an amount in a contract output that the next party can take with the preimage of a hash, or together with the payer, and that
  the payer gets back after a locktime. When all contracts are confirmed the taker hands over the private keys hop by hop; a
  party that disappears is answered on chain with the preimage or the refund. The legacy protocol uses two-of-two ECDSA outputs with pre-signed
  contract transactions, the taproot protocol a MuSig2 key path with a hashlock and a timelock leaf.

  \<^bold>\<open>Conventions.\<close> A fallible function returns a sum with the error on the left; code that changes state is a function
  \<open>('s, 'e, 'a) act\<close> from a state to a result and a state. A Rust panic is an error constructor ending in \<open>Panic\<close>. Integers are naturals with the
  width written out where an operation can wrap, saturate or fail; an amount is a natural, and a byte is an \<open>8 word\<close>. A \<open>HashMap\<close> is an
  association list with distinct keys. Functions of other crates are fields of records that the definitions take as arguments (\<open>btc\<close> for
  \<open>bitcoin\<close> and \<open>secp256k1\<close>, \<open>fidelity_lib\<close>, \<open>'c chain\<close> for the node, \<open>'m maker_ops\<close> for the \<open>Maker\<close> trait, \<open>'c wallet_ext\<close>,
  \<open>'c recovery_env\<close>, \<open>'x taker_env\<close>, \<open>select_lib\<close>); what the code relies on of them is stated as named hypotheses or as a locale
  (\<open>script_lib\<close>, \<open>key_lib\<close>), and \<open>sample_lib\<close> is an instance on which the concrete runs are evaluated. Code compiled only for the integration tests
  is left out and constants have their release values.

  \<^bold>\<open>Shared theories.\<close>
  \<^item> \<open>Prelude\<close>: results, stateful computations with elimination rules and Hoare triples, Rust integers, association lists, slices.
  \<^item> \<open>F64\<close>: doubles as rationals rounded to 53 bits, with monotonicity and error bounds.
  \<^item> \<open>Bitcoin\<close>: transactions, scripts and the functions of the \<open>bitcoin\<close> and \<open>secp256k1\<close> crates, and the sample instance.
  \<^item> \<open>Errors\<close>, \<open>Messages\<close>: the error enums (\<open>*/error.rs\<close>) and the wire messages (\<open>protocol/*_messages.rs\<close>).

  \<^bold>\<open>Protocol and wallet.\<close>
  \<^item> \<open>Contract\<close>: \<open>protocol/contract.rs\<close>, \<open>contract2.rs\<close> and the fee helpers of \<open>utill.rs\<close>. The scripts read back what was put in them, contract
    transactions validate, the fee is monotone and bounded.
  \<^item> \<open>SwapCoin\<close>: \<open>wallet/swapcoin.rs\<close>, every coin with its constructors and signing routines; a cooperative spend signs in script order.
  \<^item> \<open>Utill\<close>, \<open>Fidelity\<close>: descriptor checksum and parsers of \<open>utill.rs\<close>; the bond script and the acceptance check of a bond.
  \<^item> \<open>WalletStore\<close>: the tables of the wallet, the classification of outputs and the balances (\<open>wallet/api.rs\<close>, \<open>storage.rs\<close>).
  \<^item> \<open>ChainWait\<close>: the wait for confirmations. It returns within \<open>wait_fuel = 28\<close> polls on a clock that advances by each sleep, since the
    sleeps double and the total is bounded.
  \<^item> \<open>WalletRecovery\<close>: \<open>sweep_incoming_swapcoins\<close> and \<open>recover_timelocked_swapcoins\<close>; no coin leaves the wallet before its spend was seen confirmed or
    its contract is gone.
  \<^item> \<open>CoinSelect\<close>: \<open>Wallet::coin_select\<close>; a selection stays in one pool, takes no locked, excluded or unspendable coin and none twice.

  \<^bold>\<open>The maker.\<close>
  \<^item> \<open>MakerTypes\<close>, \<open>MakerTrace\<close>: the connection state and the \<open>Maker\<close> trait (\<open>maker/handlers.rs\<close>), and traces of its effects.
  \<^item> \<open>MakerLegacy\<close>, \<open>MakerTaproot\<close>: the handlers and verification routines of the two protocols. Coins are saved and watched before funding is broadcast,
    amounts are those negotiated, accepted contracts are worth what they claim, keys are handed over only against checked keys, the fee split
    is exact.
  \<^item> \<open>MakerHandlers\<close>: \<open>handle_message\<close>; which message is served in which phase, and that a rejected swap stays closed.
  \<^item> \<open>MakerServer\<close>, \<open>MakerFunding\<close>: the server's table of swaps, its implementation of the trait (\<open>maker/api.rs\<close>) and the checks of a proof of funding.
    Admission stays within the liquidity read and 30 unfinished swaps, a reconnecting taker resumes the stored swap, and accepted funding is confirmed, distinct and bound.
  \<^item> \<open>MakerNet\<close>, \<open>MakerConnection\<close>: admission of connections, framing with deadlines and the handler thread (\<open>maker/server.rs\<close>). A
    socket is a list of timed events; the loop runs with the fuel \<open>sock_work\<close> of that list, which is enough for every socket.
  \<^item> \<open>MakerTracker\<close>, \<open>MakerRecovery\<close>, \<open>MakerIdle\<close>: the tracker file under crashes, the recovery thread, the grouping of coins after a restart and the
    idle checker. The recovery loop has its number of passes as fuel; its theorems hold at every point of every run.

  \<^bold>\<open>The taker.\<close>
  \<^item> \<open>TakerTracker\<close>: \<open>taker/swap_tracker.rs\<close>; the cleanup at start-up never drops a swap that funded a contract.
  \<^item> \<open>TakerTypes\<close>: the parameters and the state of a swap and the accessors of \<open>taker/api.rs\<close>.
  \<^item> \<open>TakerFees\<close>, \<open>TakerPayment\<close>: \<open>taker/payment.rs\<close>. The bisection finds the least gross amount and the exact net in rounded arithmetic, the price of a
    route is what the later checks expect, and the pinned outputs total the receiver's amount.
  \<^item> \<open>TakerVerification\<close>: \<open>taker/legacy_verification.rs\<close>, \<open>taproot_verification.rs\<close>. What accepted contracts guarantee, that the two sides check taproot
    contracts alike, and three gaps: repeated taproot contracts, the unchecked end of the legacy script, unchecked receiver amounts.

  \<^bold>\<open>How the parts meet.\<close> The maker's handlers are generic in the trait record; \<open>MakerServer\<close> and \<open>MakerFunding\<close> give the record of the
  real server, and \<open>MakerConnection\<close> runs the handlers on it. \<open>MakerRecovery\<close> composes the recovery of \<open>WalletRecovery\<close> with the tracker. The taker's
  expected amounts replay the maker's fee formula of \<open>Contract\<close>, and \<open>TakerVerification\<close> relates its checks to those of \<open>MakerTaproot\<close>.

  \<^bold>\<open>Not modelled.\<close>
  \<^item> The taker's control flow (\<open>start_swap\<close>, negotiation, \<open>legacy_swap.rs\<close>, \<open>taproot_swap.rs\<close>): sequences of network round trips around the checks and
    computations above, over sockets, threads and wall-clock waits.
  \<^item> Building and signing ordinary wallet transactions (\<open>spend.rs\<close>, \<open>funding.rs\<close>, \<open>sign_transaction\<close>) and key derivation: mostly calls of the
    \<open>bitcoin\<close> crate and the node.
  \<^item> Offer discovery (\<open>offers.rs\<close>, \<open>background_services.rs\<close>), the node backends (\<open>wallet/blockchain\<close>), the watch tower (\<open>watch_tower\<close>) and the Nostr
    announcements: network clients and threads.
  \<^item> Encryption, backups, reports, deniability proofs, RPC, fee estimation services, configuration, foreign bindings and the programs in \<open>bin\<close>: file, terminal and
    network I/O around other crates.
\<close>

end
